(* ===== verification/Prelude.thy ===== *)
theory Prelude
  imports Main "HOL-Library.Finite_Map"
begin

text \<open>
  Shared vocabulary of the development.

  \<^item> The Go types the components use: bytes strings (\<open>string\<close>), \<open>map[K]V\<close> as finite maps
    (\<open>('k, 'v) fmap\<close>, with the zero value read for an absent key), \<open>int64\<close> values as
    \<open>int\<close> with the wrap-around and the saturation of the \<open>time\<close> package written out, error
    returns as \<open>string + 'a\<close> with \<open>Inl\<close> the error message.
  \<^item> The rule collections the component proofs draw on.
  \<^item> Generic lemmas on lists, options and finite maps.
  \<^item> The locale \<open>transition_system\<close>: invariants of reachable states, proved once and
    interpreted on the step relations of the components.
\<close>

named_theorems go_strings "characterisations of the Go string operations"
named_theorems handler_simps "effects of the handler's operations on its fields"
named_theorems inv_intros "preservation rules of the components' invariants"

type_synonym 'a result = "string + 'a"
type_synonym gotime = int \<comment> \<open>an instant: nanoseconds since the Unix epoch\<close>
type_synonym duration = int \<comment> \<open>\<open>time.Duration\<close>: an \<open>int64\<close> of nanoseconds\<close>

abbreviation Err :: "string \<Rightarrow> 'a result" where "Err e \<equiv> Inl e"
abbreviation Ok :: "'a \<Rightarrow> 'a result" where "Ok v \<equiv> Inr v"

section \<open>Go maps\<close>

text \<open>\<open>m[k]\<close> on a \<open>map[K]string\<close>: the zero value when the key is absent.\<close>

definition getz :: "('k, string) fmap \<Rightarrow> 'k \<Rightarrow> string" where
  "getz m k = (case fmlookup m k of None \<Rightarrow> '''' | Some v \<Rightarrow> v)"

lemma getz_empty [simp]: "getz fmempty k = ''''"
  by (simp add: getz_def)

lemma getz_upd [simp]: "getz (fmupd k v m) k' = (if k' = k then v else getz m k')"
  by (simp add: getz_def)

lemma getz_drop [simp]: "getz (fmdrop k m) k' = (if k' = k then '''' else getz m k')"
  by (simp add: getz_def)

lemma getz_nonempty: "v \<noteq> '''' \<Longrightarrow> getz m k = v \<longleftrightarrow> fmlookup m k = Some v"
  by (auto simp: getz_def split: option.splits)

text \<open>\<open>m[k].f = v\<close> through a pointer held in the map: nothing happens when the key is absent.\<close>

definition fmadjust :: "'k \<Rightarrow> ('v \<Rightarrow> 'v) \<Rightarrow> ('k, 'v) fmap \<Rightarrow> ('k, 'v) fmap" where
  "fmadjust k f m = (case fmlookup m k of None \<Rightarrow> m | Some v \<Rightarrow> fmupd k (f v) m)"

lemma fmlookup_adjust [simp]:
  "fmlookup (fmadjust k f m) k' = (if k' = k then map_option f (fmlookup m k) else fmlookup m k')"
  by (auto simp: fmadjust_def split: option.splits)

lemma fmdom_adjust [simp]: "fmdom (fmadjust k f m) = fmdom m"
  by (auto simp: fmadjust_def finsert_absorb fmdomI split: option.splits)

lemma fmadjust_absent: "fmlookup m k = None \<Longrightarrow> fmadjust k f m = m"
  by (simp add: fmadjust_def)

section \<open>Sixty-four bit integers\<close>

definition i64_min :: int where "i64_min = - (2 ^ 63)"
definition i64_max :: int where "i64_max = 2 ^ 63 - 1"

text \<open>The wrap-around of \<open>int64\<close> arithmetic.\<close>

definition i64 :: "int \<Rightarrow> int" where
  "i64 x = (x + 2 ^ 63) mod 2 ^ 64 - 2 ^ 63"

text \<open>The saturation of \<open>Time.Sub\<close>, on which \<open>time.Since\<close> and \<open>time.Until\<close> rest.\<close>

definition sat64 :: "int \<Rightarrow> int" where
  "sat64 x = max i64_min (min i64_max x)"

definition in_i64 :: "int \<Rightarrow> bool" where
  "in_i64 x \<longleftrightarrow> i64_min \<le> x \<and> x \<le> i64_max"

lemma i64_id: "in_i64 x \<Longrightarrow> i64 x = x"
  by (simp add: in_i64_def i64_def i64_min_def i64_max_def)

lemma in_i64_i64 [simp]: "in_i64 (i64 x)"
proof -
  have "0 \<le> (x + 2 ^ 63) mod 2 ^ 64" "(x + 2 ^ 63) mod 2 ^ 64 < 2 ^ 64" by simp_all
  then show ?thesis by (simp add: in_i64_def i64_def i64_min_def i64_max_def)
qed

lemma in_i64_sat64 [simp]: "in_i64 (sat64 x)"
  by (simp add: in_i64_def sat64_def i64_min_def i64_max_def)

lemma sat64_id: "in_i64 x \<Longrightarrow> sat64 x = x"
  by (simp add: in_i64_def sat64_def)

lemma sat64_less_iff: "in_i64 m \<Longrightarrow> m < i64_max \<Longrightarrow> m < sat64 x \<longleftrightarrow> m < x"
  by (auto simp: in_i64_def sat64_def)

lemma sat64_le_iff: "in_i64 m \<Longrightarrow> i64_min < m \<Longrightarrow> m \<le> sat64 x \<longleftrightarrow> m \<le> x"
  by (auto simp: in_i64_def sat64_def)

definition time_second :: int where "time_second = 1000000000"
definition time_minute :: int where "time_minute = 60 * time_second"

definition time_Since :: "gotime \<Rightarrow> gotime \<Rightarrow> duration" where
  "time_Since now t = sat64 (now - t)"

definition time_Until :: "gotime \<Rightarrow> gotime \<Rightarrow> duration" where
  "time_Until now t = sat64 (t - now)"

text \<open>The zero \<open>time.Time\<close> (January 1, year 1 UTC) and \<open>Time.Unix()\<close>, which rounds towards
  minus infinity.\<close>

definition time_zero :: gotime where "time_zero = - 62135596800 * time_second"

definition unix_seconds :: "gotime \<Rightarrow> int" where
  "unix_seconds t = i64 (t div time_second)"

text \<open>\<open>time.Unix(sec, 0)\<close> keeps \<open>sec + 62135596800\<close> in an \<open>int64\<close>, which wraps.\<close>

definition time_Unix :: "int \<Rightarrow> gotime" where
  "time_Unix sec = (i64 (sec + 62135596800) - 62135596800) * time_second"

lemma time_Unix_exact:
  assumes "0 \<le> sec" and "sec < 2 ^ 62"
  shows "time_Unix sec = sec * time_second"
proof -
  have "in_i64 (sec + 62135596800)"
    using assms by (simp add: in_i64_def i64_min_def i64_max_def)
  then show ?thesis by (simp add: time_Unix_def i64_id)
qed

section \<open>Lists\<close>

text \<open>\<open>strings.Join\<close>.\<close>

fun join :: "string \<Rightarrow> string list \<Rightarrow> string" where
  "join sep [] = ''''"
| "join sep [x] = x"
| "join sep (x # y # xs) = x @ sep @ join sep (y # xs)"

lemma foldl_invariant:
  assumes "P s" and "\<And>s x. x \<in> set xs \<Longrightarrow> P s \<Longrightarrow> P (f s x)"
  shows "P (foldl f s xs)"
  using assms by (induction xs arbitrary: s) auto

lemma dropWhile_takeWhile_break:
  "(\<forall>c \<in> set xs. P c) \<Longrightarrow> \<not> P d \<Longrightarrow> takeWhile P (xs @ d # ys) = xs"
  by (simp add: takeWhile_tail)

section \<open>Reachable states\<close>

text \<open>
  A component with state is a transition system: an initial state predicate and a step
  relation. An invariant that holds initially and that every step keeps holds in every
  reachable state; the locale proves it once.
\<close>

inductive reachable_from :: "('s \<Rightarrow> bool) \<Rightarrow> ('s \<Rightarrow> 's \<Rightarrow> bool) \<Rightarrow> 's \<Rightarrow> bool"
  for init :: "'s \<Rightarrow> bool" and step :: "'s \<Rightarrow> 's \<Rightarrow> bool" where
  start: "init s \<Longrightarrow> reachable_from init step s"
| step: "reachable_from init step s \<Longrightarrow> step s t \<Longrightarrow> reachable_from init step t"

locale transition_system =
  fixes init :: "'s \<Rightarrow> bool"
    and step :: "'s \<Rightarrow> 's \<Rightarrow> bool"
    and inv :: "'s \<Rightarrow> bool"
  assumes inv_init: "init s \<Longrightarrow> inv s"
    and inv_step: "inv s \<Longrightarrow> step s t \<Longrightarrow> inv t"
begin

lemma reachable_inv: "reachable_from init step s \<Longrightarrow> inv s"
  by (induction rule: reachable_from.induct) (auto intro: inv_init inv_step)

lemma steps_inv: "step\<^sup>*\<^sup>* s t \<Longrightarrow> inv s \<Longrightarrow> inv t"
  by (induction rule: rtranclp_induct) (auto intro: inv_step)

end

end
