(* ===== verification/GoStrings.thy ===== *)
theory GoStrings
  imports Prelude
begin

text \<open>
  The operations of Go's \<open>strings\<close>, \<open>unicode/utf8\<close>, \<open>strconv\<close> and \<open>fmt\<close> packages that the
  sources call. A Go string is a sequence of bytes, so a \<open>string\<close> here is read as bytes: a rune
  beyond ASCII is several characters, in UTF-8, and \<open>length\<close> is Go's \<open>len\<close>.

  The case table of the \<open>unicode\<close> package beyond ASCII is generated data; it is the argument
  \<open>uc\<close> of \<open>ToLower\<close>, a function on code points. On an ASCII string it is not consulted.
\<close>

section \<open>Prefixes, suffixes and search\<close>

fun HasPrefix :: "string \<Rightarrow> string \<Rightarrow> bool" where
  "HasPrefix s [] = True"
| "HasPrefix [] (p # ps) = False"
| "HasPrefix (c # cs) (p # ps) = (c = p \<and> HasPrefix cs ps)"

definition TrimPrefix :: "string \<Rightarrow> string \<Rightarrow> string" where
  "TrimPrefix s p = (if HasPrefix s p then drop (length p) s else s)"

definition HasSuffix :: "string \<Rightarrow> string \<Rightarrow> bool" where
  "HasSuffix s p = HasPrefix (rev s) (rev p)"

definition TrimSuffix :: "string \<Rightarrow> string \<Rightarrow> string" where
  "TrimSuffix s p = (if HasSuffix s p then take (length s - length p) s else s)"

text \<open>\<open>strings.Index\<close>, with \<open>None\<close> for the result \<open>-1\<close>.\<close>

fun Index :: "string \<Rightarrow> string \<Rightarrow> nat option" where
  "Index [] sub = (if HasPrefix [] sub then Some 0 else None)"
| "Index (c # cs) sub = (if HasPrefix (c # cs) sub then Some 0 else map_option Suc (Index cs sub))"

definition Contains :: "string \<Rightarrow> string \<Rightarrow> bool" where
  "Contains s sub = (Index s sub \<noteq> None)"

fun IndexByte :: "string \<Rightarrow> char \<Rightarrow> nat option" where
  "IndexByte [] c = None"
| "IndexByte (x # xs) c = (if x = c then Some 0 else map_option Suc (IndexByte xs c))"

lemma HasPrefix_iff [go_strings]: "HasPrefix s p \<longleftrightarrow> (\<exists>t. s = p @ t)"
  by (induction s p rule: HasPrefix.induct) auto

lemma HasPrefix_append [simp]: "HasPrefix (p @ t) p"
  by (auto simp: HasPrefix_iff)

lemma TrimPrefix_append [simp]: "TrimPrefix (p @ t) p = t"
  by (simp add: TrimPrefix_def)

lemma HasSuffix_iff [go_strings]: "HasSuffix s p \<longleftrightarrow> (\<exists>t. s = t @ p)"
proof
  assume "HasSuffix s p"
  then obtain t where "rev s = rev p @ t" by (auto simp: HasSuffix_def HasPrefix_iff)
  then have "s = rev t @ p" by (metis rev_append rev_rev_ident)
  then show "\<exists>t. s = t @ p" ..
qed (auto simp: HasSuffix_def)

lemma TrimSuffix_append [simp]: "TrimSuffix (t @ p) p = t"
  by (auto simp: TrimSuffix_def HasSuffix_iff)

lemma TrimSuffix_other: "\<not> HasSuffix s p \<Longrightarrow> TrimSuffix s p = s"
  by (simp add: TrimSuffix_def)

lemma Index_Some:
  "Index s sub = Some i \<Longrightarrow> \<exists>t. s = take i s @ sub @ t \<and> i + length sub \<le> length s"
proof (induction s arbitrary: i)
  case Nil
  then show ?case by (auto simp: HasPrefix_iff split: if_splits)
next
  case (Cons c cs)
  show ?case
  proof (cases "HasPrefix (c # cs) sub")
    case True
    with Cons.prems have "i = 0" by simp
    moreover from True obtain t where t: "c # cs = sub @ t" unfolding HasPrefix_iff by blast
    then have "length (c # cs) = length sub + length t" by (metis length_append)
    ultimately show ?thesis using t by auto
  next
    case False
    with Cons.prems obtain j where j: "Index cs sub = Some j" "i = Suc j"
      by (auto simp: False simp del: HasPrefix.simps)
    from Cons.IH [OF j(1)] j(2) show ?thesis by auto
  qed
qed

lemma Index_append: "HasPrefix s sub \<Longrightarrow> Index s sub = Some 0"
  by (cases s) auto

lemma Contains_iff [go_strings]: "Contains s sub \<longleftrightarrow> (\<exists>a b. s = a @ sub @ b)"
proof (induction s)
  case Nil
  then show ?case by (auto simp: Contains_def HasPrefix_iff)
next
  case (Cons c cs)
  show ?case
  proof (cases "HasPrefix (c # cs) sub")
    case True
    moreover then obtain t where "c # cs = [] @ sub @ t" unfolding HasPrefix_iff by auto
    ultimately show ?thesis unfolding Contains_def by (metis Index_append option.distinct(1))
  next
    case False
    then have step: "Contains (c # cs) sub = Contains cs sub" by (simp add: Contains_def)
    have "(\<exists>a b. c # cs = a @ sub @ b) \<longleftrightarrow> (\<exists>a b. cs = a @ sub @ b)" (is "?L = ?R")
    proof
      assume ?L
      then obtain a b where ab: "c # cs = a @ sub @ b" by blast
      with False have "a \<noteq> []" unfolding HasPrefix_iff by auto
      with ab obtain a' where "a = c # a'" "cs = a' @ sub @ b" by (cases a) auto
      then show ?R by blast
    next
      assume ?R
      then show ?L by (metis append_Cons)
    qed
    with Cons.IH step show ?thesis by simp
  qed
qed

lemma IndexByte_None [go_strings]: "IndexByte s c = None \<longleftrightarrow> c \<notin> set s"
  by (induction s) auto

lemma IndexByte_append [simp]: "c \<notin> set k \<Longrightarrow> IndexByte (k @ c # v) c = Some (length k)"
  by (induction k) auto

section \<open>Splitting\<close>

text \<open>\<open>strings.Split\<close> and \<open>strings.SplitN(s, sep, 2)\<close> for a one-byte separator, the only use
  the sources make of them.\<close>

fun Split :: "string \<Rightarrow> char \<Rightarrow> string list" where
  "Split [] c = ['''']"
| "Split (x # xs) c =
     (if x = c then '''' # Split xs c
      else (case Split xs c of [] \<Rightarrow> [[x]] | p # ps \<Rightarrow> (x # p) # ps))"

definition SplitN2 :: "string \<Rightarrow> char \<Rightarrow> string list" where
  "SplitN2 s c =
     (case IndexByte s c of None \<Rightarrow> [s] | Some i \<Rightarrow> [take i s, drop (Suc i) s])"

lemma Split_ne [simp]: "Split s c \<noteq> []"
  by (cases s) (auto split: list.splits)

lemma Split_no_sep: "c \<notin> set s \<Longrightarrow> Split s c = [s]"
  by (induction s) auto

lemma Split_append: "c \<notin> set p \<Longrightarrow> Split (p @ c # rest) c = p # Split rest c"
  by (induction p) auto

text \<open>Splitting undoes joining when no field holds the separator.\<close>

lemma Split_join:
  assumes "ps \<noteq> []" and "\<And>p. p \<in> set ps \<Longrightarrow> c \<notin> set p"
  shows "Split (join [c] ps) c = ps"
  using assms
proof (induction ps rule: induct_list012)
  case (2 x)
  then show ?case by (simp add: Split_no_sep)
next
  case (3 x y zs)
  then show ?case by (simp add: Split_append)
qed simp

lemma Contains_join:
  assumes "2 \<le> length ps"
  shows "Contains (join [c] ps) [c]"
proof -
  from assms obtain x y zs where "ps = x # y # zs" by (cases ps; cases "tl ps") auto
  then have "join [c] ps = x @ [c] @ join [c] (y # zs)" by simp
  then show ?thesis by (simp only: Contains_iff) blast
qed

lemma Split_fields: "p \<in> set (Split s c) \<Longrightarrow> c \<notin> set p"
proof (induction s arbitrary: p)
  case (Cons x xs)
  then show ?case
    by (cases "Split xs c") (auto split: if_splits)
qed simp

lemma SplitN2_append [simp]: "c \<notin> set a \<Longrightarrow> SplitN2 (a @ c # b) c = [a, b]"
  by (simp add: SplitN2_def)

lemma SplitN2_no_sep: "c \<notin> set a \<Longrightarrow> SplitN2 a c = [a]"
  by (simp add: SplitN2_def IndexByte_None [THEN iffD2])

lemma IndexByte_Some:
  "IndexByte s c = Some i \<Longrightarrow> s = take i s @ c # drop (Suc i) s \<and> c \<notin> set (take i s)"
  by (induction s arbitrary: i) (auto split: if_splits)

lemma SplitN2_cases:
  obtains (none) "c \<notin> set s" "SplitN2 s c = [s]"
  | (some) a b where "s = a @ c # b" "c \<notin> set a" "SplitN2 s c = [a, b]"
proof (cases "IndexByte s c")
  case None
  then have "c \<notin> set s" by (simp add: IndexByte_None)
  then show ?thesis using none SplitN2_no_sep by blast
next
  case (Some i)
  from IndexByte_Some [OF this] Some show ?thesis
    by (intro some [of "take i s" "drop (Suc i) s"]) (auto simp: SplitN2_def)
qed

section \<open>Trimming\<close>

definition TrimRight :: "string \<Rightarrow> char \<Rightarrow> string" where
  "TrimRight s c = rev (dropWhile (\<lambda>x. x = c) (rev s))"

text \<open>
  The UTF-8 encodings of the runes for which \<open>unicode.IsSpace\<close> holds: U+0009 to U+000D,
  U+0020, U+0085, U+00A0, U+1680, U+2000 to U+200A, U+2028, U+2029, U+202F, U+205F, U+3000.
  UTF-8 is prefix-free and self-synchronising, so the first (last) rune of a string is a space
  exactly when the string starts (ends) with one of them.
\<close>

definition ascii_spaces :: "char list" where
  "ascii_spaces = [CHR 0x09, CHR 0x0A, CHR 0x0B, CHR 0x0C, CHR 0x0D, CHR 0x20]"

definition wide_spaces :: "string list" where
  "wide_spaces =
     [[CHR 0xC2, CHR 0x85], [CHR 0xC2, CHR 0xA0], [CHR 0xE1, CHR 0x9A, CHR 0x80],
      [CHR 0xE2, CHR 0x80, CHR 0x80], [CHR 0xE2, CHR 0x80, CHR 0x81], [CHR 0xE2, CHR 0x80, CHR 0x82],
      [CHR 0xE2, CHR 0x80, CHR 0x83], [CHR 0xE2, CHR 0x80, CHR 0x84], [CHR 0xE2, CHR 0x80, CHR 0x85],
      [CHR 0xE2, CHR 0x80, CHR 0x86], [CHR 0xE2, CHR 0x80, CHR 0x87], [CHR 0xE2, CHR 0x80, CHR 0x88],
      [CHR 0xE2, CHR 0x80, CHR 0x89], [CHR 0xE2, CHR 0x80, CHR 0x8A], [CHR 0xE2, CHR 0x80, CHR 0xA8],
      [CHR 0xE2, CHR 0x80, CHR 0xA9], [CHR 0xE2, CHR 0x80, CHR 0xAF], [CHR 0xE2, CHR 0x81, CHR 0x9F],
      [CHR 0xE3, CHR 0x80, CHR 0x80]]"

definition space_encodings :: "string list" where
  "space_encodings = map (\<lambda>c. [c]) ascii_spaces @ wide_spaces"

text \<open>Drops the listed encodings from the front, as often as one is there.\<close>

definition leading :: "string list \<Rightarrow> string \<Rightarrow> nat" where
  "leading es s = (case find (HasPrefix s) es of None \<Rightarrow> 0 | Some e \<Rightarrow> length e)"

function trim_front :: "string list \<Rightarrow> string \<Rightarrow> string" where
  "trim_front es s = (if leading es s = 0 \<or> s = [] then s else trim_front es (drop (leading es s) s))"
  by pat_completeness auto
termination
  by (relation "measure (\<lambda>(es, s). length s)") auto

declare trim_front.simps [simp del]

definition TrimSpace :: "string \<Rightarrow> string" where
  "TrimSpace s =
     rev (trim_front (map rev space_encodings) (rev (trim_front space_encodings s)))"

text \<open>A string with no space at either end, in particular one with no space byte and no
  byte beyond ASCII, is not changed.\<close>

lemma trim_front_id: "leading es s = 0 \<Longrightarrow> trim_front es s = s"
  by (simp add: trim_front.simps)

lemma leading_0: "(\<And>e. e \<in> set es \<Longrightarrow> \<not> HasPrefix s e) \<Longrightarrow> leading es s = 0"
  by (simp add: leading_def find_None_iff [THEN iffD2])

definition plain_char :: "char \<Rightarrow> bool" where
  "plain_char c \<longleftrightarrow> c \<notin> set ascii_spaces \<and> (of_char c :: nat) < 128"

lemma space_encodings_ends:
  "list_all (\<lambda>e. e \<noteq> [] \<and> \<not> plain_char (hd e) \<and> \<not> plain_char (last e)) space_encodings"
  by code_simp

lemma space_encodings_hd: "e \<in> set space_encodings \<Longrightarrow> e \<noteq> [] \<and> \<not> plain_char (hd e)"
  using space_encodings_ends unfolding list_all_iff by blast

lemma space_encodings_rev: "e \<in> set (map rev space_encodings) \<Longrightarrow> e \<noteq> [] \<and> \<not> plain_char (hd e)"
  using space_encodings_ends unfolding list_all_iff by (auto simp: hd_rev)

lemma HasPrefix_hd: "HasPrefix s e \<Longrightarrow> e \<noteq> [] \<Longrightarrow> s \<noteq> [] \<and> hd s = hd e"
  by (auto simp: HasPrefix_iff)

lemma leading_plain:
  assumes "s = [] \<or> plain_char (hd s)"
  shows "leading space_encodings s = 0" and "leading (map rev space_encodings) s = 0"
proof -
  have "leading es s = 0" if "\<And>e. e \<in> set es \<Longrightarrow> e \<noteq> [] \<and> \<not> plain_char (hd e)" for es
    using assms that by (intro leading_0) (metis HasPrefix_hd)
  then show "leading space_encodings s = 0" and "leading (map rev space_encodings) s = 0"
    using space_encodings_hd space_encodings_rev by blast+
qed

lemma TrimSpace_plain:
  assumes "s = [] \<or> plain_char (hd s) \<and> plain_char (last s)"
  shows "TrimSpace s = s"
proof -
  have "rev s = [] \<or> plain_char (hd (rev s))"
    using assms by (auto simp: hd_rev)
  then show ?thesis
    using assms by (auto simp: TrimSpace_def trim_front_id leading_plain)
qed

lemma TrimSpace_all_plain: "(\<And>c. c \<in> set s \<Longrightarrow> plain_char c) \<Longrightarrow> TrimSpace s = s"
  by (rule TrimSpace_plain) (cases s; auto)

text \<open>Trimming is idempotent: what is left neither starts nor ends with a space.\<close>

lemma trim_front_drop: "\<exists>k. trim_front es s = drop k s"
proof (induction es s rule: trim_front.induct)
  case (1 es s)
  show ?case
  proof (cases "leading es s = 0 \<or> s = []")
    case True
    then show ?thesis by (metis drop0 trim_front.simps)
  next
    case False
    with 1 obtain k where "trim_front es (drop (leading es s) s) = drop k (drop (leading es s) s)"
      by blast
    with False show ?thesis by (subst trim_front.simps) auto
  qed
qed

lemma trim_front_done: "leading es (trim_front es s) = 0 \<or> trim_front es s = []"
proof (induction es s rule: trim_front.induct)
  case (1 es s)
  then show ?case by (subst (1 2) trim_front.simps) auto
qed

lemma leading_take:
  assumes "leading es s = 0" and "\<And>e. e \<in> set es \<Longrightarrow> e \<noteq> []"
  shows "leading es (take n s) = 0"
proof (rule leading_0)
  fix e assume e: "e \<in> set es"
  show "\<not> HasPrefix (take n s) e"
  proof
    assume "HasPrefix (take n s) e"
    then have "HasPrefix s e" by (metis HasPrefix_iff append.assoc append_take_drop_id)
    with e have "find (HasPrefix s) es \<noteq> None" by (auto simp: find_None_iff)
    moreover have "find (HasPrefix s) es = Some e' \<Longrightarrow> length e' \<noteq> 0" for e'
      using assms(2) by (auto simp: find_Some_iff)
    ultimately show False using assms(1) by (auto simp: leading_def split: option.splits)
  qed
qed

lemma leading_TrimSpace [simp]: "leading space_encodings (TrimSpace s) = 0"
proof -
  let ?t = "trim_front space_encodings s"
  obtain k where "trim_front (map rev space_encodings) (rev ?t) = drop k (rev ?t)"
    using trim_front_drop by blast
  then have u: "TrimSpace s = take (length ?t - k) ?t" by (simp add: TrimSpace_def rev_drop)
  have "leading space_encodings ?t = 0 \<or> ?t = []" by (rule trim_front_done)
  then show ?thesis
    using leading_take [of space_encodings ?t] space_encodings_hd u by (auto simp: leading_plain)
qed

lemma TrimSpace_idem [simp]: "TrimSpace (TrimSpace s) = TrimSpace s"
proof -
  let ?u = "trim_front (map rev space_encodings) (rev (trim_front space_encodings s))"
  have "trim_front space_encodings (TrimSpace s) = TrimSpace s" by (rule trim_front_id) simp
  moreover have "trim_front (map rev space_encodings) ?u = ?u"
    using trim_front_done [of "map rev space_encodings" "rev (trim_front space_encodings s)"]
    by (auto intro: trim_front_id simp: leading_plain)
  ultimately show ?thesis by (simp add: TrimSpace_def)
qed

section \<open>UTF-8\<close>

text \<open>
  \<open>utf8.DecodeRuneInString\<close> on a non-empty string: the code point and the number of bytes it
  takes, \<open>None\<close> (and one byte) for an encoding that is not valid: a stray continuation byte, an
  overlong form, a surrogate, a code point beyond U+10FFFF or a truncated sequence.
\<close>

definition byte :: "char \<Rightarrow> nat" where
  "byte c = of_char c"

definition cont :: "nat \<Rightarrow> nat \<Rightarrow> char \<Rightarrow> bool" where
  "cont lo hi c \<longleftrightarrow> lo \<le> byte c \<and> byte c \<le> hi"

fun decode_rune :: "string \<Rightarrow> nat option \<times> nat" where
  "decode_rune [] = (None, 0)"
| "decode_rune (a # s) =
     (if byte a < 128 then (Some (byte a), 1)
      else if 0xC2 \<le> byte a \<and> byte a \<le> 0xDF then
        (case s of
           b # _ \<Rightarrow> if cont 0x80 0xBF b
                    then (Some ((byte a - 0xC0) * 64 + (byte b - 0x80)), 2) else (None, 1)
         | _ \<Rightarrow> (None, 1))
      else if 0xE0 \<le> byte a \<and> byte a \<le> 0xEF then
        (case s of
           b # c # _ \<Rightarrow>
             if cont (if byte a = 0xE0 then 0xA0 else 0x80) (if byte a = 0xED then 0x9F else 0xBF) b
                \<and> cont 0x80 0xBF c
             then (Some ((byte a - 0xE0) * 4096 + (byte b - 0x80) * 64 + (byte c - 0x80)), 3)
             else (None, 1)
         | _ \<Rightarrow> (None, 1))
      else if 0xF0 \<le> byte a \<and> byte a \<le> 0xF4 then
        (case s of
           b # c # d # _ \<Rightarrow>
             if cont (if byte a = 0xF0 then 0x90 else 0x80) (if byte a = 0xF4 then 0x8F else 0xBF) b
                \<and> cont 0x80 0xBF c \<and> cont 0x80 0xBF d
             then (Some ((byte a - 0xF0) * 262144 + (byte b - 0x80) * 4096
                         + (byte c - 0x80) * 64 + (byte d - 0x80)), 4)
             else (None, 1)
         | _ \<Rightarrow> (None, 1))
      else (None, 1))"

lemma decode_rune_width: "s \<noteq> [] \<Longrightarrow> 0 < snd (decode_rune s)"
  by (cases s) (auto split: list.splits)

lemma decode_rune_ascii [simp]: "byte a < 128 \<Longrightarrow> decode_rune (a # s) = (Some (byte a), 1)"
  by simp

declare decode_rune.simps [simp del]

function runes :: "string \<Rightarrow> nat option list" where
  "runes s = (if s = [] then [] else fst (decode_rune s) # runes (drop (snd (decode_rune s)) s))"
  by pat_completeness auto
termination
  by (relation "measure length") (auto simp: decode_rune_width)

declare runes.simps [simp del]

definition ValidString :: "string \<Rightarrow> bool" where
  "ValidString s = list_all (\<lambda>r. r \<noteq> None) (runes s)"

definition encode_rune :: "nat \<Rightarrow> string" where
  "encode_rune r =
     map char_of
       (if r < 0x80 then [r]
        else if r < 0x800 then [0xC0 + r div 64, 0x80 + r mod 64]
        else if 0x10FFFF < r \<or> (0xD800 \<le> r \<and> r \<le> 0xDFFF) then [0xEF, 0xBF, 0xBD]
        else if r < 0x10000 then [0xE0 + r div 4096, 0x80 + r div 64 mod 64, 0x80 + r mod 64]
        else [0xF0 + r div 262144, 0x80 + r div 4096 mod 64, 0x80 + r div 64 mod 64, 0x80 + r mod 64])"

definition ascii :: "string \<Rightarrow> bool" where
  "ascii s = list_all (\<lambda>c. byte c < 128) s"

lemma ascii_Nil [simp]: "ascii []"
  and ascii_Cons [simp]: "ascii (c # s) \<longleftrightarrow> byte c < 128 \<and> ascii s"
  and ascii_append [simp]: "ascii (s @ t) \<longleftrightarrow> ascii s \<and> ascii t"
  by (auto simp: ascii_def)

lemma runes_ascii: "ascii s \<Longrightarrow> runes s = map (\<lambda>c. Some (byte c)) s"
proof (induction s)
  case (Cons c s)
  then show ?case by (subst runes.simps) simp
qed (simp add: runes.simps)

lemma ValidString_ascii: "ascii s \<Longrightarrow> ValidString s"
  by (simp add: ValidString_def runes_ascii list_all_iff)

section \<open>Lower case\<close>

definition lower_byte :: "nat \<Rightarrow> nat" where
  "lower_byte b = (if 0x41 \<le> b \<and> b \<le> 0x5A then b + 32 else b)"

definition lower_char :: "char \<Rightarrow> char" where
  "lower_char c = char_of (lower_byte (byte c))"

text \<open>\<open>unicode.ToLower\<close>: fixed on ASCII, the case table \<open>uc\<close> beyond. \<open>strings.ToLower\<close> maps an
  ASCII string byte by byte and any other rune by rune, an invalid byte giving U+FFFD.\<close>

definition unicode_ToLower :: "(nat \<Rightarrow> nat) \<Rightarrow> nat \<Rightarrow> nat" where
  "unicode_ToLower uc r = (if r < 128 then lower_byte r else uc r)"

definition ToLower :: "(nat \<Rightarrow> nat) \<Rightarrow> string \<Rightarrow> string" where
  "ToLower uc s =
     (if ascii s then map lower_char s
      else concat (map (\<lambda>r. encode_rune (unicode_ToLower uc (case r of None \<Rightarrow> 0xFFFD | Some r \<Rightarrow> r)))
                       (runes s)))"

lemma byte_lower_char: "byte (lower_char c) = lower_byte (byte c)"
proof -
  have "byte c < 256" by (simp add: byte_def)
  then have "lower_byte (byte c) < 256" by (auto simp: lower_byte_def)
  then show ?thesis by (simp add: lower_char_def byte_def)
qed

lemma lower_char_idem [simp]: "lower_char (lower_char c) = lower_char c"
  by (simp add: lower_char_def [of "lower_char c"] byte_lower_char)
     (simp add: lower_byte_def lower_char_def)

lemma ascii_lower: "ascii s \<Longrightarrow> ascii (map lower_char s)"
  by (induction s) (auto simp: byte_lower_char lower_byte_def)

lemma ToLower_ascii: "ascii s \<Longrightarrow> ToLower uc s = map lower_char s"
  by (simp add: ToLower_def)

lemma ToLower_idem: "ascii s \<Longrightarrow> ToLower uc (ToLower uc s) = ToLower uc s"
  by (simp add: ToLower_ascii ascii_lower)

section \<open>Numbers\<close>

definition is_digit :: "char \<Rightarrow> bool" where
  "is_digit c \<longleftrightarrow> 48 \<le> byte c \<and> byte c \<le> 57"

definition digit_val :: "char \<Rightarrow> nat" where
  "digit_val c = byte c - 48"

definition digits_val :: "string \<Rightarrow> nat" where
  "digits_val s = foldl (\<lambda>n c. 10 * n + digit_val c) 0 s"

text \<open>\<open>strconv.ParseUint(s, 10, 64)\<close> and \<open>strconv.ParseInt(s, 10, 64)\<close>: \<open>None\<close> on a syntax or a
  range error.\<close>

definition ParseUint :: "string \<Rightarrow> nat option" where
  "ParseUint s =
     (if s \<noteq> [] \<and> list_all is_digit s \<and> digits_val s < 2 ^ 64 then Some (digits_val s) else None)"

definition ParseInt :: "string \<Rightarrow> int option" where
  "ParseInt s =
     (let neg = HasPrefix s ''-'';
          ds = (if neg \<or> HasPrefix s ''+'' then drop 1 s else s);
          n = (if neg then - int (digits_val ds) else int (digits_val ds))
      in if ds \<noteq> [] \<and> list_all is_digit ds \<and> in_i64 n then Some n else None)"

text \<open>The verb \<open>%d\<close>.\<close>

fun nat_digits :: "nat \<Rightarrow> string" where
  "nat_digits n =
     (if n < 10 then [char_of (48 + n)] else nat_digits (n div 10) @ [char_of (48 + n mod 10)])"

declare nat_digits.simps [simp del]

definition itoa :: "int \<Rightarrow> string" where
  "itoa i = (if i < 0 then CHR ''-'' # nat_digits (nat (- i)) else nat_digits (nat i))"

lemma digit_char: "n < 10 \<Longrightarrow> byte (char_of (48 + n)) = 48 + n"
  by (simp add: byte_def)

lemma is_digit_char: "n < 10 \<Longrightarrow> is_digit (char_of (48 + n :: nat))"
  by (simp add: is_digit_def digit_char)

lemma nat_digits_ne [simp]: "nat_digits n \<noteq> []"
  by (subst nat_digits.simps) simp

lemma nat_digits_all: "list_all is_digit (nat_digits n)"
proof (induction n rule: nat_digits.induct)
  case (1 n)
  then show ?case
    by (subst nat_digits.simps) (auto simp: is_digit_char)
qed

lemma nat_digits_length: "n < 10 ^ Suc k \<Longrightarrow> length (nat_digits n) \<le> Suc k"
proof (induction k arbitrary: n)
  case 0
  then show ?case by (simp add: nat_digits.simps [of n])
next
  case (Suc k)
  from Suc.prems have "n div 10 < 10 ^ Suc k" by (simp add: less_mult_imp_div_less)
  from Suc.IH [OF this] show ?case by (simp add: nat_digits.simps [of n])
qed

lemma digits_val_snoc: "digits_val (s @ [c]) = 10 * digits_val s + digit_val c"
  by (simp add: digits_val_def)

lemma digits_val_nat_digits [simp]: "digits_val (nat_digits n) = n"
proof (induction n rule: nat_digits.induct)
  case (1 n)
  then show ?case
    by (subst nat_digits.simps)
       (auto simp: digits_val_snoc digit_val_def digit_char digits_val_def [of "[_]"])
qed

lemma not_digit_sign: "is_digit c \<Longrightarrow> c \<noteq> CHR ''-'' \<and> c \<noteq> CHR ''+''"
  by (auto simp: is_digit_def byte_def)

text \<open>Parsing a decimal number gives back the number that was printed.\<close>

lemma ParseInt_itoa: "in_i64 i \<Longrightarrow> ParseInt (itoa i) = Some i"
proof (cases "i < 0")
  case True
  moreover assume "in_i64 i"
  ultimately show ?thesis
    by (simp add: itoa_def ParseInt_def nat_digits_all)
next
  case False
  moreover assume "in_i64 i"
  moreover have "\<not> HasPrefix (nat_digits (nat i)) ''-''" "\<not> HasPrefix (nat_digits (nat i)) ''+''"
    using nat_digits_all [of "nat i"] by (auto simp: HasPrefix_iff dest: not_digit_sign)
  ultimately show ?thesis
    by (simp add: itoa_def ParseInt_def nat_digits_all)
qed

lemma ParseUint_nat_digits: "n < 2 ^ 64 \<Longrightarrow> ParseUint (nat_digits n) = Some n"
  by (simp add: ParseUint_def nat_digits_all)

end
