(* ===== verification/Json.thy ===== *)
theory Json
  imports GoStrings
begin

text \<open>
  The part of Go's \<open>encoding/json\<close> that the sources use: \<open>json.Unmarshal\<close> into \<open>any\<close>, into
  \<open>[]any\<close> and into structs of string and \<open>int64\<close> fields, and \<open>json.Marshal\<close> of strings and
  integers. A text is cut into tokens and the tokens are read by a machine with an explicit stack
  of open arrays and objects, as Go's scanner has one; both are total functions, so no fuel is
  needed. A number keeps its literal. The nesting limit of 10000 is Go's \<open>maxNestingDepth\<close>.
\<close>

datatype json =
    JNull
  | JBool bool
  | JNum string
  | JStr string
  | JArr "json list"
  | JObj "(string \<times> json) list"

datatype token = TLBrace | TRBrace | TLBrack | TRBrack | TColon | TComma
  | TNull | TTrue | TFalse | TNum string | TStr string

section \<open>String literals\<close>

definition is_hex :: "char \<Rightarrow> bool" where
  "is_hex c \<longleftrightarrow> is_digit c \<or> (65 \<le> byte c \<and> byte c \<le> 70) \<or> (97 \<le> byte c \<and> byte c \<le> 102)"

definition hex_val :: "char \<Rightarrow> nat" where
  "hex_val c =
     (if is_digit c then byte c - 48 else if byte c \<le> 70 then byte c - 55 else byte c - 87)"

definition hex4 :: "string \<Rightarrow> nat" where
  "hex4 h = foldl (\<lambda>n c. 16 * n + hex_val c) 0 h"

text \<open>The raw content of a literal up to its closing quote, and what follows; \<open>None\<close> for a control
  byte, an unknown escape or a missing quote.\<close>

fun scan_string :: "string \<Rightarrow> (string \<times> string) option" where
  "scan_string [] = None"
| "scan_string (c # s) =
     (if c = CHR 0x22 then Some ([], s)
      else if c = CHR 0x5C then
        (case s of
           [] \<Rightarrow> None
         | e # t \<Rightarrow>
             if e \<in> set [CHR 0x22, CHR 0x5C, CHR ''/'', CHR ''b'', CHR ''f'', CHR ''n'', CHR ''r'', CHR ''t'']
             then map_option (\<lambda>(r, u). (c # e # r, u)) (scan_string t)
             else if e = CHR ''u'' then
               (case t of
                  h1 # h2 # h3 # h4 # v \<Rightarrow>
                    if list_all is_hex [h1, h2, h3, h4]
                    then map_option (\<lambda>(r, u). (c # e # h1 # h2 # h3 # h4 # r, u)) (scan_string v)
                    else None
                | _ \<Rightarrow> None)
             else None)
      else if byte c < 32 then None
      else map_option (\<lambda>(r, u). (c # r, u)) (scan_string s))"

text \<open>\<open>getu4\<close>, \<open>utf16.DecodeRune\<close> and \<open>unquoteBytes\<close>.\<close>

definition getu4 :: "string \<Rightarrow> nat option" where
  "getu4 s =
     (if 6 \<le> length s \<and> take 2 s = [CHR 0x5C, CHR ''u''] \<and> list_all is_hex (take 4 (drop 2 s))
      then Some (hex4 (take 4 (drop 2 s))) else None)"

definition surrogate_pair :: "nat \<Rightarrow> nat option \<Rightarrow> nat option" where
  "surrogate_pair hi lo =
     (case lo of
        None \<Rightarrow> None
      | Some l \<Rightarrow>
          if 0xD800 \<le> hi \<and> hi < 0xDC00 \<and> 0xDC00 \<le> l \<and> l < 0xE000
          then Some (0x10000 + (hi - 0xD800) * 1024 + (l - 0xDC00)) else None)"

definition unescape :: "char \<Rightarrow> char" where
  "unescape e =
     (if e = CHR ''b'' then CHR 0x08 else if e = CHR ''f'' then CHR 0x0C
      else if e = CHR ''n'' then CHR 0x0A else if e = CHR ''r'' then CHR 0x0D
      else if e = CHR ''t'' then CHR 0x09 else e)"

function unquote :: "string \<Rightarrow> string" where
  "unquote s =
     (case s of
        [] \<Rightarrow> []
      | c # t \<Rightarrow>
          if c = CHR 0x5C then
            (case getu4 s of
               None \<Rightarrow> (case t of [] \<Rightarrow> [] | e # u \<Rightarrow> unescape e # unquote u)
             | Some r \<Rightarrow>
                 if 0xD800 \<le> r \<and> r < 0xE000 then
                   (case surrogate_pair r (getu4 (drop 6 s)) of
                      Some p \<Rightarrow> encode_rune p @ unquote (drop 12 s)
                    | None \<Rightarrow> encode_rune 0xFFFD @ unquote (drop 6 s))
                 else encode_rune r @ unquote (drop 6 s))
          else if byte c < 128 then c # unquote t
          else encode_rune (case fst (decode_rune s) of None \<Rightarrow> 0xFFFD | Some r \<Rightarrow> r)
               @ unquote (drop (snd (decode_rune s)) s))"
  by pat_completeness auto
termination
  by (relation "measure length") (auto simp: decode_rune_width)

declare unquote.simps [simp del]

section \<open>Tokens\<close>

definition is_json_space :: "char \<Rightarrow> bool" where
  "is_json_space c \<longleftrightarrow> c \<in> set [CHR 0x20, CHR 0x09, CHR 0x0D, CHR 0x0A]"

text \<open>A number literal: the longest prefix of the form \<open>-? int frac? exp?\<close>, part by part. Each part
  comes with what follows it; \<open>None\<close> where Go's scanner stops with an error.\<close>

definition scan_sign :: "string \<Rightarrow> string \<times> string" where
  "scan_sign s = (if HasPrefix s ''-'' then (''-'', drop 1 s) else ('''', s))"

definition scan_int :: "string \<Rightarrow> (string \<times> string) option" where
  "scan_int s =
     (if HasPrefix s ''0'' then Some (''0'', drop 1 s)
      else if takeWhile is_digit s = [] then None
      else Some (takeWhile is_digit s, dropWhile is_digit s))"

definition scan_frac :: "string \<Rightarrow> (string \<times> string) option" where
  "scan_frac s =
     (if HasPrefix s ''.'' then
        (if takeWhile is_digit (drop 1 s) = [] then None
         else Some (CHR ''.'' # takeWhile is_digit (drop 1 s), dropWhile is_digit (drop 1 s)))
      else Some ('''', s))"

definition scan_exp :: "string \<Rightarrow> (string \<times> string) option" where
  "scan_exp s =
     (if HasPrefix s ''e'' \<or> HasPrefix s ''E'' then
        (let n = (if HasPrefix (drop 1 s) ''+'' \<or> HasPrefix (drop 1 s) ''-'' then 2 else 1);
             t = drop n s
         in if takeWhile is_digit t = [] then None
            else Some (take n s @ takeWhile is_digit t, dropWhile is_digit t))
      else Some ('''', s))"

definition scan_number :: "string \<Rightarrow> (string \<times> string) option" where
  "scan_number s =
     (let (sg, s1) = scan_sign s in
      case scan_int s1 of
        None \<Rightarrow> None
      | Some (ip, s2) \<Rightarrow>
          (case scan_frac s2 of
             None \<Rightarrow> None
           | Some (fr, s3) \<Rightarrow>
               map_option (\<lambda>(ex, s4). (sg @ ip @ fr @ ex, s4)) (scan_exp s3)))"

text \<open>One token, after white space has been skipped.\<close>

definition punctuation :: "char \<Rightarrow> token option" where
  "punctuation c =
     map_of [(CHR 0x7B, TLBrace), (CHR 0x7D, TRBrace), (CHR 0x5B, TLBrack), (CHR 0x5D, TRBrack),
             (CHR '':'', TColon), (CHR '','', TComma)] c"

definition scan_literal :: "string \<Rightarrow> (token \<times> string) option" where
  "scan_literal s =
     (if HasPrefix s ''null'' then Some (TNull, drop 4 s)
      else if HasPrefix s ''true'' then Some (TTrue, drop 4 s)
      else if HasPrefix s ''false'' then Some (TFalse, drop 5 s)
      else None)"

definition next_token :: "string \<Rightarrow> (token \<times> string) option" where
  "next_token s =
     (case s of
        [] \<Rightarrow> None
      | c # t \<Rightarrow>
          (case punctuation c of
             Some tok \<Rightarrow> Some (tok, t)
           | None \<Rightarrow>
               if c = CHR 0x22 then map_option (\<lambda>(r, u). (TStr (unquote r), u)) (scan_string t)
               else if c = CHR ''-'' \<or> is_digit c
               then map_option (\<lambda>(n, u). (TNum n, u)) (scan_number s)
               else scan_literal s))"

lemma scan_string_shorter: "scan_string s = Some (r, u) \<Longrightarrow> length u < length s"
proof (induction s arbitrary: r u rule: scan_string.induct)
  case (2 c s)
  then show ?case by (fastforce split: if_splits list.splits)
qed simp

lemma HasPrefix_single: "HasPrefix s [c] \<longleftrightarrow> (\<exists>t. s = c # t)"
  by (cases s) auto

lemma scan_sign_append: "scan_sign s = (p, u) \<Longrightarrow> s = p @ u"
  by (auto simp: scan_sign_def HasPrefix_single split: if_splits)

lemma scan_int_append: "scan_int s = Some (p, u) \<Longrightarrow> s = p @ u \<and> p \<noteq> []"
  by (auto simp: scan_int_def HasPrefix_single split: if_splits)

lemma scan_frac_append: "scan_frac s = Some (p, u) \<Longrightarrow> s = p @ u"
  by (auto simp: scan_frac_def HasPrefix_single split: if_splits)

lemma scan_exp_append: "scan_exp s = Some (p, u) \<Longrightarrow> s = p @ u"
  by (auto simp: scan_exp_def Let_def split: if_splits)

text \<open>A number literal is a non-empty prefix of the text.\<close>

lemma scan_number_append: "scan_number s = Some (n, u) \<Longrightarrow> s = n @ u \<and> n \<noteq> []"
  by (auto simp: scan_number_def split: prod.splits option.splits
      dest!: scan_sign_append scan_int_append scan_frac_append scan_exp_append)

lemma scan_number_shorter: "scan_number s = Some (n, u) \<Longrightarrow> length u < length s"
  using scan_number_append [of s n u] by auto

lemma next_token_shorter: "next_token s = Some (t, u) \<Longrightarrow> length u < length s"
proof -
  assume *: "next_token s = Some (t, u)"
  then obtain c r where s: "s = c # r" by (cases s) (auto simp: next_token_def)
  have lit: "scan_literal s = Some (t, u) \<Longrightarrow> length u < length s"
    using s by (auto simp: scan_literal_def simp del: HasPrefix.simps split: if_split_asm)
  from * s show ?thesis
    using lit scan_string_shorter [of r _ u] scan_number_shorter [of s _ u]
    by (auto simp: next_token_def simp del: scan_string.simps split: option.splits if_split_asm)
qed

function tokens :: "string \<Rightarrow> token list option" where
  "tokens s =
     (let t = dropWhile is_json_space s in
      if t = [] then Some []
      else (case next_token t of
              None \<Rightarrow> None
            | Some (tok, u) \<Rightarrow> map_option (\<lambda>ts. tok # ts) (tokens u)))"
  by pat_completeness auto
termination
proof (relation "measure length")
  fix s t tu tok u
  assume "t = dropWhile is_json_space s" "next_token t = Some tu" "(tok, u) = tu"
  then have "length u < length (dropWhile is_json_space s)"
    using next_token_shorter by metis
  also have "\<dots> \<le> length s" by (rule length_dropWhile_le)
  finally show "(u, s) \<in> measure length" by simp
qed simp

declare tokens.simps [simp del]

section \<open>Values\<close>

text \<open>
  The reader. An open array keeps its elements, an open object its members and the key whose value
  is being read, last first. \<open>Have v\<close> is the state after a complete value.
\<close>

datatype frame = FArr "json list" | FObj "(string \<times> json) list" string

datatype rstate = WantValue | WantValueOrEnd | WantKey "(string \<times> json) list"
  | WantKeyOrEnd | WantColon "(string \<times> json) list" string | Have json

definition max_nesting :: nat where "max_nesting = 10000"

fun value_token :: "frame list \<Rightarrow> token \<Rightarrow> (frame list \<times> rstate) option" where
  "value_token fs TNull = Some (fs, Have JNull)"
| "value_token fs TTrue = Some (fs, Have (JBool True))"
| "value_token fs TFalse = Some (fs, Have (JBool False))"
| "value_token fs (TNum n) = Some (fs, Have (JNum n))"
| "value_token fs (TStr s) = Some (fs, Have (JStr s))"
| "value_token fs TLBrack = Some (FArr [] # fs, WantValueOrEnd)"
| "value_token fs TLBrace = Some (fs, WantKeyOrEnd)"
| "value_token fs _ = None"

fun read_token :: "frame list \<Rightarrow> rstate \<Rightarrow> token \<Rightarrow> (frame list \<times> rstate) option" where
  "read_token fs WantValue t = value_token fs t"
| "read_token (FArr [] # fs) WantValueOrEnd TRBrack = Some (fs, Have (JArr []))"
| "read_token fs WantValueOrEnd t = value_token fs t"
| "read_token fs WantKeyOrEnd TRBrace = Some (fs, Have (JObj []))"
| "read_token fs WantKeyOrEnd (TStr k) = Some (fs, WantColon [] k)"
| "read_token fs (WantKey ms) (TStr k) = Some (fs, WantColon ms k)"
| "read_token fs (WantColon ms k) TColon = Some (FObj ms k # fs, WantValue)"
| "read_token (FArr vs # fs) (Have v) TComma = Some (FArr (v # vs) # fs, WantValue)"
| "read_token (FArr vs # fs) (Have v) TRBrack = Some (fs, Have (JArr (rev (v # vs))))"
| "read_token (FObj ms k # fs) (Have v) TComma = Some (fs, WantKey ((k, v) # ms))"
| "read_token (FObj ms k # fs) (Have v) TRBrace = Some (fs, Have (JObj (rev ((k, v) # ms))))"
| "read_token fs st t = None"

text \<open>Number of open arrays and objects: an object whose key is being read is open too.\<close>

definition depth :: "frame list \<Rightarrow> rstate \<Rightarrow> nat" where
  "depth fs st =
     length fs + (case st of WantKey _ \<Rightarrow> 1 | WantKeyOrEnd \<Rightarrow> 1 | WantColon _ _ \<Rightarrow> 1 | _ \<Rightarrow> 0)"

fun read_tokens :: "frame list \<Rightarrow> rstate \<Rightarrow> token list \<Rightarrow> json option" where
  "read_tokens [] (Have v) [] = Some v"
| "read_tokens fs st [] = None"
| "read_tokens fs st (t # ts) =
     (case read_token fs st t of
        None \<Rightarrow> None
      | Some (fs', st') \<Rightarrow> if max_nesting < depth fs' st' then None else read_tokens fs' st' ts)"

definition json_parse :: "string \<Rightarrow> json option" where
  "json_parse s = (case tokens s of None \<Rightarrow> None | Some ts \<Rightarrow> read_tokens [] WantValue ts)"

section \<open>Unmarshalling into Go values\<close>

text \<open>
  Into \<open>any\<close> a number becomes a \<open>float64\<close>; \<open>strconv.ParseFloat\<close> fails when the magnitude rounds
  to \<open>2 ^ 1024\<close> or more. \<open>num_parts\<close> reads the decimal digits and the exponent of a literal.
\<close>

definition num_parts :: "string \<Rightarrow> nat \<times> int" where
  "num_parts lit =
     (let body = filter (\<lambda>c. c \<noteq> CHR ''-'') (takeWhile (\<lambda>c. c \<noteq> CHR ''e'' \<and> c \<noteq> CHR ''E'') lit);
          ex = drop 1 (dropWhile (\<lambda>c. c \<noteq> CHR ''e'' \<and> c \<noteq> CHR ''E'') lit);
          frac = drop 1 (dropWhile (\<lambda>c. c \<noteq> CHR ''.'') body);
          e = (if ex = [] then 0
               else if HasPrefix ex ''-'' then - int (digits_val (drop 1 ex))
               else if HasPrefix ex ''+'' then int (digits_val (drop 1 ex))
               else int (digits_val ex))
      in (digits_val (filter is_digit body), e - int (length frac)))"

definition float64_ok :: "string \<Rightarrow> bool" where
  "float64_ok lit =
     (let (d, e) = num_parts lit; m = 2 ^ 1024 - 2 ^ 970 in
      if 0 \<le> e then int d * 10 ^ nat e < m else int d < m * 10 ^ nat (- e))"

fun floats_ok :: "json \<Rightarrow> bool" where
  "floats_ok (JNum n) = float64_ok n"
| "floats_ok (JArr vs) = list_all floats_ok vs"
| "floats_ok (JObj ms) = list_all (\<lambda>(k, v). floats_ok v) ms"
| "floats_ok _ = True"

definition unmarshal_any :: "string \<Rightarrow> json option" where
  "unmarshal_any s =
     (case json_parse s of Some v \<Rightarrow> if floats_ok v then Some v else None | None \<Rightarrow> None)"

text \<open>\<open>var arr []any\<close>: an array, or \<open>null\<close> which leaves the slice nil.\<close>

definition unmarshal_array :: "string \<Rightarrow> json list option" where
  "unmarshal_array s =
     (case unmarshal_any s of Some (JArr vs) \<Rightarrow> Some vs | Some JNull \<Rightarrow> Some [] | _ \<Rightarrow> None)"

text \<open>\<open>var m map[string]any\<close>: an object, a later member replacing an earlier one of the same name;
  \<open>null\<close> leaves the map nil.\<close>

definition members :: "(string \<times> json) list \<Rightarrow> (string, json) fmap" where
  "members ms = fmap_of_list (rev ms)"

definition unmarshal_map :: "string \<Rightarrow> (string, json) fmap option" where
  "unmarshal_map s =
     (case unmarshal_any s of
        Some (JObj ms) \<Rightarrow> Some (members ms)
      | Some JNull \<Rightarrow> Some fmempty
      | _ \<Rightarrow> None)"

text \<open>
  Into a struct: a member goes to the field whose name is the key, or equals it after case folding
  (the only runes beyond ASCII that fold to ASCII are U+017F and U+212A); \<open>null\<close> leaves the field,
  a value of another type is an error; members with no field are skipped.
\<close>

definition fold_rune :: "nat option \<Rightarrow> nat" where
  "fold_rune r =
     (case r of
        None \<Rightarrow> 0xFFFD
      | Some c \<Rightarrow> if 97 \<le> c \<and> c \<le> 122 then c - 32 else if c = 0x17F then 83
                  else if c = 0x212A then 75 else c)"

definition key_matches :: "string \<Rightarrow> string \<Rightarrow> bool" where
  "key_matches name k \<longleftrightarrow> map fold_rune (runes k) = map fold_rune (runes name)"

definition field_values :: "string \<Rightarrow> (string \<times> json) list \<Rightarrow> json list" where
  "field_values name ms = map snd (filter (\<lambda>(k, v). key_matches name k) ms)"

fun string_field :: "string \<Rightarrow> json list \<Rightarrow> string option" where
  "string_field cur [] = Some cur"
| "string_field cur (JStr s # vs) = string_field s vs"
| "string_field cur (JNull # vs) = string_field cur vs"
| "string_field cur (_ # vs) = None"

fun int64_field :: "int \<Rightarrow> json list \<Rightarrow> int option" where
  "int64_field cur [] = Some cur"
| "int64_field cur (JNum n # vs) =
     (case ParseInt n of None \<Rightarrow> None | Some i \<Rightarrow> int64_field i vs)"
| "int64_field cur (JNull # vs) = int64_field cur vs"
| "int64_field cur (_ # vs) = None"

text \<open>The members a struct is filled from: none for \<open>null\<close>, an error for any other value that is
  not an object.\<close>

definition struct_members :: "string \<Rightarrow> (string \<times> json) list option" where
  "struct_members s =
     (case json_parse s of Some (JObj ms) \<Rightarrow> Some ms | Some JNull \<Rightarrow> Some [] | _ \<Rightarrow> None)"

section \<open>Marshalling\<close>

definition hex_digit :: "nat \<Rightarrow> char" where
  "hex_digit n = char_of (if n < 10 then 48 + n else 87 + n)"

definition json_safe :: "char \<Rightarrow> bool" where
  "json_safe c \<longleftrightarrow>
     32 \<le> byte c \<and> byte c < 128 \<and> c \<notin> set [CHR 0x22, CHR 0x5C, CHR ''<'', CHR ''>'', CHR ''&'']"

definition escape_char :: "char \<Rightarrow> string" where
  "escape_char c =
     (if json_safe c then [c]
      else if c = CHR 0x22 \<or> c = CHR 0x5C then [CHR 0x5C, c]
      else if c = CHR 0x08 then [CHR 0x5C, CHR ''b''] else if c = CHR 0x0C then [CHR 0x5C, CHR ''f'']
      else if c = CHR 0x0A then [CHR 0x5C, CHR ''n''] else if c = CHR 0x0D then [CHR 0x5C, CHR ''r'']
      else if c = CHR 0x09 then [CHR 0x5C, CHR ''t'']
      else [CHR 0x5C, CHR ''u'', CHR ''0'', CHR ''0'', hex_digit (byte c div 16), hex_digit (byte c mod 16)])"

function escape_string :: "string \<Rightarrow> string" where
  "escape_string s =
     (case s of
        [] \<Rightarrow> []
      | c # t \<Rightarrow>
          if byte c < 128 then escape_char c @ escape_string t
          else
            (case decode_rune s of
               (None, w) \<Rightarrow> CHR 0x5C # ''ufffd'' @ escape_string (drop (snd (decode_rune s)) s)
             | (Some r, w) \<Rightarrow>
                 (if r = 0x2028 then CHR 0x5C # ''u2028'' else if r = 0x2029 then CHR 0x5C # ''u2029''
                  else take (snd (decode_rune s)) s)
                 @ escape_string (drop (snd (decode_rune s)) s)))"
  by pat_completeness auto
termination
  by (relation "measure length") (auto simp: decode_rune_width)

declare escape_string.simps [simp del]

definition json_quote :: "string \<Rightarrow> string" where
  "json_quote s = CHR 0x22 # escape_string s @ [CHR 0x22]"

section \<open>Strings that need no escape\<close>

lemma json_safe_ascii: "json_safe c \<Longrightarrow> byte c < 128"
  by (simp add: json_safe_def)

lemma escape_string_safe: "list_all json_safe s \<Longrightarrow> escape_string s = s"
proof (induction s)
  case (Cons c s)
  then show ?case
    by (subst escape_string.simps) (simp add: json_safe_ascii escape_char_def)
qed (simp add: escape_string.simps)

lemma unquote_safe: "list_all json_safe s \<Longrightarrow> unquote s = s"
proof (induction s)
  case (Cons c s)
  then show ?case
    by (subst unquote.simps) (auto simp: json_safe_def)
qed (simp add: unquote.simps)

lemma scan_string_safe:
  "list_all json_safe s \<Longrightarrow> scan_string (s @ CHR 0x22 # rest) = Some (s, rest)"
  by (induction s) (auto simp: json_safe_def)

lemma next_token_string:
  "list_all json_safe s \<Longrightarrow>
     next_token (CHR 0x22 # s @ CHR 0x22 # rest) = Some (TStr s, rest)"
  by (simp add: next_token_def punctuation_def scan_string_safe unquote_safe)

lemma tokens_Cons:
  assumes "next_token s = Some (tok, u)" and "s \<noteq> []" and "\<not> is_json_space (hd s)"
  shows "tokens s = map_option (\<lambda>ts. tok # ts) (tokens u)"
proof -
  have "dropWhile is_json_space s = s" using assms(2,3) by (cases s) auto
  then show ?thesis using assms(1,2) by (subst tokens.simps) simp
qed

lemma tokens_string:
  "list_all json_safe s \<Longrightarrow>
     tokens (CHR 0x22 # s @ CHR 0x22 # rest) = map_option (\<lambda>ts. TStr s # ts) (tokens rest)"
  by (rule tokens_Cons) (simp_all add: next_token_string is_json_space_def)

lemma tokens_punctuation:
  "punctuation c = Some tok \<Longrightarrow> tokens (c # rest) = map_option (\<lambda>ts. tok # ts) (tokens rest)"
  by (rule tokens_Cons)
     (auto simp: next_token_def punctuation_def is_json_space_def split: if_splits)

text \<open>A printed integer is read back as one number token, whatever delimiter follows.\<close>

definition number_end :: "string \<Rightarrow> bool" where
  "number_end rest \<longleftrightarrow>
     rest = [] \<or> \<not> is_digit (hd rest) \<and> hd rest \<notin> set [CHR ''.'', CHR ''e'', CHR ''E'']"

lemma nat_digits_zero: "HasPrefix (nat_digits n @ rest) ''0'' \<Longrightarrow> n = 0"
proof -
  have "hd (nat_digits n) = CHR ''0'' \<Longrightarrow> n = 0"
  proof (induction n rule: nat_digits.induct)
    case (1 n)
    show ?case
    proof (cases "n < 10")
      case True
      then have "byte (hd (nat_digits n)) = 48 + n"
        by (subst nat_digits.simps) (simp add: digit_char)
      with 1 show ?thesis by (simp add: byte_def)
    next
      case False
      then have "hd (nat_digits n) = hd (nat_digits (n div 10))"
        by (subst nat_digits.simps) simp
      with 1 False have "n div 10 = 0" by simp
      with False show ?thesis by simp
    qed
  qed
  then show "HasPrefix (nat_digits n @ rest) ''0'' \<Longrightarrow> n = 0"
    by (cases "nat_digits n") auto
qed

lemma scan_int_nat_digits:
  assumes "number_end rest"
  shows "scan_int (nat_digits n @ rest) = Some (nat_digits n, rest)"
proof (cases "n = 0")
  case True
  moreover have "nat_digits 0 = ''0''" by code_simp
  ultimately show ?thesis by (simp add: scan_int_def)
next
  case False
  have d: "\<forall>c \<in> set (nat_digits n). is_digit c" using nat_digits_all by (simp add: list_all_iff)
  have "takeWhile is_digit (nat_digits n @ rest) = nat_digits n"
    "dropWhile is_digit (nat_digits n @ rest) = rest"
    using d assms by (cases rest; simp add: number_end_def)+
  with False nat_digits_zero show ?thesis by (auto simp: scan_int_def)
qed

lemma scan_tail_end: "number_end rest \<Longrightarrow> scan_frac rest = Some ('''', rest)"
  "number_end rest \<Longrightarrow> scan_exp rest = Some ('''', rest)"
  by (cases rest; auto simp: scan_frac_def scan_exp_def number_end_def)+

lemma next_token_itoa:
  assumes "number_end rest" and "0 \<le> i"
  shows "next_token (itoa i @ rest) = Some (TNum (itoa i), rest)"
proof -
  let ?n = "nat_digits (nat i)"
  have i: "itoa i = ?n" using assms(2) by (simp add: itoa_def)
  obtain c r where c: "?n = c # r" by (cases ?n) auto
  then have dc: "is_digit c" using nat_digits_all [of "nat i"] by simp
  then have "punctuation c = None" "c \<noteq> CHR 0x22" "c \<noteq> CHR ''-''"
    by (auto simp: punctuation_def is_digit_def byte_def)
  moreover have "scan_number (?n @ rest) = Some (?n, rest)"
    using \<open>c \<noteq> CHR ''-''\<close> assms(1) c scan_int_nat_digits [of rest "nat i"]
    by (simp add: scan_number_def scan_sign_def scan_tail_end)
  ultimately show ?thesis using c dc i by (simp add: next_token_def)
qed

lemma tokens_itoa:
  assumes "number_end rest" and "0 \<le> i"
  shows "tokens (itoa i @ rest) = map_option (\<lambda>ts. TNum (itoa i) # ts) (tokens rest)"
proof (rule tokens_Cons [OF next_token_itoa [OF assms]])
  show "itoa i @ rest \<noteq> []" by (simp add: itoa_def)
  have "is_digit (hd (itoa i))"
    using assms(2) nat_digits_all [of "nat i"]
    by (cases "nat_digits (nat i)") (auto simp: itoa_def)
  moreover have "hd (itoa i @ rest) = hd (itoa i)" by (simp add: itoa_def)
  ultimately show "\<not> is_json_space (hd (itoa i @ rest))"
    by (auto simp: is_json_space_def is_digit_def byte_def)
qed

end
