(* ===== verification/GroupsParser.thy ===== *)
theory GroupsParser
  imports Json
begin

text \<open>
  \<open>internal/callback/groupsparser.go\<close>: the group names in a claim value. The claim is the value
  \<open>encoding/json\<close> gives for \<open>any\<close>; a nil slice and an empty one are the empty list.
\<close>

fun groupsFromArray :: "json list \<Rightarrow> string list" where
  "groupsFromArray [] = []"
| "groupsFromArray (JStr s # items) =
     (let trimmed = TrimSpace s in
      if trimmed = '''' then groupsFromArray items else trimmed # groupsFromArray items)"
| "groupsFromArray (_ # items) = groupsFromArray items"

definition looksLikeJSONArray :: "string \<Rightarrow> bool" where
  "looksLikeJSONArray s \<longleftrightarrow> 2 \<le> length s \<and> s ! 0 = CHR ''['' \<and> s ! (length s - 1) = CHR '']''"

fun trimmed_parts :: "string list \<Rightarrow> string list" where
  "trimmed_parts [] = []"
| "trimmed_parts (p # ps) =
     (let trimmed = TrimSpace p in if trimmed = '''' then trimmed_parts ps else trimmed # trimmed_parts ps)"

definition groupsFromCSV :: "string \<Rightarrow> string list" where
  "groupsFromCSV s = trimmed_parts (Split s (CHR '',''))"

definition groupsFromBracketedCSV :: "string \<Rightarrow> string list" where
  "groupsFromBracketedCSV s =
     (if \<not> looksLikeJSONArray s then []
      else let inner = drop 1 (take (length s - 1) s) in
           if \<not> Contains inner '','' then [] else groupsFromCSV inner)"

definition parseStringGroupsClaim :: "string \<Rightarrow> string list" where
  "parseStringGroupsClaim raw =
     (let s = TrimSpace raw in
      if s = '''' then []
      else if looksLikeJSONArray s then
        (case unmarshal_array s of
           Some arr \<Rightarrow> groupsFromArray arr
         | None \<Rightarrow> groupsFromBracketedCSV s)
      else if Contains s '','' then groupsFromCSV s
      else [s])"

fun parseGroupsClaim :: "json \<Rightarrow> string list" where
  "parseGroupsClaim (JArr v) = groupsFromArray v"
| "parseGroupsClaim (JStr v) = parseStringGroupsClaim v"
| "parseGroupsClaim _ = []"

section \<open>What the parser returns\<close>

lemma groupsFromArray_set:
  "set (groupsFromArray items) = {g. g \<noteq> '''' \<and> (\<exists>s. JStr s \<in> set items \<and> g = TrimSpace s)}"
  by (induction items rule: groupsFromArray.induct) (auto simp: Let_def)

lemma trimmed_parts_set: "set (trimmed_parts ps) = {g. g \<noteq> '''' \<and> (\<exists>p \<in> set ps. g = TrimSpace p)}"
  by (induction ps) (auto simp: Let_def)

lemma groupsFromCSV_set:
  "set (groupsFromCSV s) = {g. g \<noteq> '''' \<and> (\<exists>p \<in> set (Split s (CHR '','')). g = TrimSpace p)}"
  by (simp add: groupsFromCSV_def trimmed_parts_set)

text \<open>A clean group name: not empty, and without surrounding white space.\<close>

definition clean :: "string \<Rightarrow> bool" where
  "clean g \<longleftrightarrow> g \<noteq> '''' \<and> TrimSpace g = g"

lemma clean_array: "list_all clean (groupsFromArray items)"
  by (auto simp: list_all_iff groupsFromArray_set clean_def)

lemma clean_csv: "list_all clean (groupsFromCSV s)"
  by (auto simp: list_all_iff groupsFromCSV_set clean_def)

lemma clean_string: "list_all clean (parseStringGroupsClaim raw)"
  by (auto simp: parseStringGroupsClaim_def groupsFromBracketedCSV_def Let_def clean_array clean_csv clean_def
      split: option.splits)

text \<open>
  Whatever the identity provider puts into the groups claim, every group the parser returns
  is non-empty and has no surrounding white space, so an exact comparison with the required group
  cannot be met by padding, and an empty element never counts as a group; and a claim that is
  neither an array nor a string (null, a boolean, a number, an object) names no group.
\<close>

theorem groups_are_clean:
  "list_all clean (parseGroupsClaim v) \<and>
   (case v of JArr items \<Rightarrow> set (parseGroupsClaim v) = {g. g \<noteq> '''' \<and> (\<exists>s. JStr s \<in> set items \<and> g = TrimSpace s)}
            | JStr s \<Rightarrow> True
            | _ \<Rightarrow> parseGroupsClaim v = [])"
  by (cases v) (simp_all add: clean_array clean_string groupsFromArray_set)

text \<open>A plain list of group names: printable ASCII without commas, brackets or quotes, and
  without white space at the ends.\<close>

definition plain_group :: "string \<Rightarrow> bool" where
  "plain_group g \<longleftrightarrow> g \<noteq> '''' \<and> list_all plain_char g \<and> CHR '','' \<notin> set g \<and> CHR ''['' \<notin> set g"

lemma trimmed_parts_clean: "list_all clean gs \<Longrightarrow> trimmed_parts gs = gs"
  by (induction gs) (auto simp: clean_def)

lemma plain_group_clean: "plain_group g \<Longrightarrow> clean g"
  by (auto simp: plain_group_def clean_def list_all_iff intro!: TrimSpace_all_plain)

lemma join_plain:
  assumes "gs \<noteq> []" and "list_all plain_group gs"
  shows "list_all plain_char (join '','' gs) \<and> join '','' gs \<noteq> [] \<and> CHR ''['' \<notin> set (join '','' gs)"
  using assms
proof (induction gs rule: induct_list012)
  case (3 x y zs)
  have "plain_char (CHR '','')" by (simp add: plain_char_def ascii_spaces_def)
  with 3 show ?case by (auto simp: plain_group_def)
qed (simp_all add: plain_group_def)

lemma csv_join: "gs \<noteq> [] \<Longrightarrow> list_all plain_group gs \<Longrightarrow> groupsFromCSV (join '','' gs) = gs"
proof -
  assume gs: "gs \<noteq> []" "list_all plain_group gs"
  then have "Split (join [CHR '',''] gs) (CHR '','') = gs"
    by (intro Split_join) (auto simp: plain_group_def list_all_iff)
  moreover have "list_all clean gs" using gs(2) by (auto simp: list_all_iff plain_group_clean)
  ultimately show ?thesis by (simp add: groupsFromCSV_def trimmed_parts_clean)
qed

lemma array_join: "list_all clean gs \<Longrightarrow> groupsFromArray (map JStr gs) = gs"
  by (induction gs) (auto simp: clean_def)

text \<open>
  The three shapes in which an identity provider sends group names agree. A list of plain
  names is read back unchanged from a JSON array of strings, from a comma-separated string, and,
  for two names or more, from the bracketed compatibility form (as long as that text does not
  happen to be a JSON array itself, as for names that are numbers).
\<close>

theorem group_shapes_agree:
  assumes "gs \<noteq> []" and "list_all plain_group gs"
    and "unmarshal_array (''['' @ join '','' gs @ '']'') = None" and "2 \<le> length gs"
  shows "parseGroupsClaim (JArr (map JStr gs)) = gs \<and> parseGroupsClaim (JStr (join '','' gs)) = gs \<and>
    parseGroupsClaim (JStr (''['' @ join '','' gs @ '']'')) = gs"
proof -
  let ?j = "join '','' gs"
  have "list_all clean gs" using assms(2) by (auto simp: list_all_iff plain_group_clean)
  then have a: "parseGroupsClaim (JArr (map JStr gs)) = gs" by (simp add: array_join)
  have j: "list_all plain_char ?j" "?j \<noteq> []" "CHR ''['' \<notin> set ?j" using join_plain [OF assms(1,2)] by auto
  have c: "Contains ?j '',''" using Contains_join [OF assms(4)] .
  have "TrimSpace ?j = ?j" using j(1) by (intro TrimSpace_all_plain) (simp add: list_all_iff)
  moreover have "?j ! 0 \<noteq> CHR ''[''" using j(2,3) by (metis length_greater_0_conv nth_mem)
  ultimately have b: "parseGroupsClaim (JStr ?j) = gs"
    using j(2) c csv_join [OF assms(1,2)] by (simp add: parseStringGroupsClaim_def looksLikeJSONArray_def)
  let ?b = "''['' @ ?j @ '']''"
  have "plain_char (CHR '']'')" "plain_char (CHR ''['')" by (simp_all add: plain_char_def ascii_spaces_def)
  then have "TrimSpace ?b = ?b" by (intro TrimSpace_plain) simp
  moreover have "looksLikeJSONArray ?b" using j(2) by (simp add: looksLikeJSONArray_def nth_append)
  moreover have "drop 1 (take (length ?b - 1) ?b) = ?j" by simp
  ultimately have "parseGroupsClaim (JStr ?b) = gs"
    using assms(3) c csv_join [OF assms(1,2)]
    by (simp add: parseStringGroupsClaim_def groupsFromBracketedCSV_def Let_def)
  with a b show ?thesis by blast
qed

theorem group_shapes_agree_witness:
  "parseGroupsClaim (JStr ''[vpn-users,admins]'') = [''vpn-users'', ''admins'']"
proof -
  have "list_all plain_group [''vpn-users'', ''admins'']"
    "unmarshal_array (''['' @ join '','' [''vpn-users'', ''admins''] @ '']'') = None" by code_simp+
  from group_shapes_agree [OF _ this] show ?thesis by simp
qed

end
