(* ===== verification/Mgmt.thy ===== *)
theory Mgmt
  imports GoStrings
begin

text \<open>
  Package \<open>internal/mgmt\<close>: the events OpenVPN reports on the management socket
  (\<open>events.go\<close>), the commands sent to it (\<open>commands.go\<close>) and the reader of an event block
  (\<open>parser.go\<close>). A \<open>bufio.Scanner\<close> is the list of lines still to come, together with the error
  \<open>scanner.Err()\<close> reports once they are used up. Error values keep the constant part of the Go
  message.
\<close>

section \<open>Events\<close>

datatype event_type = EventConnect | EventReauth | EventDisconnect | EventEstablished
  | EventIgnored | EventUnknown

record event =
  ev_type :: event_type
  ev_cid :: string
  ev_kid :: string
  ev_env :: "(string, string) fmap"

record established_session =
  es_cid :: string
  es_cn :: string
  es_connectedAt :: gotime

record status_client =
  sc_cid :: string
  sc_cn :: string
  sc_realAddress :: string
  sc_virtualAddress :: string
  sc_connectedAt :: gotime
  sc_established :: bool
  sc_routingConfirmed :: bool

record status_snapshot =
  ss_clients :: "status_client list"
  ss_established :: "established_session list"

definition ClientByCID :: "status_snapshot \<Rightarrow> string \<Rightarrow> status_client option" where
  "ClientByCID s cid = find (\<lambda>c. sc_cid c = cid) (ss_clients s)"

definition CommonName :: "event \<Rightarrow> string" where
  "CommonName e = getz (ev_env e) ''common_name''"

definition Username :: "event \<Rightarrow> string" where
  "Username e = getz (ev_env e) ''username''"

lemma ClientByCID_None: "ClientByCID s cid = None \<longleftrightarrow> cid \<notin> sc_cid ` set (ss_clients s)"
  by (auto simp: ClientByCID_def find_None_iff)

lemma ClientByCID_Some: "ClientByCID s cid = Some c \<Longrightarrow> c \<in> set (ss_clients s) \<and> sc_cid c = cid"
  by (auto simp: ClientByCID_def find_Some_iff)

section \<open>Commands\<close>

definition ClientPendingAuth :: "string \<Rightarrow> string \<Rightarrow> string \<Rightarrow> int \<Rightarrow> string" where
  "ClientPendingAuth cid kid url timeout =
     ''client-pending-auth '' @ cid @ '' '' @ kid @ '' '' @ [CHR 0x22] @ ''WEB_AUTH::'' @ url
     @ [CHR 0x22] @ '' '' @ itoa timeout"

definition ClientAuth :: "string \<Rightarrow> string \<Rightarrow> string" where
  "ClientAuth cid kid = ''client-auth '' @ cid @ '' '' @ kid @ [CHR 0x0A] @ ''END''"

definition ClientAuthNT :: "string \<Rightarrow> string \<Rightarrow> string" where
  "ClientAuthNT cid kid = ''client-auth-nt '' @ cid @ '' '' @ kid"

text \<open>The replacer of \<open>ClientDeny\<close>: a backslash is doubled, a double quote becomes a single one.\<close>

definition escape_reason :: "string \<Rightarrow> string" where
  "escape_reason r =
     concat (map (\<lambda>c. if c = CHR 0x5C then [CHR 0x5C, CHR 0x5C]
                      else if c = CHR 0x22 then [CHR 0x27] else [c]) r)"

definition ClientDeny :: "string \<Rightarrow> string \<Rightarrow> string \<Rightarrow> string" where
  "ClientDeny cid kid reason =
     (let r = (if reason = '''' then ''denied'' else reason) in
      ''client-deny '' @ cid @ '' '' @ kid @ '' '' @ [CHR 0x22] @ escape_reason r @ [CHR 0x22])"

definition ClientKill :: "string \<Rightarrow> string \<Rightarrow> string" where
  "ClientKill cid mode =
     (if mode = '''' then ''client-kill '' @ cid else ''client-kill '' @ cid @ '' '' @ mode)"

text \<open>
  How the management interface reads a quoted argument: up to the closing quote, a backslash
  taking the next byte as it is. It is the abstract specification of the argument that
  \<open>ClientDeny\<close> sends.
\<close>

fun read_quoted :: "string \<Rightarrow> (string \<times> string) option" where
  "read_quoted [] = None"
| "read_quoted (c # s) =
     (if c = CHR 0x22 then Some ([], s)
      else if c = CHR 0x5C then
        (case s of [] \<Rightarrow> None | e # t \<Rightarrow> map_option (\<lambda>(a, u). (e # a, u)) (read_quoted t))
      else map_option (\<lambda>(a, u). (c # a, u)) (read_quoted s))"

definition requote :: "string \<Rightarrow> string" where
  "requote r = map (\<lambda>c. if c = CHR 0x22 then CHR 0x27 else c) r"

lemma read_quoted_escape:
  "read_quoted (escape_reason r @ CHR 0x22 # rest) = Some (requote r, rest)"
  by (induction r) (auto simp: escape_reason_def requote_def)

lemma newline_escape: "CHR 0x0A \<in> set (escape_reason r) \<longleftrightarrow> CHR 0x0A \<in> set r"
  by (auto simp: escape_reason_def)

text \<open>
  Whatever the reason of a denial holds (quotes, backslashes), the command that
  \<open>ClientDeny\<close> builds is read back by the management interface as the client id, the key id and
  exactly one quoted argument that ends with the line: the reason, or \<open>denied\<close> when it is empty,
  with its double quotes turned into single ones. No reason can add an argument, and only a reason
  that holds a line break puts one into the command.
\<close>

theorem client_deny_argument:
  "\<exists>q. ClientDeny cid kid reason = ''client-deny '' @ cid @ '' '' @ kid @ '' '' @ CHR 0x22 # q \<and>
       read_quoted q = Some (requote (if reason = '''' then ''denied'' else reason), []) \<and>
       (CHR 0x0A \<in> set q \<longleftrightarrow> CHR 0x0A \<in> set reason)"
  by (auto simp: ClientDeny_def Let_def read_quoted_escape newline_escape)

section \<open>Headers\<close>

definition parseCIDKID :: "event_type \<Rightarrow> string \<Rightarrow> (event_type \<times> string \<times> string) result" where
  "parseCIDKID typ payload =
     (case Split payload (CHR '','') of
        a # b # _ \<Rightarrow>
          (let cid = TrimSpace a; kid = TrimSpace b in
           if cid = '''' \<or> kid = '''' then Err ''missing cid/kid'' else Ok (typ, cid, kid))
      | _ \<Rightarrow> Err ''missing cid/kid'')"

definition first_field :: "string \<Rightarrow> string" where
  "first_field payload = TrimSpace (hd (SplitN2 payload (CHR '','')))"

definition ParseHeader :: "string \<Rightarrow> (event_type \<times> string \<times> string) result" where
  "ParseHeader line =
     (if HasPrefix line ''>CLIENT:CONNECT,'' then
        parseCIDKID EventConnect (TrimPrefix line ''>CLIENT:CONNECT,'')
      else if HasPrefix line ''>CLIENT:REAUTH,'' then
        parseCIDKID EventReauth (TrimPrefix line ''>CLIENT:REAUTH,'')
      else if HasPrefix line ''>CLIENT:DISCONNECT,'' then
        (let cid = first_field (TrimPrefix line ''>CLIENT:DISCONNECT,'') in
         if cid = '''' then Err ''disconnect missing cid'' else Ok (EventDisconnect, cid, ''''))
      else if HasPrefix line ''>CLIENT:ESTABLISHED,'' then
        (let cid = first_field (TrimPrefix line ''>CLIENT:ESTABLISHED,'') in
         if cid = '''' then Err ''established missing cid'' else Ok (EventEstablished, cid, ''''))
      else if HasPrefix line ''>CLIENT:ADDRESS,'' then Ok (EventIgnored, '''', '''')
      else if HasPrefix line ''>CLIENT:'' then Ok (EventUnknown, '''', '''')
      else Err ''unsupported event header'')"

section \<open>Event blocks\<close>

text \<open>One pass of the loop of \<open>ReadEventWithRawLog\<close> over the lines; \<open>Inl\<close> when they run out before
  the end of the block. The result also gives the lines left to the next reader.\<close>

definition env_end :: string where "env_end = ''>CLIENT:ENV,END''"

fun read_env :: "event \<Rightarrow> string option \<Rightarrow> string list \<Rightarrow> event result \<times> string list" where
  "read_env ev scan_err [] =
     (case scan_err of
        Some e \<Rightarrow> (Err e, [])
      | None \<Rightarrow> (Err ''unexpected EOF waiting for >CLIENT:ENV,END'', []))"
| "read_env ev scan_err (line # rest) =
     (if line = env_end then
        (Ok (if ev_type ev = EventUnknown then ev\<lparr>ev_type := EventIgnored\<rparr> else ev), rest)
      else if \<not> HasPrefix line ''>CLIENT:ENV,'' then read_env ev scan_err rest
      else
        (let kv = TrimPrefix line ''>CLIENT:ENV,'' in
         case IndexByte kv (CHR ''='') of
           None \<Rightarrow> read_env ev scan_err rest
         | Some i \<Rightarrow>
             if i = 0 then read_env ev scan_err rest
             else read_env (ev\<lparr>ev_env := fmupd (take i kv) (drop (Suc i) kv) (ev_env ev)\<rparr>) scan_err rest))"

definition ReadEvent :: "string \<Rightarrow> string option \<Rightarrow> string list \<Rightarrow> event result \<times> string list" where
  "ReadEvent header scan_err lines =
     (case ParseHeader header of
        Inl e \<Rightarrow> (Err e, lines)
      | Inr (typ, cid, kid) \<Rightarrow>
          (let ev = \<lparr>ev_type = typ, ev_cid = cid, ev_kid = kid, ev_env = fmempty\<rparr> in
           if typ = EventIgnored then (Ok ev, lines) else read_env ev scan_err lines))"

section \<open>What the reader guarantees\<close>

text \<open>The block as OpenVPN writes it: the header, one line per variable, the end marker.\<close>

definition env_line :: "string \<times> string \<Rightarrow> string" where
  "env_line kv = ''>CLIENT:ENV,'' @ fst kv @ CHR ''='' # snd kv"

definition env_of :: "(string \<times> string) list \<Rightarrow> (string, string) fmap" where
  "env_of kvs = foldl (\<lambda>m kv. fmupd (fst kv) (snd kv) m) fmempty kvs"

definition ident :: "string \<Rightarrow> bool" where
  "ident s \<longleftrightarrow> s \<noteq> '''' \<and> CHR '','' \<notin> set s \<and> TrimSpace s = s"

definition var_name :: "string \<Rightarrow> bool" where
  "var_name k \<longleftrightarrow> k \<noteq> '''' \<and> CHR ''='' \<notin> set k"

lemma env_line_not_end: "env_line kv \<noteq> env_end"
proof
  assume "env_line kv = env_end"
  then have "CHR ''='' \<in> set env_end" by (metis env_line_def in_set_conv_decomp append.assoc)
  then show False by (simp add: env_end_def)
qed

lemma read_env_line:
  assumes "var_name (fst kv)"
  shows "read_env ev scan_err (env_line kv # rest) =
    read_env (ev\<lparr>ev_env := fmupd (fst kv) (snd kv) (ev_env ev)\<rparr>) scan_err rest"
proof -
  have "HasPrefix (env_line kv) ''>CLIENT:ENV,''"
    and "TrimPrefix (env_line kv) ''>CLIENT:ENV,'' = fst kv @ CHR ''='' # snd kv"
    unfolding env_line_def by (simp_all only: HasPrefix_append TrimPrefix_append)
  with assms show ?thesis
    by (simp add: env_line_not_end var_name_def)
qed

lemma read_env_block:
  assumes "\<And>kv. kv \<in> set kvs \<Longrightarrow> var_name (fst kv)"
  shows "read_env ev scan_err (map env_line kvs @ env_end # rest) =
    (Ok (ev\<lparr>ev_type := (if ev_type ev = EventUnknown then EventIgnored else ev_type ev),
            ev_env := foldl (\<lambda>m kv. fmupd (fst kv) (snd kv) m) (ev_env ev) kvs\<rparr>), rest)"
  using assms
proof (induction kvs arbitrary: ev)
  case Nil
  then show ?case by simp
next
  case (Cons kv kvs)
  then show ?case by (simp add: read_env_line del: read_env.simps)
qed

lemma parseCIDKID_ident:
  assumes "ident cid" and "ident kid"
  shows "parseCIDKID typ (cid @ CHR '','' # kid) = Ok (typ, cid, kid)"
  using assms by (simp add: parseCIDKID_def Split_append Split_no_sep ident_def)

text \<open>
  A \<open>CLIENT:CONNECT\<close> block is read back exactly: the event carries the client id, the
  key id and every variable with its value (values may hold \<open>=\<close> and commas; of two lines for one
  name the later one wins), and the scanner is left at the first line after the block.
\<close>

theorem read_connect_block:
  assumes "ident cid" and "ident kid" and "\<And>kv. kv \<in> set kvs \<Longrightarrow> var_name (fst kv)"
  shows "ReadEvent (''>CLIENT:CONNECT,'' @ cid @ CHR '','' # kid) scan_err
           (map env_line kvs @ env_end # rest) =
         (Ok \<lparr>ev_type = EventConnect, ev_cid = cid, ev_kid = kid, ev_env = env_of kvs\<rparr>, rest)"
proof -
  have "ParseHeader (''>CLIENT:CONNECT,'' @ cid @ CHR '','' # kid) = Ok (EventConnect, cid, kid)"
    using parseCIDKID_ident [OF assms(1,2), of EventConnect]
    unfolding ParseHeader_def by (simp only: HasPrefix_append TrimPrefix_append if_True)
  then show ?thesis
    using assms(3) by (simp add: ReadEvent_def read_env_block env_of_def)
qed

theorem read_connect_block_witness:
  "ReadEvent ''>CLIENT:CONNECT,3,1'' None
     [''>CLIENT:ENV,common_name=alice'', ''>CLIENT:ENV,IV_SSO=webauth=1'', env_end, ''>HOLD:0''] =
   (Ok \<lparr>ev_type = EventConnect, ev_cid = ''3'', ev_kid = ''1'',
        ev_env = env_of [(''common_name'', ''alice''), (''IV_SSO'', ''webauth=1'')]\<rparr>, [''>HOLD:0''])"
proof -
  have "ident ''3''" "ident ''1''" by code_simp+
  moreover have "kv \<in> set [(''common_name'', ''alice''), (''IV_SSO'', ''webauth=1'')]
      \<Longrightarrow> var_name (fst kv)" for kv
    by (auto simp: var_name_def)
  ultimately show ?thesis
    using read_connect_block [of "''3''" "''1''"
        "[(''common_name'', ''alice''), (''IV_SSO'', ''webauth=1'')]" None "[''>HOLD:0'']"]
    by (simp add: env_line_def)
qed

lemma read_env_sync:
  "read_env ev scan_err lines = (Ok ev', rest) \<Longrightarrow>
     (\<exists>pre. lines = pre @ env_end # rest \<and> env_end \<notin> set pre) \<and> ev_type ev' \<noteq> EventUnknown"
proof (induction lines arbitrary: ev)
  case Nil
  then show ?case by (simp split: option.splits)
next
  case (Cons line lines)
  show ?case
  proof (cases "line = env_end")
    case True
    with Cons.prems have "rest = lines" "ev_type ev' \<noteq> EventUnknown" by (auto split: if_splits)
    with True show ?thesis by (intro conjI exI [of _ "[]"]) auto
  next
    case False
    with Cons.prems obtain ev1 where "read_env ev1 scan_err lines = (Ok ev', rest)"
      by (auto simp: Let_def split: if_splits option.splits)
    from Cons.IH [OF this] obtain pre
      where "lines = pre @ env_end # rest" "env_end \<notin> set pre" "ev_type ev' \<noteq> EventUnknown"
      by blast
    with False show ?thesis by (intro conjI exI [of _ "line # pre"]) auto
  qed
qed

lemma ParseHeader_Ignored:
  "ParseHeader h = Ok (EventIgnored, cid, kid) \<Longrightarrow> HasPrefix h ''>CLIENT:ADDRESS,''"
  by (auto simp: ParseHeader_def parseCIDKID_def Let_def simp del: HasPrefix.simps
      split: if_splits list.splits)

text \<open>
  The reader keeps the stream synchronised. For every notification but the one-line
  \<open>CLIENT:ADDRESS\<close>, a successful read has consumed the lines up to and including the first end
  marker and no more, also for a notification the daemon does not know; such a notification is
  reported as ignored, never as unknown.
\<close>

theorem read_event_sync:
  assumes "ReadEvent header scan_err lines = (Ok ev, rest)"
    and "\<not> HasPrefix header ''>CLIENT:ADDRESS,''"
  shows "(\<exists>pre. lines = pre @ env_end # rest \<and> env_end \<notin> set pre) \<and> ev_type ev \<noteq> EventUnknown"
proof -
  from assms obtain ty cid kid where h: "ParseHeader header = Ok (ty, cid, kid)"
    by (cases "ParseHeader header") (auto simp: ReadEvent_def)
  with assms(2) have "ty \<noteq> EventIgnored" using ParseHeader_Ignored by blast
  with assms(1) h show ?thesis by (auto simp: ReadEvent_def Let_def dest: read_env_sync)
qed

theorem read_event_sync_witness:
  "(\<exists>pre. [''>CLIENT:ENV,x=1'', env_end, ''SUCCESS: ok''] = pre @ env_end # [''SUCCESS: ok'']
      \<and> env_end \<notin> set pre) \<and>
   ev_type \<lparr>ev_type = EventIgnored, ev_cid = [], ev_kid = [], ev_env = fmupd ''x'' ''1'' fmempty\<rparr>
     \<noteq> EventUnknown"
proof -
  have "ReadEvent ''>CLIENT:FUTURE,9'' None [''>CLIENT:ENV,x=1'', env_end, ''SUCCESS: ok''] =
    (Ok \<lparr>ev_type = EventIgnored, ev_cid = [], ev_kid = [], ev_env = fmupd ''x'' ''1'' fmempty\<rparr>,
     [''SUCCESS: ok''])"
    by (simp add: ReadEvent_def ParseHeader_def env_end_def TrimPrefix_def)
  moreover have "\<not> HasPrefix ''>CLIENT:FUTURE,9'' ''>CLIENT:ADDRESS,''" by simp
  ultimately show ?thesis by (rule read_event_sync)
qed

end
