(* ===== verification/Sessions.thy ===== *)
theory Sessions
  imports GoStrings
begin

text \<open>
  \<open>internal/auth/sessions.go\<close> and the session types of \<open>types.go\<close>: the store of pending
  WebAuth sessions. Every operation takes the store's mutex for its whole body, so an operation
  is one atomic step; the store is a finite map from session ids, and a pointer into it that a
  caller keeps is only read in its immutable fields.

  The locale \<open>claimable\<close> is the contract the callback server, the timeout goroutine and the
  replacement of a pending attempt rely on: of all the parties that try to claim a session, one
  wins. It is interpreted on the store below.
\<close>

datatype session_status = SessionPending | SessionProcessing | SessionDone | SessionFailed

record pending_session =
  ps_SessionID :: string
  ps_CommonName :: string
  ps_CID :: string
  ps_KID :: string
  ps_Username :: string
  ps_CNCrossCheck :: bool
  ps_RequiredGroup :: string
  ps_Status :: session_status
  ps_CreatedAt :: gotime
  ps_ExpiresAt :: gotime

datatype session_error = ErrSessionNotFound | ErrSessionNotPending session_status

type_synonym session_store = "(string, pending_session) fmap"

definition NewSessionStore :: session_store where
  "NewSessionStore = fmempty"

definition Put :: "pending_session \<Rightarrow> session_store \<Rightarrow> session_store" where
  "Put s st = fmupd (ps_SessionID s) s st"

definition set_status :: "string \<Rightarrow> session_status \<Rightarrow> session_store \<Rightarrow> session_store" where
  "set_status sid x st = fmadjust sid (\<lambda>s. s\<lparr>ps_Status := x\<rparr>) st"

text \<open>\<open>TryProcess\<close> and \<open>SupersedePending\<close> differ in the status a claimed session moves to.\<close>

definition claim ::
  "session_status \<Rightarrow> string \<Rightarrow> session_store \<Rightarrow> (session_error + pending_session) \<times> session_store" where
  "claim to sid st =
     (case fmlookup st sid of
        None \<Rightarrow> (Inl ErrSessionNotFound, st)
      | Some s \<Rightarrow>
          if ps_Status s \<noteq> SessionPending then (Inl (ErrSessionNotPending (ps_Status s)), st)
          else (Inr (s\<lparr>ps_Status := to\<rparr>), fmupd sid (s\<lparr>ps_Status := to\<rparr>) st))"

definition TryProcess ::
  "string \<Rightarrow> session_store \<Rightarrow> (session_error + pending_session) \<times> session_store" where
  "TryProcess sid st = claim SessionProcessing sid st"

definition SupersedePending ::
  "string \<Rightarrow> session_store \<Rightarrow> (session_error + pending_session) \<times> session_store" where
  "SupersedePending sid st = claim SessionFailed sid st"

definition MarkDone :: "string \<Rightarrow> session_store \<Rightarrow> session_store" where
  "MarkDone sid st = set_status sid SessionDone st"

definition MarkFailed :: "string \<Rightarrow> session_store \<Rightarrow> session_store" where
  "MarkFailed sid st = set_status sid SessionFailed st"

definition MarkPending :: "string \<Rightarrow> session_store \<Rightarrow> session_store" where
  "MarkPending sid st = set_status sid SessionPending st"

definition Delete :: "string \<Rightarrow> session_store \<Rightarrow> session_store" where
  "Delete sid st = fmdrop sid st"

definition Len :: "session_store \<Rightarrow> nat" where
  "Len st = fcard (fmdom st)"

definition reap :: "gotime \<Rightarrow> session_store \<Rightarrow> session_store" where
  "reap now st =
     fmfilter (\<lambda>sid. case fmlookup st sid of None \<Rightarrow> False | Some s \<Rightarrow> \<not> ps_ExpiresAt s < now) st"

text \<open>The status the store shows for a session id.\<close>

definition status_of :: "session_store \<Rightarrow> string \<Rightarrow> session_status option" where
  "status_of st sid = map_option ps_Status (fmlookup st sid)"

lemma status_of_set [simp]:
  "status_of (set_status sid x st) sid' =
     (if sid' = sid then map_option (\<lambda>_. x) (status_of st sid) else status_of st sid')"
  by (auto simp: status_of_def set_status_def option.map_comp comp_def)

lemma status_of_Put [simp]:
  "status_of (Put s st) sid = (if sid = ps_SessionID s then Some (ps_Status s) else status_of st sid)"
  by (simp add: status_of_def Put_def)

lemma status_of_Delete [simp]:
  "status_of (Delete sid st) sid' = (if sid' = sid then None else status_of st sid')"
  by (simp add: status_of_def Delete_def)

lemma status_of_reap: "status_of (reap now st) sid \<in> {None, status_of st sid}"
  by (simp add: status_of_def reap_def)

lemma claim_cases:
  obtains (won) s where "fmlookup st sid = Some s" "ps_Status s = SessionPending"
    "claim to sid st = (Inr (s\<lparr>ps_Status := to\<rparr>), fmupd sid (s\<lparr>ps_Status := to\<rparr>) st)"
  | (lost) e where "claim to sid st = (Inl e, st)" "status_of st sid \<noteq> Some SessionPending"
proof (cases "fmlookup st sid")
  case None
  then show ?thesis by (intro lost) (simp_all add: claim_def status_of_def)
next
  case (Some s)
  then show ?thesis
    using won [of s] lost [of "ErrSessionNotPending (ps_Status s)"]
    by (cases "ps_Status s = SessionPending") (simp_all add: claim_def status_of_def)
qed

text \<open>
  The reaper removes exactly the sessions whose expiry lies before now and leaves every
  other session as it is, so a session that has not expired cannot disappear under a callback.
\<close>

theorem reap_removes_expired:
  "fmlookup (reap now st) sid =
     (case fmlookup st sid of
        None \<Rightarrow> None
      | Some s \<Rightarrow> if ps_ExpiresAt s < now then None else Some s)"
  by (simp add: reap_def split: option.splits)

section \<open>One winner\<close>

text \<open>The operations as values, so that any interleaving of goroutines is a list of them.\<close>

datatype store_op =
    OpPut pending_session
  | OpTryProcess string
  | OpSupersede string
  | OpMarkDone string
  | OpMarkFailed string
  | OpMarkPending string
  | OpDelete string
  | OpReap gotime

fun apply_op :: "store_op \<Rightarrow> session_store \<Rightarrow> session_store" where
  "apply_op (OpPut s) st = Put s st"
| "apply_op (OpTryProcess sid) st = snd (TryProcess sid st)"
| "apply_op (OpSupersede sid) st = snd (SupersedePending sid st)"
| "apply_op (OpMarkDone sid) st = MarkDone sid st"
| "apply_op (OpMarkFailed sid) st = MarkFailed sid st"
| "apply_op (OpMarkPending sid) st = MarkPending sid st"
| "apply_op (OpDelete sid) st = Delete sid st"
| "apply_op (OpReap now) st = reap now st"

text \<open>Whether the operation claims the session, and whether it can make it claimable again.\<close>

fun claims_op :: "string \<Rightarrow> store_op \<Rightarrow> session_store \<Rightarrow> bool" where
  "claims_op sid (OpTryProcess s) st = (s = sid \<and> \<not> isl (fst (TryProcess s st)))"
| "claims_op sid (OpSupersede s) st = (s = sid \<and> \<not> isl (fst (SupersedePending s st)))"
| "claims_op sid _ st = False"

fun reopens :: "string \<Rightarrow> store_op \<Rightarrow> bool" where
  "reopens sid (OpPut s) = (ps_SessionID s = sid)"
| "reopens sid (OpMarkPending s) = (s = sid)"
| "reopens sid _ = False"

fun count_claims :: "string \<Rightarrow> store_op list \<Rightarrow> session_store \<Rightarrow> nat" where
  "count_claims sid [] st = 0"
| "count_claims sid (x # xs) st = of_bool (claims_op sid x st) + count_claims sid xs (apply_op x st)"

locale claimable =
  fixes open_at :: "'st \<Rightarrow> bool"
    and app :: "'op \<Rightarrow> 'st \<Rightarrow> 'st"
    and wins :: "'op \<Rightarrow> 'st \<Rightarrow> bool"
    and again :: "'op \<Rightarrow> bool"
  assumes wins_open: "wins x st \<Longrightarrow> open_at st"
    and wins_closes: "wins x st \<Longrightarrow> \<not> open_at (app x st)"
    and stays_closed: "\<not> open_at st \<Longrightarrow> \<not> again x \<Longrightarrow> \<not> open_at (app x st)"
begin

fun won :: "'op list \<Rightarrow> 'st \<Rightarrow> nat" where
  "won [] st = 0"
| "won (x # xs) st = of_bool (wins x st) + won xs (app x st)"

text \<open>However the operations interleave, there are at most as many winners as there were
  occasions to become claimable.\<close>

lemma won_bound: "won xs st \<le> of_bool (open_at st) + length (filter again xs)"
proof (induction xs arbitrary: st)
  case (Cons x xs)
  have "won xs (app x st) \<le> of_bool (open_at (app x st)) + length (filter again xs)"
    by (rule Cons.IH)
  then show ?case
    using wins_open [of x st] wins_closes [of x st] stays_closed [of st x]
    by (cases "wins x st"; cases "again x"; cases "open_at st"; cases "open_at (app x st)") simp_all
qed simp

end

lemma claim_closes: "to \<noteq> SessionPending \<Longrightarrow> \<not> isl (fst (claim to sid st)) \<Longrightarrow>
    status_of st sid = Some SessionPending \<and> status_of (snd (claim to sid st)) sid = Some to"
  by (cases rule: claim_cases [of st sid to]) (auto simp: status_of_def)

lemma claim_other: "to \<noteq> SessionPending \<Longrightarrow> status_of st sid' \<noteq> Some SessionPending \<Longrightarrow>
    status_of (snd (claim to sid st)) sid' \<noteq> Some SessionPending"
  by (cases rule: claim_cases [of st sid to]) (auto simp: status_of_def)

interpretation store: claimable
  "\<lambda>st. status_of st sid = Some SessionPending" apply_op "claims_op sid" "reopens sid" for sid
proof
  fix x :: store_op and st :: session_store
  show "status_of st sid = Some SessionPending" if "claims_op sid x st"
    using that by (cases x) (auto simp: TryProcess_def SupersedePending_def dest: claim_closes [rotated])
  show "status_of (apply_op x st) sid \<noteq> Some SessionPending" if "claims_op sid x st"
    using that by (cases x) (auto simp: TryProcess_def SupersedePending_def dest: claim_closes [rotated])
  show "status_of (apply_op x st) sid \<noteq> Some SessionPending"
    if "status_of st sid \<noteq> Some SessionPending" "\<not> reopens sid x"
    using that status_of_reap [of _ st sid]
    by (cases x)
       (auto simp: TryProcess_def SupersedePending_def MarkDone_def MarkFailed_def MarkPending_def
         claim_other, metis insert_iff option.distinct(1) singletonD)
qed

lemma count_claims_won: "count_claims sid xs st = store.won sid xs st"
  by (induction xs arbitrary: st) simp_all

text \<open>
  In every interleaving of store operations, by any number of callbacks, timeout goroutines
  and replacing connections, a session is claimed (by \<open>TryProcess\<close> or by \<open>SupersedePending\<close>) at
  most once, plus once for every operation that explicitly makes it pending again (\<open>Put\<close> of that
  id or \<open>MarkPending\<close>). Without such an operation exactly one party can win.
\<close>

theorem session_claimed_once:
  "count_claims sid ops st \<le>
     of_bool (status_of st sid = Some SessionPending) + length (filter (reopens sid) ops)"
  unfolding count_claims_won by (rule store.won_bound)

end
