(* ===== verification/Base64.thy ===== *)
theory Base64
  imports GoStrings
begin

text \<open>
  \<open>base64.RawURLEncoding\<close> of Go's \<open>encoding/base64\<close>: the URL-safe alphabet without padding.
  The decoder skips carriage returns and line feeds, refuses every other byte outside the
  alphabet and a last group of one symbol, and ignores the unused low bits of a last group of
  two or three symbols (the encoding is not \<open>Strict\<close>).

  The locale \<open>token_codec\<close> is what the signed state relies on: decoding undoes encoding, and an
  encoding never holds the separator of the token.
\<close>

definition b64_char :: "nat \<Rightarrow> char" where
  "b64_char n =
     char_of (if n < 26 then 65 + n else if n < 52 then 71 + n else if n < 62 then n - 4
              else if n = 62 then 45 else 95)"

definition b64_val :: "char \<Rightarrow> nat option" where
  "b64_val c =
     (let b = byte c in
      if 65 \<le> b \<and> b \<le> 90 then Some (b - 65)
      else if 97 \<le> b \<and> b \<le> 122 then Some (b - 71)
      else if 48 \<le> b \<and> b \<le> 57 then Some (b + 4)
      else if b = 45 then Some 62
      else if b = 95 then Some 63
      else None)"

fun encode_groups :: "nat list \<Rightarrow> nat list" where
  "encode_groups [] = []"
| "encode_groups [a] = [a div 4, a mod 4 * 16]"
| "encode_groups [a, b] = [a div 4, a mod 4 * 16 + b div 16, b mod 16 * 4]"
| "encode_groups (a # b # c # rest) =
     [a div 4, a mod 4 * 16 + b div 16, b mod 16 * 4 + c div 64, c mod 64] @ encode_groups rest"

fun decode_groups :: "nat list \<Rightarrow> nat list option" where
  "decode_groups [] = Some []"
| "decode_groups [p] = None"
| "decode_groups [p, q] = Some [p * 4 + q div 16]"
| "decode_groups [p, q, r] = Some [p * 4 + q div 16, q mod 16 * 16 + r div 4]"
| "decode_groups (p # q # r # s # rest) =
     map_option (\<lambda>bs. [p * 4 + q div 16, q mod 16 * 16 + r div 4, r mod 4 * 64 + s] @ bs)
       (decode_groups rest)"

definition EncodeToString :: "string \<Rightarrow> string" where
  "EncodeToString s = map b64_char (encode_groups (map byte s))"

definition DecodeString :: "string \<Rightarrow> string option" where
  "DecodeString s =
     (let t = filter (\<lambda>c. c \<noteq> CHR 0x0A \<and> c \<noteq> CHR 0x0D) s in
      if list_all (\<lambda>c. b64_val c \<noteq> None) t
      then map_option (map char_of) (decode_groups (map (\<lambda>c. the (b64_val c)) t))
      else None)"

section \<open>The round trip\<close>

lemma byte_less [simp]: "byte c < 256"
  by (simp add: byte_def)

lemma char_of_byte [simp]: "char_of (byte c) = c"
  by (simp add: byte_def)

lemma byte_b64_char:
  "n < 64 \<Longrightarrow> byte (b64_char n) =
     (if n < 26 then 65 + n else if n < 52 then 71 + n else if n < 62 then n - 4
      else if n = 62 then 45 else 95)"
  by (simp add: b64_char_def byte_def)

lemma b64_val_char: "n < 64 \<Longrightarrow> b64_val (b64_char n) = Some n"
  by (auto simp: b64_val_def byte_b64_char Let_def)

lemma encode_groups_bound:
  "(\<forall>b \<in> set bs. b < 256) \<Longrightarrow> v \<in> set (encode_groups bs) \<Longrightarrow> v < 64"
proof (induction bs rule: encode_groups.induct)
  case (3 a b)
  then have "a mod 4 * 16 \<le> 48" "b div 16 \<le> 15" "a div 4 < 64" "b mod 16 * 4 \<le> 60" by auto
  with 3 show ?case by auto
next
  case (4 a b c rest)
  have "a mod 4 * 16 \<le> 48" "b mod 16 * 4 \<le> 60" by auto
  moreover have "b div 16 \<le> 15" "c div 64 \<le> 3" "a div 4 < 64" using 4 by auto
  ultimately show ?case using 4 by auto
qed auto

lemma decode_encode_groups:
  "(\<forall>b \<in> set bs. b < 256) \<Longrightarrow> decode_groups (encode_groups bs) = Some bs"
proof (induction bs rule: encode_groups.induct)
  case (3 a b)
  moreover have "(a mod 4 * 16 + b div 16) div 16 = a mod 4" "(a mod 4 * 16 + b div 16) mod 16 = b div 16"
    using 3 by auto
  ultimately show ?case by simp
next
  case (4 a b c rest)
  moreover have "(a mod 4 * 16 + b div 16) div 16 = a mod 4" "(a mod 4 * 16 + b div 16) mod 16 = b div 16"
    "(b mod 16 * 4 + c div 64) div 4 = b mod 16" "(b mod 16 * 4 + c div 64) mod 4 = c div 64"
    using 4 by auto
  ultimately show ?case by simp
qed auto

lemma encode_groups_bytes: "v \<in> set (encode_groups (map byte s)) \<Longrightarrow> v < 64"
  by (rule encode_groups_bound [of "map byte s"]) auto

definition b64_symbol :: "char \<Rightarrow> bool" where
  "b64_symbol c \<longleftrightarrow> b64_val c \<noteq> None"

lemma EncodeToString_symbols: "c \<in> set (EncodeToString s) \<Longrightarrow> b64_symbol c"
proof -
  assume "c \<in> set (EncodeToString s)"
  then obtain v where v: "v \<in> set (encode_groups (map byte s))" "c = b64_char v"
    by (auto simp: EncodeToString_def)
  then have "v < 64" by (auto intro: encode_groups_bytes)
  with v show ?thesis by (simp add: b64_symbol_def b64_val_char)
qed

lemma b64_symbol_excl:
  "b64_symbol c \<Longrightarrow> c \<noteq> CHR 0x0A \<and> c \<noteq> CHR 0x0D \<and> c \<noteq> CHR ''.'' \<and> c \<noteq> CHR 0x22
     \<and> c \<noteq> CHR 0x5C \<and> c \<noteq> CHR 0x27"
  by (auto simp: b64_symbol_def b64_val_def byte_def)

lemma b64_symbol_plain: "b64_symbol c \<Longrightarrow> plain_char c"
  by (auto simp: b64_symbol_def b64_val_def plain_char_def ascii_spaces_def byte_def Let_def
      split: if_splits)

theorem DecodeString_EncodeToString: "DecodeString (EncodeToString s) = Some s"
proof -
  let ?e = "EncodeToString s"
  have "filter (\<lambda>c. c \<noteq> CHR 0x0A \<and> c \<noteq> CHR 0x0D) ?e = ?e"
    using EncodeToString_symbols b64_symbol_excl by (auto intro!: filter_True)
  moreover have "list_all (\<lambda>c. b64_val c \<noteq> None) ?e"
    using EncodeToString_symbols by (auto simp: list_all_iff b64_symbol_def)
  moreover have "map (\<lambda>c. the (b64_val c)) ?e = encode_groups (map byte s)"
  proof -
    have "\<forall>v \<in> set (encode_groups (map byte s)). v < 64" by (auto intro: encode_groups_bytes)
    then show ?thesis
      by (auto simp: EncodeToString_def b64_val_char intro: map_idI)
  qed
  moreover have "decode_groups (encode_groups (map byte s)) = Some (map byte s)"
    by (rule decode_encode_groups) auto
  ultimately show ?thesis by (simp add: DecodeString_def Let_def comp_def)
qed

lemma length_encode_groups: "length (encode_groups bs) = (4 * length bs + 2) div 3"
  by (induction bs rule: encode_groups.induct) auto

lemma length_EncodeToString: "length (EncodeToString s) = (4 * length s + 2) div 3"
  by (simp add: EncodeToString_def length_encode_groups)

section \<open>What a signed token relies on\<close>

locale token_codec =
  fixes enc :: "string \<Rightarrow> string"
    and dec :: "string \<Rightarrow> string option"
    and sep :: char
  assumes dec_enc: "dec (enc s) = Some s"
    and sep_free: "sep \<notin> set (enc s)"
begin

text \<open>A token splits back into the encoding and whatever follows the first separator.\<close>

lemma split_token: "SplitN2 (enc s @ sep # m) sep = [enc s, m]"
  by (rule SplitN2_append) (rule sep_free)

lemma enc_inject: "enc s = enc t \<longleftrightarrow> s = t"
  by (metis dec_enc option.inject)

end

interpretation raw_url: token_codec EncodeToString DecodeString "CHR ''.''"
proof
  show "CHR ''.'' \<notin> set (EncodeToString s)" for s
    using EncodeToString_symbols b64_symbol_excl by blast
qed (rule DecodeString_EncodeToString)

end
