(* ===== verification/Hmac.thy ===== *)
theory Hmac
  imports Base64 "HOL-Library.Word"
begin

unbundle bit_operations_syntax

text \<open>
  \<open>crypto/sha256\<close>, \<open>crypto/hmac\<close> and the signer of \<open>internal/secrets/hmac.go\<close>: SHA-256 on 32-bit
  words (FIPS 180-4), HMAC (RFC 2104) with its 64-byte block, and \<open>StaticSigner\<close>, whose MACs are
  the unpadded base64url text of a 32-byte HMAC.
\<close>

section \<open>SHA-256\<close>

definition rotr :: "nat \<Rightarrow> 32 word \<Rightarrow> 32 word" where
  "rotr n x = drop_bit n x OR push_bit (32 - n) x"

definition sha_ch :: "32 word \<Rightarrow> 32 word \<Rightarrow> 32 word \<Rightarrow> 32 word" where
  "sha_ch x y z = (x AND y) XOR (NOT x AND z)"

definition sha_maj :: "32 word \<Rightarrow> 32 word \<Rightarrow> 32 word \<Rightarrow> 32 word" where
  "sha_maj x y z = (x AND y) XOR (x AND z) XOR (y AND z)"

definition big_sigma0 :: "32 word \<Rightarrow> 32 word" where
  "big_sigma0 x = rotr 2 x XOR rotr 13 x XOR rotr 22 x"

definition big_sigma1 :: "32 word \<Rightarrow> 32 word" where
  "big_sigma1 x = rotr 6 x XOR rotr 11 x XOR rotr 25 x"

definition small_sigma0 :: "32 word \<Rightarrow> 32 word" where
  "small_sigma0 x = rotr 7 x XOR rotr 18 x XOR drop_bit 3 x"

definition small_sigma1 :: "32 word \<Rightarrow> 32 word" where
  "small_sigma1 x = rotr 17 x XOR rotr 19 x XOR drop_bit 10 x"

definition sha_k :: "32 word list" where
  "sha_k =
    [1116352408, 1899447441, 3049323471, 3921009573, 961987163, 1508970993, 2453635748, 2870763221,
     3624381080, 310598401, 607225278, 1426881987, 1925078388, 2162078206, 2614888103, 3248222580,
     3835390401, 4022224774, 264347078, 604807628, 770255983, 1249150122, 1555081692, 1996064986,
     2554220882, 2821834349, 2952996808, 3210313671, 3336571891, 3584528711, 113926993, 338241895,
     666307205, 773529912, 1294757372, 1396182291, 1695183700, 1986661051, 2177026350, 2456956037,
     2730485921, 2820302411, 3259730800, 3345764771, 3516065817, 3600352804, 4094571909, 275423344,
     430227734, 506948616, 659060556, 883997877, 958139571, 1322822218, 1537002063, 1747873779,
     1955562222, 2024104815, 2227730452, 2361852424, 2428436474, 2756734187, 3204031479, 3329325298]"

type_synonym sha_state =
  "32 word \<times> 32 word \<times> 32 word \<times> 32 word \<times> 32 word \<times> 32 word \<times> 32 word \<times> 32 word"

definition sha_init :: sha_state where
  "sha_init = (1779033703, 3144134277, 1013904242, 2773480762,
               1359893119, 2600822924, 528734635, 1541459225)"

definition word_be :: "nat list \<Rightarrow> 32 word" where
  "word_be bs = foldl (\<lambda>w b. push_bit 8 w OR of_nat b) 0 bs"

definition bytes_be :: "32 word \<Rightarrow> nat list" where
  "bytes_be w = map (\<lambda>n. unat (drop_bit n w AND 0xff)) [24, 16, 8, 0]"

function chunks :: "nat \<Rightarrow> 'a list \<Rightarrow> 'a list list" where
  "chunks n xs = (if xs = [] \<or> n = 0 then [] else take n xs # chunks n (drop n xs))"
  by pat_completeness auto
termination by (relation "measure (\<lambda>(n, xs). length xs)") auto

declare chunks.simps [simp del]

text \<open>The message schedule, kept in reverse: the newest word first.\<close>

fun schedule :: "nat \<Rightarrow> 32 word list \<Rightarrow> 32 word list" where
  "schedule 0 ws = rev ws"
| "schedule (Suc n) ws =
     schedule n ((small_sigma1 (ws ! 1) + ws ! 6 + small_sigma0 (ws ! 14) + ws ! 15) # ws)"

definition sha_round :: "sha_state \<Rightarrow> 32 word \<times> 32 word \<Rightarrow> sha_state" where
  "sha_round st kw = (case (st, kw) of ((a, b, c, d, e, f, g, h), (k, w)) \<Rightarrow>
     (let t1 = h + big_sigma1 e + sha_ch e f g + k + w;
          t2 = big_sigma0 a + sha_maj a b c
      in (t1 + t2, a, b, c, d + t1, e, f, g)))"

definition sha_block :: "sha_state \<Rightarrow> nat list \<Rightarrow> sha_state" where
  "sha_block st bs =
     (case (st, foldl sha_round st (zip sha_k (schedule 48 (rev (map word_be (chunks 4 bs)))))) of
        ((a, b, c, d, e, f, g, h), (a', b', c', d', e', f', g', h')) \<Rightarrow>
          (a + a', b + b', c + c', d + d', e + e', f + f', g + g', h + h'))"

definition sha_pad :: "nat list \<Rightarrow> nat list" where
  "sha_pad bs =
     bs @ [0x80] @ replicate ((119 - length bs mod 64) mod 64) 0
        @ map (\<lambda>n. nat ((8 * int (length bs) div 2 ^ n) mod 256)) [56, 48, 40, 32, 24, 16, 8, 0]"

definition sha256 :: "nat list \<Rightarrow> nat list" where
  "sha256 bs =
     (case foldl sha_block sha_init (chunks 64 (sha_pad bs)) of
        (a, b, c, d, e, f, g, h) \<Rightarrow> concat (map bytes_be [a, b, c, d, e, f, g, h]))"

lemma length_sha256 [simp]: "length (sha256 bs) = 32"
  by (simp add: sha256_def bytes_be_def split: prod.splits)

section \<open>HMAC and the signer\<close>

definition hmac_key :: "nat list \<Rightarrow> nat list" where
  "hmac_key k = (let k' = if length k > 64 then sha256 k else k in k' @ replicate (64 - length k') 0)"

definition hmac_sha256 :: "nat list \<Rightarrow> nat list \<Rightarrow> nat list" where
  "hmac_sha256 k m =
     sha256 (map (\<lambda>b. b XOR 0x5c) (hmac_key k) @ sha256 (map (\<lambda>b. b XOR 0x36) (hmac_key k) @ m))"

definition MinSecretLen :: nat where "MinSecretLen = 16"

datatype secret_error = SecretTooShort nat

record static_signer =
  signer_secret :: string

definition NewStaticSigner :: "string \<Rightarrow> secret_error + static_signer" where
  "NewStaticSigner secret =
     (if length secret < MinSecretLen then Inl (SecretTooShort (length secret))
      else Inr \<lparr>signer_secret = secret\<rparr>)"

text \<open>\<open>NewRandomSigner\<close> with the bytes the system's random source gives; it panics on an error.\<close>

definition NewRandomSigner :: "string option \<Rightarrow> static_signer option" where
  "NewRandomSigner rand = map_option (\<lambda>key. \<lparr>signer_secret = key\<rparr>) rand"

definition Sign :: "static_signer \<Rightarrow> string \<Rightarrow> string" where
  "Sign s data =
     EncodeToString (map char_of (hmac_sha256 (map byte (signer_secret s)) (map byte data)))"

text \<open>\<open>hmac.Equal\<close> compares in constant time; its value is equality of the byte strings.\<close>

definition Verify :: "static_signer \<Rightarrow> string \<Rightarrow> string \<Rightarrow> bool" where
  "Verify s data mac = (Sign s data = mac)"

lemma length_Sign: "length (Sign s data) = 43"
  by (simp add: Sign_def hmac_sha256_def length_EncodeToString)

lemma Sign_symbols: "c \<in> set (Sign s data) \<Longrightarrow> b64_symbol c"
  unfolding Sign_def by (rule EncodeToString_symbols)

text \<open>
  \<open>auth.StateSigner\<close>, the interface the state codec is written against: a MAC verifies exactly
  when it is the one \<open>Sign\<close> produces, and MACs are short and free of the characters with a
  meaning in a URL or a state blob.
\<close>

locale state_signer =
  fixes sign :: "string \<Rightarrow> string"
    and verify :: "string \<Rightarrow> string \<Rightarrow> bool"
  assumes verify_iff: "verify d m \<longleftrightarrow> m = sign d"
    and sign_length: "length (sign d) = 43"
    and sign_symbols: "c \<in> set (sign d) \<Longrightarrow> b64_symbol c"

interpretation static: state_signer "Sign s" "Verify s" for s
  by unfold_locales (auto simp: Verify_def length_Sign intro: Sign_symbols)

section \<open>The secret of a deployment\<close>

text \<open>
  \<open>internal/secrets/manager.go\<close>: the AWS client is a parameter, the answer of
  \<open>GetSecretValue\<close> for the secret id.
\<close>

record secret_value =
  sv_SecretString :: "string option"
  sv_SecretBinary :: string

datatype fetch_error =
    SecretIDRequired | GetSecretFailed string | NoResponse string | NoSecretValue string

definition FetchHMACSecret ::
  "(string \<Rightarrow> string + secret_value option) \<Rightarrow> string \<Rightarrow> fetch_error + string" where
  "FetchHMACSecret get secretID =
     (if secretID = '''' then Inl SecretIDRequired
      else (case get secretID of
          Inl e \<Rightarrow> Inl (GetSecretFailed secretID)
        | Inr None \<Rightarrow> Inl (NoResponse secretID)
        | Inr (Some out) \<Rightarrow>
            (case sv_SecretString out of
               Some s \<Rightarrow> Inr s
             | None \<Rightarrow>
                 if sv_SecretBinary out \<noteq> '''' then Inr (sv_SecretBinary out)
                 else Inl (NoSecretValue secretID))))"

end
