(* ===== verification/State.thy ===== *)
theory State
  imports Json Hmac
begin

text \<open>
  \<open>internal/auth/state.go\<close>: the signed state blob that carries a session id through the browser.
  The codec is written against the \<open>StateSigner\<close> interface, so the operations take its two
  methods as arguments; the lemmas are proved in the locale \<open>state_signer\<close> and reach the
  deployed signer through its interpretation.
\<close>

record state_payload =
  sp_SID :: string
  sp_IAT :: int
  sp_EXP :: int

datatype state_error =
    InvalidStateFormat | InvalidStateSignature | DecodeStateFailed | UnmarshalStateFailed | StateExpired

definition marshal_state :: "state_payload \<Rightarrow> string" where
  "marshal_state p =
     CHR ''{'' # CHR 0x22 # ''sid'' @ CHR 0x22 # CHR '':'' # json_quote (sp_SID p) @
     CHR '','' # CHR 0x22 # ''iat'' @ CHR 0x22 # CHR '':'' # itoa (sp_IAT p) @
     CHR '','' # CHR 0x22 # ''exp'' @ CHR 0x22 # CHR '':'' # itoa (sp_EXP p) @ ''}''"

definition EncodeState :: "state_payload \<Rightarrow> (string \<Rightarrow> string) \<Rightarrow> string" where
  "EncodeState payload sign =
     (let encoded = EncodeToString (marshal_state payload);
          mac = sign encoded
      in encoded @ ''.'' @ mac)"

definition unmarshal_state :: "string \<Rightarrow> state_payload option" where
  "unmarshal_state data =
     (case struct_members data of
        None \<Rightarrow> None
      | Some ms \<Rightarrow>
          (case (string_field '''' (field_values ''sid'' ms), int64_field 0 (field_values ''iat'' ms),
                 int64_field 0 (field_values ''exp'' ms)) of
             (Some sid, Some iat, Some ex) \<Rightarrow> Some \<lparr>sp_SID = sid, sp_IAT = iat, sp_EXP = ex\<rparr>
           | _ \<Rightarrow> None))"

definition DecodeState ::
  "gotime \<Rightarrow> string \<Rightarrow> (string \<Rightarrow> string \<Rightarrow> bool) \<Rightarrow> state_error + state_payload" where
  "DecodeState now state verify =
     (case SplitN2 state (CHR ''.'') of
        [encoded, mac] \<Rightarrow>
          if \<not> verify encoded mac then Inl InvalidStateSignature
          else (case DecodeString encoded of
              None \<Rightarrow> Inl DecodeStateFailed
            | Some data \<Rightarrow>
                (case unmarshal_state data of
                   None \<Rightarrow> Inl UnmarshalStateFailed
                 | Some payload \<Rightarrow>
                     if sp_EXP payload < unix_seconds now then Inl StateExpired else Inr payload))
      | _ \<Rightarrow> Inl InvalidStateFormat)"

section \<open>The payload survives its JSON text\<close>

definition payload_ok :: "state_payload \<Rightarrow> bool" where
  "payload_ok p \<longleftrightarrow> list_all json_safe (sp_SID p) \<and>
     0 \<le> sp_IAT p \<and> sp_IAT p \<le> i64_max \<and> 0 \<le> sp_EXP p \<and> sp_EXP p \<le> i64_max"

lemma tokens_end: "tokens ''}'' = Some [TRBrace]"
  by code_simp

lemma tokens_marshal:
  assumes "payload_ok p"
  shows "tokens (marshal_state p) =
    Some [TLBrace, TStr ''sid'', TColon, TStr (sp_SID p), TComma, TStr ''iat'', TColon, TNum (itoa (sp_IAT p)),
          TComma, TStr ''exp'', TColon, TNum (itoa (sp_EXP p)), TRBrace]"
proof -
  have "list_all json_safe ''sid''" "list_all json_safe ''iat''" "list_all json_safe ''exp''"
    by code_simp+
  note str = this [THEN tokens_string, unfolded append_Cons append_Nil]
    tokens_string [of "sp_SID p"]
  have "punctuation (CHR ''{'') = Some TLBrace" "punctuation (CHR '':'') = Some TColon"
    "punctuation (CHR '','') = Some TComma"
    by (simp_all add: punctuation_def)
  note pun = this [THEN tokens_punctuation]
  have "number_end (CHR '','' # r)" "number_end ''}''" for r
    by (simp_all add: number_end_def is_digit_def byte_def)
  note num = this [THEN tokens_itoa]
  show ?thesis
    using assms unfolding marshal_state_def json_quote_def payload_ok_def
    by (elim conjE)
       (simp only: pun str num escape_string_safe append_Cons append_assoc append_Nil tokens_end
         option.map)
qed

lemma key_matches_fields:
  "key_matches ''sid'' ''sid''" "\<not> key_matches ''sid'' ''iat''" "\<not> key_matches ''sid'' ''exp''"
  "\<not> key_matches ''iat'' ''sid''" "key_matches ''iat'' ''iat''" "\<not> key_matches ''iat'' ''exp''"
  "\<not> key_matches ''exp'' ''sid''" "\<not> key_matches ''exp'' ''iat''" "key_matches ''exp'' ''exp''"
  by code_simp+

lemma unmarshal_marshal:
  assumes "payload_ok p"
  shows "unmarshal_state (marshal_state p) = Some p"
proof -
  have "struct_members (marshal_state p) =
      Some [(''sid'', JStr (sp_SID p)), (''iat'', JNum (itoa (sp_IAT p))), (''exp'', JNum (itoa (sp_EXP p)))]"
    by (simp add: struct_members_def json_parse_def tokens_marshal [OF assms] max_nesting_def depth_def)
  moreover have "ParseInt (itoa (sp_IAT p)) = Some (sp_IAT p)" "ParseInt (itoa (sp_EXP p)) = Some (sp_EXP p)"
    using assms by (auto simp: payload_ok_def in_i64_def i64_min_def i64_max_def intro!: ParseInt_itoa)
  ultimately show ?thesis
    by (simp add: unmarshal_state_def field_values_def key_matches_fields)
qed

lemma length_marshal:
  "list_all json_safe (sp_SID p) \<Longrightarrow>
     length (marshal_state p) = 24 + length (sp_SID p) + length (itoa (sp_IAT p)) + length (itoa (sp_EXP p))"
  by (simp add: marshal_state_def json_quote_def escape_string_safe)

section \<open>The signed blob\<close>

context state_signer
begin

lemma decode_encode:
  assumes "payload_ok p" and "unix_seconds now \<le> sp_EXP p"
  shows "DecodeState now (EncodeState p sign) verify = Inr p"
  using assms
  by (simp add: DecodeState_def EncodeState_def Let_def raw_url.split_token raw_url.dec_enc verify_iff
      unmarshal_marshal)

lemma decode_only_signed:
  assumes "DecodeState now s verify = Inr p"
  obtains encoded data where "s = encoded @ ''.'' @ sign encoded" "DecodeString encoded = Some data"
    "unmarshal_state data = Some p" "unix_seconds now \<le> sp_EXP p" "CHR ''.'' \<notin> set encoded"
proof (cases rule: SplitN2_cases [of "CHR ''.''" s])
  case none
  with assms show ?thesis by (simp add: DecodeState_def)
next
  case (some a b)
  with assms that [of a] show ?thesis
    by (auto simp: DecodeState_def verify_iff split: if_splits option.splits)
qed

lemma encode_length:
  "list_all json_safe (sp_SID p) \<Longrightarrow>
     length (EncodeState p sign) =
       (4 * (24 + length (sp_SID p) + length (itoa (sp_IAT p)) + length (itoa (sp_EXP p))) + 2) div 3 + 44"
  by (simp add: EncodeState_def Let_def length_EncodeToString length_marshal sign_length)

lemma encode_symbols: "c \<in> set (EncodeState p sign) \<Longrightarrow> b64_symbol c \<or> c = CHR ''.''"
  by (auto simp: EncodeState_def Let_def dest: EncodeToString_symbols sign_symbols)

end

text \<open>
  C13: the state blob round trip. Whatever payload the handler signs (a session id of characters
  JSON leaves alone, times that are not negative), the callback server decodes it to the same
  payload as long as the blob has not expired.
\<close>

theorem state_roundtrip:
  assumes "payload_ok p" and "unix_seconds now \<le> sp_EXP p"
  shows "DecodeState now (EncodeState p (Sign k)) (Verify k) = Inr p"
  using assms by (rule static.decode_encode)

theorem state_roundtrip_witness:
  "DecodeState (1700000100 * time_second)
     (EncodeState \<lparr>sp_SID = ''q-_A1'', sp_IAT = 1700000000, sp_EXP = 1700000270\<rparr>
       (Sign \<lparr>signer_secret = ''0123456789abcdef''\<rparr>))
     (Verify \<lparr>signer_secret = ''0123456789abcdef''\<rparr>) =
   Inr \<lparr>sp_SID = ''q-_A1'', sp_IAT = 1700000000, sp_EXP = 1700000270\<rparr>"
  by (rule state_roundtrip)
     (simp_all add: payload_ok_def json_safe_def byte_def i64_max_def unix_seconds_def i64_def
       time_second_def)

text \<open>
  C11: a state blob is accepted exactly when it is an encoding followed by the MAC the server's key
  gives for that very encoding, the encoding decodes to the payload and the payload has not
  expired. No byte of the blob can change without the MAC of the changed text. The issue time \<open>iat\<close>
  plays no part: a signed blob from the future is accepted.
\<close>

theorem state_accepted_iff_signed:
  "DecodeState now s (Verify k) = Inr p \<longleftrightarrow>
     (\<exists>encoded data. s = encoded @ ''.'' @ Sign k encoded \<and> CHR ''.'' \<notin> set encoded \<and>
        DecodeString encoded = Some data \<and> unmarshal_state data = Some p \<and>
        unix_seconds now \<le> sp_EXP p)"
proof
  show "DecodeState now s (Verify k) = Inr p"
    if "\<exists>encoded data. s = encoded @ ''.'' @ Sign k encoded \<and> CHR ''.'' \<notin> set encoded \<and>
        DecodeString encoded = Some data \<and> unmarshal_state data = Some p \<and>
        unix_seconds now \<le> sp_EXP p"
    using that by (auto simp: DecodeState_def Verify_def)
qed (metis static.decode_only_signed)

text \<open>
  The issue time of a state is signed but not checked: a state that claims to be issued at any later
  time is accepted until it expires.
\<close>

theorem state_issue_time_unchecked:
  assumes "payload_ok p" and "unix_seconds now \<le> sp_EXP p" and "unix_seconds now < sp_IAT p"
  shows "DecodeState now (EncodeState p (Sign k)) (Verify k) = Inr p"
  using assms(1,2) by (rule static.decode_encode)

text \<open>
  The length of a state blob, and that it holds only base64url characters and the dot, so it
  needs no escaping in a URL. A 22-character session id (16 random bytes) and ten-digit times give
  132 bytes.
\<close>

theorem state_blob_shape:
  assumes "list_all json_safe (sp_SID p)"
  shows "length (EncodeState p (Sign k)) =
      (4 * (24 + length (sp_SID p) + length (itoa (sp_IAT p)) + length (itoa (sp_EXP p))) + 2) div 3 + 44
    \<and> list_all (\<lambda>c. b64_symbol c \<or> c = CHR ''.'') (EncodeState p (Sign k))"
  using static.encode_length [OF assms] static.encode_symbols unfolding list_all_iff by blast

theorem state_blob_shape_witness:
  "length (EncodeState \<lparr>sp_SID = ''AAAAAAAAAAAAAAAAAAAAAA'', sp_IAT = 1700000000, sp_EXP = 1700000270\<rparr>
     (Sign \<lparr>signer_secret = ''0123456789abcdef''\<rparr>)) = 132"
proof -
  let ?p = "\<lparr>sp_SID = ''AAAAAAAAAAAAAAAAAAAAAA'', sp_IAT = 1700000000, sp_EXP = 1700000270\<rparr>"
  have "list_all json_safe (sp_SID ?p)" by (simp add: json_safe_def byte_def)
  from state_blob_shape [OF this, of "\<lparr>signer_secret = ''0123456789abcdef''\<rparr>"]
  show ?thesis by (simp add: itoa_def nat_digits.simps)
qed

end
