(* ===== verification/Config.thy ===== *)
theory Config
  imports GoStrings
begin

text \<open>
  \<open>internal/config/config.go\<close>: the daemon's configuration, the readers of environment variables
  and \<open>Validate\<close>, whose error lists every problem found, in the order of the checks. The notices
  it logs do not affect the result, except the URL-length warning, whose condition is kept as
  \<open>url_warning\<close>.
\<close>

record config =
  ManagementSocket :: string
  ManagementPasswordFile :: string
  HMACSecret :: string
  HMACSecretSecretID :: string
  RequiredGroup :: string
  CNCrossCheck :: bool
  HandWindow :: duration
  ReconnectMaxInterval :: duration
  ShutdownGracePeriod :: duration
  CheckRequiredGroupOnReauth :: bool
  ReauthCache :: bool
  ReauthTimeout :: duration
  RenegInterval :: duration
  InstanceID :: string
  AuthTimeout :: duration
  CallbackPort :: int
  CallbackURL :: string
  ALBARN :: string
  CognitoSkipReauth :: bool
  GroupsSource :: string
  GroupsClaim :: string
  CognitoIssuerURL :: string
  CognitoUserPoolID :: string
  ALBPublicKeyBaseURL :: string
  AWSRegion :: string
  EMFMetrics :: bool
  EMFInterval :: duration
  LogFormat :: string
  ManagementRawLog :: bool
  MaxSessionDuration :: duration
  TemplatesDir :: string
  ServerName :: string
  ShowVersion :: bool
  OIDCDebugClaims :: bool

definition GroupsSourceCognitoAPI :: string where "GroupsSourceCognitoAPI = ''cognito-api''"
definition GroupsSourceJWTClaim :: string where "GroupsSourceJWTClaim = ''jwt-claim''"

definition validGroupsSources :: "string list" where
  "validGroupsSources = [GroupsSourceCognitoAPI, GroupsSourceJWTClaim]"

fun member_loop :: "string \<Rightarrow> string list \<Rightarrow> bool" where
  "member_loop s [] = False"
| "member_loop s (v # vs) = (if s = v then True else member_loop s vs)"

definition isValidGroupsSource :: "string \<Rightarrow> bool" where
  "isValidGroupsSource s = member_loop s validGroupsSources"

datatype config_problem =
    ManagementSocketRequired
  | ManagementPasswordFileRequired
  | CallbackURLRequired
  | CallbackURLNotHTTPS
  | PoolRequiredForALB
  | IssuerRequiredForALB
  | PoolRequiredForGroup
  | PoolRequiredForReauthGroup
  | BadGroupsSource string
  | JWTClaimWithReauthCheck
  | GroupsClaimRequired
  | HandWindowNotPositive
  | AuthTimeoutNotPositive
  | ReconnectNotPositive
  | BadLogFormat string
  | AuthTimeoutTooLong
  | MaxSessionTooShort
  | HMACSecretTooShort nat
  | HMACSecretsExclusive
  | SecretIDWhitespace
  | BadCallbackPort int

definition problem_if :: "bool \<Rightarrow> config_problem \<Rightarrow> config_problem list" where
  "problem_if b p = (if b then [p] else [])"

definition default_groups_source :: "config \<Rightarrow> config" where
  "default_groups_source c =
     (if GroupsSource c = '''' then c\<lparr>GroupsSource := GroupsSourceCognitoAPI\<rparr> else c)"

definition problems_of :: "config \<Rightarrow> config_problem list" where
  "problems_of c =
     problem_if (ManagementSocket c = '''') ManagementSocketRequired
   @ problem_if (ManagementPasswordFile c = '''') ManagementPasswordFileRequired
   @ (if CallbackURL c = '''' then [CallbackURLRequired]
      else if \<not> HasPrefix (CallbackURL c) ''https://'' then problem_if (ALBARN c \<noteq> '''') CallbackURLNotHTTPS
      else [])
   @ (if ALBARN c \<noteq> '''' then
        problem_if (CognitoUserPoolID c = '''') PoolRequiredForALB
        @ problem_if (CognitoIssuerURL c = '''') IssuerRequiredForALB
      else [])
   @ problem_if (CognitoUserPoolID c = '''' \<and> GroupsSource c = GroupsSourceCognitoAPI \<and> RequiredGroup c \<noteq> '''')
       PoolRequiredForGroup
   @ problem_if (CognitoUserPoolID c = '''' \<and> RequiredGroup c \<noteq> '''' \<and> CheckRequiredGroupOnReauth c)
       PoolRequiredForReauthGroup
   @ problem_if (\<not> isValidGroupsSource (GroupsSource c)) (BadGroupsSource (GroupsSource c))
   @ (if GroupsSource c = GroupsSourceJWTClaim then
        problem_if (CheckRequiredGroupOnReauth c) JWTClaimWithReauthCheck
        @ problem_if (GroupsClaim c = '''') GroupsClaimRequired
      else [])
   @ problem_if (HandWindow c \<le> 0) HandWindowNotPositive
   @ problem_if (AuthTimeout c \<le> 0) AuthTimeoutNotPositive
   @ problem_if (ReconnectMaxInterval c \<le> 0) ReconnectNotPositive
   @ problem_if (LogFormat c \<noteq> ''text'' \<and> LogFormat c \<noteq> ''json'') (BadLogFormat (LogFormat c))
   @ problem_if (HandWindow c \<le> AuthTimeout c) AuthTimeoutTooLong
   @ problem_if (MaxSessionDuration c \<noteq> 0 \<and> MaxSessionDuration c < time_minute) MaxSessionTooShort
   @ problem_if (HMACSecret c \<noteq> '''' \<and> length (HMACSecret c) < 16) (HMACSecretTooShort (length (HMACSecret c)))
   @ problem_if (HMACSecret c \<noteq> '''' \<and> HMACSecretSecretID c \<noteq> '''') HMACSecretsExclusive
   @ problem_if (TrimSpace (HMACSecretSecretID c) \<noteq> HMACSecretSecretID c) SecretIDWhitespace
   @ problem_if (CallbackPort c < 1 \<or> 65535 < CallbackPort c) (BadCallbackPort (CallbackPort c))"

definition url_warning :: "config \<Rightarrow> bool" where
  "url_warning c \<longleftrightarrow> CallbackURL c \<noteq> '''' \<and> 229 < 9 + length (CallbackURL c) + 7 + 128"

text \<open>\<open>Validate\<close> has a value receiver: the default for \<open>GroupsSource\<close> is set on a copy.\<close>

definition Validate :: "config \<Rightarrow> config_problem list + unit" where
  "Validate c =
     (let problems = problems_of (default_groups_source c)
      in if problems \<noteq> [] then Inl problems else Inr ())"

section \<open>Environment variables\<close>

text \<open>\<open>os.Getenv\<close> as a function (unset and empty read the same). A reader returns the value and
  the names of the variables collected as invalid, in order.\<close>

definition getenv :: "(string \<Rightarrow> string) \<Rightarrow> string \<Rightarrow> string \<Rightarrow> string" where
  "getenv env key fallback = (let v = env key in if v \<noteq> '''' then v else fallback)"

datatype env_error = InvalidBool string string | InvalidDuration string string | InvalidInt string string
  | RemovedVariable string

definition getBoolOrCollect ::
  "(nat \<Rightarrow> nat) \<Rightarrow> (string \<Rightarrow> string) \<Rightarrow> string \<Rightarrow> bool \<Rightarrow> env_error list \<Rightarrow> bool \<times> env_error list" where
  "getBoolOrCollect uc env key fallback errs =
     (let v = TrimSpace (env key) in
      if v = '''' then (fallback, errs)
      else if ToLower uc v \<in> set [''1'', ''true'', ''yes'', ''on''] then (True, errs)
      else if ToLower uc v \<in> set [''0'', ''false'', ''no'', ''off''] then (False, errs)
      else (fallback, errs @ [InvalidBool key v]))"

section \<open>What a valid configuration guarantees\<close>

lemma set_problem_if [simp]: "problem_if b p = [] \<longleftrightarrow> \<not> b"
  by (simp add: problem_if_def)

lemma member_loop_iff: "member_loop s vs \<longleftrightarrow> s \<in> set vs"
  by (induction vs) auto

lemma Validate_ok: "Validate c = Inr () \<longleftrightarrow> problems_of (default_groups_source c) = []"
  by (simp add: Validate_def Let_def)

definition group_source_ready :: "config \<Rightarrow> bool" where
  "group_source_ready c \<longleftrightarrow>
     (if GroupsSource c = GroupsSourceJWTClaim then GroupsClaim c \<noteq> '''' \<and> \<not> CheckRequiredGroupOnReauth c
      else GroupsSource c \<in> {'''', GroupsSourceCognitoAPI} \<and>
           (RequiredGroup c \<noteq> '''' \<longrightarrow> CognitoUserPoolID c \<noteq> ''''))"

definition production_ready :: "config \<Rightarrow> bool" where
  "production_ready c \<longleftrightarrow>
     HasPrefix (CallbackURL c) ''https://'' \<and> CognitoUserPoolID c \<noteq> '''' \<and> CognitoIssuerURL c \<noteq> ''''"

text \<open>
  A configuration that \<open>Validate\<close> accepts. The WebAuth timeout is positive and ends before
  OpenVPN's own; a session limit is absent or at least a minute; when the ALB signer is configured
  the callback is HTTPS and the user pool and the issuer are set, so no token of another pool is
  accepted; the required group always has a source that can answer for it, and a group check at
  re-authentication is never combined with the JWT source, which has no token then.
\<close>

theorem valid_config_guarantees:
  assumes "Validate c = Inr ()"
  shows "0 < AuthTimeout c \<and> AuthTimeout c < HandWindow c \<and> 0 < ReconnectMaxInterval c \<and>
     (MaxSessionDuration c = 0 \<or> time_minute \<le> MaxSessionDuration c) \<and>
     (ALBARN c \<noteq> '''' \<longrightarrow> production_ready c) \<and> group_source_ready c \<and>
     (HMACSecret c = '''' \<or> 16 \<le> length (HMACSecret c) \<and> HMACSecretSecretID c = '''') \<and>
     1 \<le> CallbackPort c \<and> CallbackPort c \<le> 65535"
  using assms unfolding Validate_ok problems_of_def default_groups_source_def
  by (auto simp: production_ready_def group_source_ready_def isValidGroupsSource_def member_loop_iff
      validGroupsSources_def GroupsSourceCognitoAPI_def GroupsSourceJWTClaim_def split: if_splits)

definition sample_config :: config where
  "sample_config =
     \<lparr>ManagementSocket = ''/run/mgmt.sock'', ManagementPasswordFile = ''/etc/mgmt-pw'',
      HMACSecret = ''0123456789abcdef'', HMACSecretSecretID = '''', RequiredGroup = ''vpn'', CNCrossCheck = True,
      HandWindow = 300 * time_second, ReconnectMaxInterval = 5 * time_second,
      ShutdownGracePeriod = 300 * time_second, CheckRequiredGroupOnReauth = True, ReauthCache = True,
      ReauthTimeout = 5 * time_second, RenegInterval = 3600 * time_second, InstanceID = ''i-1'',
      AuthTimeout = 270 * time_second, CallbackPort = 8080, CallbackURL = ''https://v.example/cb'',
      ALBARN = ''arn:alb'', CognitoSkipReauth = False, GroupsSource = ''cognito-api'', GroupsClaim = '''',
      CognitoIssuerURL = ''https://issuer'', CognitoUserPoolID = ''pool'', ALBPublicKeyBaseURL = '''',
      AWSRegion = ''eu-west-1'', EMFMetrics = False, EMFInterval = 10 * time_second, LogFormat = ''text'',
      ManagementRawLog = False, MaxSessionDuration = 28800 * time_second, TemplatesDir = '''',
      ServerName = '''', ShowVersion = False, OIDCDebugClaims = False\<rparr>"

lemma sample_config_valid: "Validate sample_config = Inr ()"
  by code_simp

theorem valid_config_guarantees_witness:
  "production_ready sample_config \<and> group_source_ready sample_config"
  using valid_config_guarantees [OF sample_config_valid] by (simp add: sample_config_def)

end
