(* ===== verification/Identity.thy ===== *)
theory Identity
  imports GoStrings
begin

text \<open>
  \<open>internal/auth/identity.go\<close> and \<open>internal/auth/cache.go\<close>: the case-insensitive ownership key of
  a common name, and the cache of identity checks that bridges an outage of the identity provider
  at re-authentication. \<open>uc\<close> is the lower-case table of the \<open>unicode\<close> package beyond ASCII.
\<close>

datatype identity_error = IdentityEmpty | IdentityNotUTF8 | IdentityWhitespace

definition NormalizeIdentity :: "(nat \<Rightarrow> nat) \<Rightarrow> string \<Rightarrow> identity_error + string" where
  "NormalizeIdentity uc value =
     (if value = '''' then Inl IdentityEmpty
      else if \<not> ValidString value then Inl IdentityNotUTF8
      else if TrimSpace value \<noteq> value then Inl IdentityWhitespace
      else Inr (ToLower uc value))"

lemma NormalizeIdentity_ne: "NormalizeIdentity uc v = Inr i \<Longrightarrow> v \<noteq> ''''"
  by (auto simp: NormalizeIdentity_def)

record identity_result =
  ir_Exists :: bool
  ir_Enabled :: bool
  ir_InGroup :: bool
  ir_CheckedAt :: gotime
  ir_FailureCause :: string

section \<open>The reauth cache\<close>

record reauth_cache =
  rc_entries :: "(string, identity_result) fmap"
  rc_ttl :: duration

definition NewReauthCache :: "duration \<Rightarrow> reauth_cache" where
  "NewReauthCache ttl = \<lparr>rc_entries = fmempty, rc_ttl = ttl\<rparr>"

text \<open>
  \<open>Get\<close> takes the read lock, then the write lock for an expired entry and looks again, since
  another goroutine may have refreshed it in between: \<open>cache_read\<close> and \<open>cache_purge\<close> are the two
  critical sections, and \<open>cache_Get\<close> runs them with nothing in between.
\<close>

definition cache_read :: "gotime \<Rightarrow> string \<Rightarrow> reauth_cache \<Rightarrow> identity_result option" where
  "cache_read now key c =
     (case fmlookup (rc_entries c) key of
        None \<Rightarrow> None
      | Some r \<Rightarrow> if rc_ttl c < time_Since now (ir_CheckedAt r) then None else Some r)"

definition cache_purge :: "gotime \<Rightarrow> string \<Rightarrow> reauth_cache \<Rightarrow> reauth_cache" where
  "cache_purge now key c =
     (case fmlookup (rc_entries c) key of
        None \<Rightarrow> c
      | Some r \<Rightarrow>
          if rc_ttl c < time_Since now (ir_CheckedAt r)
          then c\<lparr>rc_entries := fmdrop key (rc_entries c)\<rparr> else c)"

definition cache_Get :: "gotime \<Rightarrow> string \<Rightarrow> reauth_cache \<Rightarrow> identity_result option \<times> reauth_cache" where
  "cache_Get now key c = (cache_read now key c, cache_purge now key c)"

definition cache_Put :: "string \<Rightarrow> identity_result \<Rightarrow> reauth_cache \<Rightarrow> reauth_cache" where
  "cache_Put key r c = c\<lparr>rc_entries := fmupd key r (rc_entries c)\<rparr>"

lemma cache_purge_ttl [simp]: "rc_ttl (cache_purge now key c) = rc_ttl c"
  by (simp add: cache_purge_def split: option.splits)

lemma cache_purge_lookup:
  "fmlookup (rc_entries (cache_purge now key c)) k =
     (if k = key then cache_read now key c else fmlookup (rc_entries c) k)"
  by (auto simp: cache_purge_def cache_read_def split: option.splits)

datatype cache_op = CPut string identity_result | CGet gotime string

fun cache_apply :: "reauth_cache \<Rightarrow> cache_op \<Rightarrow> reauth_cache" where
  "cache_apply c (CPut k r) = cache_Put k r c"
| "cache_apply c (CGet t k) = snd (cache_Get t k c)"

text \<open>The reference: the last result written for a key, and the time of a read.\<close>

fun last_put :: "string \<Rightarrow> identity_result option \<Rightarrow> cache_op list \<Rightarrow> identity_result option" where
  "last_put k acc [] = acc"
| "last_put k acc (CPut k' r # ops) = last_put k (if k' = k then Some r else acc) ops"
| "last_put k acc (CGet _ _ # ops) = last_put k acc ops"

fun read_by :: "gotime \<Rightarrow> cache_op \<Rightarrow> bool" where
  "read_by now (CGet t k) = (t \<le> now)"
| "read_by now (CPut k r) = True"

definition fresh_at :: "gotime \<Rightarrow> duration \<Rightarrow> identity_result \<Rightarrow> bool" where
  "fresh_at now ttl r \<longleftrightarrow> time_Since now (ir_CheckedAt r) \<le> ttl"

lemma fresh_earlier: "t \<le> now \<Longrightarrow> fresh_at now ttl r \<Longrightarrow> fresh_at t ttl r"
  by (auto simp: fresh_at_def time_Since_def sat64_def)

lemma cache_read_fresh:
  "cache_read now k c =
     (case fmlookup (rc_entries c) k of
        None \<Rightarrow> None
      | Some r \<Rightarrow> if fresh_at now (rc_ttl c) r then Some r else None)"
  by (simp add: cache_read_def fresh_at_def split: option.splits)

lemma cache_ttl: "rc_ttl (cache_apply c x) = rc_ttl c"
  by (cases x) (simp_all add: cache_Put_def cache_Get_def)

lemma cache_read_apply:
  "read_by now x \<Longrightarrow>
     cache_read now k (cache_apply c x) =
       (case x of CPut k' r \<Rightarrow> if k' = k then (if fresh_at now (rc_ttl c) r then Some r else None)
                               else cache_read now k c
                | CGet t k' \<Rightarrow> cache_read now k c)"
  by (cases x)
     (auto simp: cache_read_fresh cache_Put_def cache_Get_def cache_purge_lookup
       dest: fresh_earlier split: option.splits)

lemma cache_read_ops:
  assumes "list_all (read_by now) ops"
    and "cache_read now k c = Option.bind acc (\<lambda>r. if fresh_at now (rc_ttl c) r then Some r else None)"
  shows "cache_read now k (foldl cache_apply c ops) =
    Option.bind (last_put k acc ops) (\<lambda>r. if fresh_at now (rc_ttl c) r then Some r else None)"
  using assms
proof (induction ops arbitrary: c acc)
  case (Cons x ops)
  then have "read_by now x" and ops: "list_all (read_by now) ops" by simp_all
  then have "cache_read now k (cache_apply c x) =
      Option.bind (last_put k acc [x])
        (\<lambda>r. if fresh_at now (rc_ttl (cache_apply c x)) r then Some r else None)"
    using Cons.prems(2) by (cases x) (simp_all add: cache_read_apply cache_ttl del: cache_apply.simps)
  from Cons.IH [OF ops this] show ?case
    by (cases x) (simp_all add: cache_ttl del: cache_apply.simps)
qed simp

text \<open>
  What the cache answers after any sequence of writes and of reads that purge, the reads no
  later than \<open>now\<close>. It returns the last result written for the key if that is no older than the
  time to live, and nothing otherwise: a stale verdict is never served, and no read, of this or
  of another key, loses a fresh one.
\<close>

theorem cache_serves_last_fresh:
  assumes "list_all (read_by now) ops"
  shows "fst (cache_Get now k (foldl cache_apply (NewReauthCache ttl) ops)) =
    (case last_put k None ops of
       None \<Rightarrow> None
     | Some r \<Rightarrow> if time_Since now (ir_CheckedAt r) \<le> ttl then Some r else None)"
proof -
  have "cache_read now k (NewReauthCache ttl) = None"
    by (simp add: cache_read_def NewReauthCache_def)
  with cache_read_ops [OF assms, of k "NewReauthCache ttl" None] show ?thesis
    by (simp add: cache_Get_def NewReauthCache_def fresh_at_def split: option.splits)
qed

theorem cache_serves_last_fresh_witness:
  "fst (cache_Get 50 ''alice''
     (foldl cache_apply (NewReauthCache 30)
       [CPut ''alice'' \<lparr>ir_Exists = True, ir_Enabled = True, ir_InGroup = False, ir_CheckedAt = 0, ir_FailureCause = ''''\<rparr>,
        CGet 40 ''alice'',
        CPut ''alice'' \<lparr>ir_Exists = True, ir_Enabled = True, ir_InGroup = True, ir_CheckedAt = 20, ir_FailureCause = ''''\<rparr>,
        CGet 45 ''bob''])) =
   Some \<lparr>ir_Exists = True, ir_Enabled = True, ir_InGroup = True, ir_CheckedAt = 20, ir_FailureCause = ''''\<rparr>"
  by (subst cache_serves_last_fresh)
     (simp_all add: time_Since_def sat64_def i64_min_def i64_max_def)

end
