(* ===== verification/Handler.thy ===== *)
theory Handler
  imports Mgmt Sessions State Config Identity
begin

text \<open>
  \<open>internal/auth/handler.go\<close> and the decision types of \<open>types.go\<close>: the state machine that decides
  on every management event.

  The handler's fields are a record; its maps are finite maps, read with Go's zero value. A
  \<open>context.CancelFunc\<close> is the number of the context it cancels, and the contexts cancelled so far
  are a field. Goroutines started with \<open>go\<close> are appended to \<open>h_tasks\<close>; their bodies are operations
  of their own, whose \<open>select\<close> outcome is an argument. Everything the handler does to the outside
  (decisions sent, metrics, status queries, identity checks, random draws) is appended to the trace
  \<open>h_out\<close>, and the answers the outside gives are functions of that trace in the record \<open>environ\<close>,
  so an environment may answer differently every time. Log lines are not modelled.

  The mutex: what the code does between \<open>h.mu.Lock()\<close> and \<open>h.mu.Unlock()\<close> is a definition of its
  own wherever the operation goes on after the unlock, so that the interleavings of goroutines can
  be stated over these critical sections (theory \<open>Ownership\<close>).
\<close>

section \<open>Decisions, metrics and the trace\<close>

datatype decision_type =
  DecisionAllow | DecisionAllowNT | DecisionDeny | DecisionPending | DecisionKill

record decision =
  d_Type :: decision_type
  d_CID :: string
  d_KID :: string
  d_Reason :: string
  d_KillMode :: string
  d_URL :: string
  d_Timeout :: int

definition mk_decision :: "decision_type \<Rightarrow> string \<Rightarrow> string \<Rightarrow> decision" where
  "mk_decision t cid kid =
     \<lparr>d_Type = t, d_CID = cid, d_KID = kid, d_Reason = '''', d_KillMode = '''', d_URL = '''', d_Timeout = 0\<rparr>"

definition deny :: "string \<Rightarrow> string \<Rightarrow> string \<Rightarrow> decision" where
  "deny cid kid reason = (mk_decision DecisionDeny cid kid)\<lparr>d_Reason := reason\<rparr>"

definition allow_nt :: "string \<Rightarrow> string \<Rightarrow> decision" where
  "allow_nt cid kid = mk_decision DecisionAllowNT cid kid"

definition kill :: "string \<Rightarrow> string \<Rightarrow> decision" where
  "kill cid mode = (mk_decision DecisionKill cid '''')\<lparr>d_KillMode := mode\<rparr>"

definition pending :: "string \<Rightarrow> string \<Rightarrow> string \<Rightarrow> int \<Rightarrow> decision" where
  "pending cid kid url timeout = (mk_decision DecisionPending cid kid)\<lparr>d_URL := url, d_Timeout := timeout\<rparr>"

datatype metric =
    AuthAttempt string
  | AuthSuccess
  | AuthDenied string
  | ReauthSuccess
  | ReauthDenied string
  | ReauthCacheHit
  | CallbackReceived
  | CallbackRejected string
  | TokenExchangeError string
  | SessionExpired string

text \<open>A sink is a \<open>DecisionSink\<close>; \<open>sink_acks\<close> says whether it is an \<open>AckDecisionSink\<close> too.\<close>

datatype sink = Sink (sink_id: nat) (sink_acks: bool)

datatype ctx = Background | Root nat | CancelCtx ctx nat

datatype goroutine =
    GAuthTimeout ctx pending_session sink
  | GPromotedDeadline ctx string gotime
  | GSessionExpiry ctx string duration
  | GReauth ctx event sink

datatype effect =
    OSend sink decision
  | OSendAck sink decision
  | OMetric metric
  | OStatus
  | OCheckUser string string bool
  | ORand nat

record environ =
  e_uc :: "nat \<Rightarrow> nat"
  e_now :: "effect list \<Rightarrow> gotime"
  e_rand :: "effect list \<Rightarrow> string option"
  e_send :: "effect list \<Rightarrow> string option"
  e_status :: "effect list \<Rightarrow> string + status_snapshot"
  e_check :: "effect list \<Rightarrow> string + identity_result"

section \<open>The handler's state\<close>

record session_expiry =
  se_connectedAt :: gotime
  se_cancel :: nat

record cid_state =
  cs_cancel :: "nat option"
  cs_sid :: string
  cs_cn :: string
  cs_identity :: string
  cs_kid :: string
  cs_connectAt :: gotime
  cs_expiry :: "session_expiry option"
  cs_promoted :: bool
  cs_promotedCancel :: "nat option"
  cs_established :: bool
  cs_evictionRequested :: bool
  cs_cognitoUsername :: string

definition zero_cid_state :: cid_state where
  "zero_cid_state =
     \<lparr>cs_cancel = None, cs_sid = '''', cs_cn = '''', cs_identity = '''', cs_kid = '''',
      cs_connectAt = time_zero, cs_expiry = None, cs_promoted = False, cs_promotedCancel = None,
      cs_established = False, cs_evictionRequested = False, cs_cognitoUsername = ''''\<rparr>"

record handler =
  h_cfg :: config
  h_sessions :: session_store
  h_signer :: static_signer
  h_cache :: "reauth_cache option"
  h_timeoutSink :: "sink option"
  h_lifecycleCtx :: "ctx option"
  h_cids :: "(string, cid_state) fmap"
  h_active :: "(string, string) fmap" \<comment> \<open>\<open>identityToActiveCID\<close>\<close>
  h_attempt :: "(string, string) fmap" \<comment> \<open>\<open>identityToAttemptCID\<close>\<close>
  h_liveSink :: "sink option"
  h_statusProvider :: bool
  h_promotedRecheckDelay :: duration
  h_cancelled :: "nat fset"
  h_next :: nat
  h_tasks :: "goroutine list"
  h_out :: "effect list"

definition NewHandler :: "config \<Rightarrow> session_store \<Rightarrow> static_signer \<Rightarrow> handler" where
  "NewHandler cfg sessions signer =
     \<lparr>h_cfg = cfg, h_sessions = sessions, h_signer = signer,
      h_cache = (if ReauthCache cfg then Some (NewReauthCache (i64 (RenegInterval cfg + 10 * time_minute)))
                 else None),
      h_timeoutSink = None, h_lifecycleCtx = None, h_cids = fmempty, h_active = fmempty,
      h_attempt = fmempty, h_liveSink = None, h_statusProvider = False,
      h_promotedRecheckDelay = 5 * time_second, h_cancelled = {||}, h_next = 0, h_tasks = [], h_out = []\<rparr>"

definition SetTimeoutSink :: "sink \<Rightarrow> handler \<Rightarrow> handler" where
  "SetTimeoutSink s h = h\<lparr>h_timeoutSink := Some s\<rparr>"

definition SetLifecycleContext :: "ctx \<Rightarrow> handler \<Rightarrow> handler" where
  "SetLifecycleContext c h = h\<lparr>h_lifecycleCtx := Some c\<rparr>"

definition SetLiveSink :: "sink \<Rightarrow> handler \<Rightarrow> handler" where
  "SetLiveSink s h = h\<lparr>h_liveSink := Some s\<rparr>"

definition ClearLiveSink :: "handler \<Rightarrow> handler" where
  "ClearLiveSink h = h\<lparr>h_liveSink := None\<rparr>"

definition SetStatusProvider :: "handler \<Rightarrow> handler" where
  "SetStatusProvider h = h\<lparr>h_statusProvider := True\<rparr>"

definition ClearStatusProvider :: "handler \<Rightarrow> handler" where
  "ClearStatusProvider h = h\<lparr>h_statusProvider := False\<rparr>"

definition InFlight :: "handler \<Rightarrow> nat" where
  "InFlight h = fcard (fmdom (fmfilter
     (\<lambda>cid. case fmlookup (h_cids h) cid of None \<Rightarrow> False | Some st \<Rightarrow> cs_cancel st \<noteq> None) (h_cids h)))"

section \<open>Effects\<close>

definition emit :: "effect \<Rightarrow> handler \<Rightarrow> handler" where
  "emit x h = h\<lparr>h_out := h_out h @ [x]\<rparr>"

definition metric :: "metric \<Rightarrow> handler \<Rightarrow> handler" where
  "metric m h = emit (OMetric m) h"

definition spawn :: "goroutine \<Rightarrow> handler \<Rightarrow> handler" where
  "spawn g h = h\<lparr>h_tasks := h_tasks h @ [g]\<rparr>"

text \<open>\<open>sendOrLog\<close>: the error of \<open>Send\<close> is only logged.\<close>

definition sendOrLog :: "sink \<Rightarrow> decision \<Rightarrow> handler \<Rightarrow> handler" where
  "sendOrLog s d h = emit (OSend s d) h"

text \<open>\<open>SendAck\<close> on a sink that has it, \<open>Send\<close> otherwise, with the error returned.\<close>

definition send_decision :: "environ \<Rightarrow> sink \<Rightarrow> decision \<Rightarrow> handler \<Rightarrow> string option \<times> handler" where
  "send_decision e s d h =
     (let h1 = emit (if sink_acks s then OSendAck s d else OSend s d) h in (e_send e (h_out h1), h1))"

definition query_status :: "environ \<Rightarrow> handler \<Rightarrow> (string + status_snapshot) \<times> handler" where
  "query_status e h = (let h1 = emit OStatus h in (e_status e (h_out h1), h1))"

definition time_now :: "environ \<Rightarrow> handler \<Rightarrow> gotime" where
  "time_now e h = e_now e (h_out h)"

definition cancel_ctx :: "nat \<Rightarrow> handler \<Rightarrow> handler" where
  "cancel_ctx n h = h\<lparr>h_cancelled := finsert n (h_cancelled h)\<rparr>"

definition cancel_opt :: "nat option \<Rightarrow> handler \<Rightarrow> handler" where
  "cancel_opt c h = (case c of None \<Rightarrow> h | Some n \<Rightarrow> cancel_ctx n h)"

definition with_cancel :: "ctx \<Rightarrow> handler \<Rightarrow> ctx \<times> nat \<times> handler" where
  "with_cancel p h = (CancelCtx p (h_next h), h_next h, h\<lparr>h_next := Suc (h_next h)\<rparr>)"

fun ctx_done :: "nat fset \<Rightarrow> ctx \<Rightarrow> bool" where
  "ctx_done cs Background = False"
| "ctx_done cs (Root n) = (n |\<in>| cs)"
| "ctx_done cs (CancelCtx p n) = (n |\<in>| cs \<or> ctx_done cs p)"

definition base_ctx :: "handler \<Rightarrow> ctx" where
  "base_ctx h = (case h_lifecycleCtx h of None \<Rightarrow> Background | Some c \<Rightarrow> c)"

definition adjust_cid :: "string \<Rightarrow> (cid_state \<Rightarrow> cid_state) \<Rightarrow> handler \<Rightarrow> handler" where
  "adjust_cid cid f h = h\<lparr>h_cids := fmadjust cid f (h_cids h)\<rparr>"

text \<open>\<open>if m[identity] == cid { delete(m, identity) }\<close>.\<close>

definition release :: "string \<Rightarrow> string \<Rightarrow> (string, string) fmap \<Rightarrow> (string, string) fmap" where
  "release identity cid m = (if getz m identity = cid then fmdrop identity m else m)"

definition generateRandomToken :: "environ \<Rightarrow> nat \<Rightarrow> handler \<Rightarrow> string option \<times> handler" where
  "generateRandomToken e n h =
     (let h1 = emit (ORand n) h in (map_option EncodeToString (e_rand e (h_out h1)), h1))"

text \<open>The outcome of a \<open>select\<close> between a context and a timer.\<close>

datatype selected = CtxDone | TimerFired

section \<open>Removing a connection\<close>

text \<open>The critical section of \<open>handleDisconnect\<close> and \<open>evictSession\<close>.\<close>

definition untrack :: "string \<Rightarrow> handler \<Rightarrow> handler" where
  "untrack cid h =
     (case fmlookup (h_cids h) cid of
        None \<Rightarrow> h
      | Some st \<Rightarrow>
          h\<lparr>h_cids := fmdrop cid (h_cids h),
            h_active := release (cs_identity st) cid (h_active h),
            h_attempt := release (cs_identity st) cid (h_attempt h)\<rparr>)"

definition delete_session :: "string \<Rightarrow> handler \<Rightarrow> handler" where
  "delete_session sid h = (if sid \<noteq> '''' then h\<lparr>h_sessions := Delete sid (h_sessions h)\<rparr> else h)"

definition stop_all :: "cid_state \<Rightarrow> handler \<Rightarrow> handler" where
  "stop_all st h =
     delete_session (cs_sid st)
       (cancel_opt (cs_promotedCancel st)
         (cancel_opt (map_option se_cancel (cs_expiry st)) (cancel_opt (cs_cancel st) h)))"

definition handleDisconnect :: "string \<Rightarrow> handler \<Rightarrow> handler" where
  "handleDisconnect cid h =
     (case fmlookup (h_cids h) cid of
        None \<Rightarrow> h
      | Some st \<Rightarrow> stop_all st (untrack cid h))"

definition evictSession :: "string \<Rightarrow> handler \<Rightarrow> decision option \<times> handler" where
  "evictSession cid h =
     (case fmlookup (h_cids h) cid of
        None \<Rightarrow> (None, h)
      | Some st \<Rightarrow>
          let h1 = stop_all st (untrack cid h) in
          if cs_cancel st = None \<and> cs_cn st = '''' then (None, h1)
          else if cs_cancel st \<noteq> None then (Some (deny cid (cs_kid st) ''replaced by new connection''), h1)
          else (Some (kill cid ''HALT''), h1))"

definition cleanupPromoted :: "string \<Rightarrow> handler \<Rightarrow> handler" where
  "cleanupPromoted cid h =
     (case fmlookup (h_cids h) cid of
        None \<Rightarrow> h
      | Some st \<Rightarrow>
          if \<not> cs_promoted st then h
          else cancel_opt (cs_promotedCancel st)
            (h\<lparr>h_cids := fmdrop cid (h_cids h),
               h_attempt := release (cs_identity st) cid (h_attempt h)\<rparr>))"

definition clearInFlight :: "string \<Rightarrow> handler \<Rightarrow> handler" where
  "clearInFlight cid h =
     (case fmlookup (h_cids h) cid of
        None \<Rightarrow> h
      | Some st \<Rightarrow>
          h\<lparr>h_cids := fmupd cid (st\<lparr>cs_cancel := None, cs_sid := ''''\<rparr>) (h_cids h),
            h_attempt := (if \<not> cs_promoted st then release (cs_identity st) cid (h_attempt h)
                          else h_attempt h)\<rparr>)"

section \<open>Expiry timers\<close>

text \<open>The context is created before the lock is taken; for a CID that is gone it is cancelled at
  once, so the timer goroutine started on it returns.\<close>

definition replaceExpiryState :: "string \<Rightarrow> gotime \<Rightarrow> handler \<Rightarrow> ctx \<times> handler" where
  "replaceExpiryState cid connectedAt h =
     (let (c, n, h1) = with_cancel (base_ctx h) h in
      case fmlookup (h_cids h1) cid of
        None \<Rightarrow> (c, cancel_ctx n h1)
      | Some st \<Rightarrow>
          (c, adjust_cid cid (\<lambda>s. s\<lparr>cs_expiry := Some \<lparr>se_connectedAt = connectedAt, se_cancel = n\<rparr>\<rparr>)
                (cancel_opt (map_option se_cancel (cs_expiry st)) h1)))"

definition startExpiryTimer :: "environ \<Rightarrow> string \<Rightarrow> gotime \<Rightarrow> handler \<Rightarrow> handler" where
  "startExpiryTimer e cid connectedAt h =
     (let (c, h1) = replaceExpiryState cid connectedAt h;
          remaining = time_Until (time_now e h1) (connectedAt + MaxSessionDuration (h_cfg h1));
          remaining = (if remaining < 0 then 0 else remaining)
      in spawn (GSessionExpiry c cid remaining) h1)"

definition killExpiredSession :: "string \<Rightarrow> gotime \<Rightarrow> handler \<Rightarrow> handler" where
  "killExpiredSession cid connectedAt h =
     (let h1 = metric (SessionExpired ''hard_timer'') h in
      case h_liveSink h of None \<Rightarrow> h1 | Some s \<Rightarrow> sendOrLog s (kill cid '''') h1)"

definition sessionExpiryTimer :: "selected \<Rightarrow> string \<Rightarrow> handler \<Rightarrow> handler" where
  "sessionExpiryTimer sel cid h =
     (case sel of
        CtxDone \<Rightarrow> h
      | TimerFired \<Rightarrow>
          (case fmlookup (h_cids h) cid of
             None \<Rightarrow> h
           | Some st \<Rightarrow>
               (case cs_expiry st of
                  None \<Rightarrow> h
                | Some ex \<Rightarrow> killExpiredSession cid (se_connectedAt ex) h)))"

section \<open>Promotion and establishment\<close>

text \<open>The critical section of \<open>promoteSession\<close>.\<close>

definition promote_locked ::
  "environ \<Rightarrow> string \<Rightarrow> handler \<Rightarrow> (nat \<times> string \<times> gotime \<times> ctx) option \<times> handler" where
  "promote_locked e cid h =
     (case fmlookup (h_cids h) cid of
        None \<Rightarrow> (None, h)
      | Some st \<Rightarrow>
          (case cs_cancel st of
             None \<Rightarrow> (None, h)
           | Some cancel \<Rightarrow>
               let connectAt = (if cs_connectAt st = time_zero then time_now e h else cs_connectAt st);
                   (c, n, h1) = with_cancel (base_ctx h) h
               in (Some (cancel, cs_sid st, connectAt, c),
                   adjust_cid cid (\<lambda>s. s\<lparr>cs_connectAt := connectAt, cs_cancel := None, cs_sid := '''',
                     cs_promoted := True, cs_promotedCancel := Some n\<rparr>) h1)))"

definition promoteSession :: "environ \<Rightarrow> string \<Rightarrow> handler \<Rightarrow> handler" where
  "promoteSession e cid h =
     (case promote_locked e cid h of
        (None, h1) \<Rightarrow> h1
      | (Some (cancel, sid, connectAt, c), h1) \<Rightarrow>
          spawn (GPromotedDeadline c cid (connectAt + HandWindow (h_cfg h)))
            (delete_session sid (cancel_ctx cancel h1)))"

definition killReplacedActive :: "environ \<Rightarrow> string \<Rightarrow> sink \<Rightarrow> handler \<Rightarrow> handler" where
  "killReplacedActive e oldCID s h =
     (case send_decision e s (kill oldCID ''HALT'') h of
        (None, h1) \<Rightarrow> h1
      | (Some err, h1) \<Rightarrow>
          if \<not> h_statusProvider h1 then h1
          else (case query_status e h1 of
              (Inl err, h2) \<Rightarrow> h2
            | (Inr snapshot, h2) \<Rightarrow>
                if ClientByCID snapshot oldCID = None then handleDisconnect oldCID h2 else h2))"

text \<open>The critical section of \<open>establishCID\<close> for a tracked CID: it returns the CID that held the
  identity.\<close>

definition establish_locked :: "string \<Rightarrow> cid_state \<Rightarrow> handler \<Rightarrow> string \<times> handler" where
  "establish_locked cid st h =
     (let h1 = cancel_opt (cs_promotedCancel st)
                 (adjust_cid cid (\<lambda>s. s\<lparr>cs_promoted := False, cs_established := True,
                    cs_promotedCancel := None\<rparr>) h);
          oldCID = getz (h_active h1) (cs_identity st);
          h2 = h1\<lparr>h_attempt := release (cs_identity st) cid (h_attempt h1),
                  h_active := fmupd (cs_identity st) cid (h_active h1)\<rparr>
      in (oldCID,
          if oldCID \<noteq> '''' \<and> oldCID \<noteq> cid then
            (case fmlookup (h_cids h2) oldCID of
               None \<Rightarrow> h2
             | Some old \<Rightarrow>
                 adjust_cid oldCID (\<lambda>s. s\<lparr>cs_evictionRequested := True, cs_expiry := None\<rparr>)
                   (cancel_opt (map_option se_cancel (cs_expiry old)) h2))
          else h2))"

definition establishCID :: "environ \<Rightarrow> string \<Rightarrow> gotime \<Rightarrow> bool \<Rightarrow> handler \<Rightarrow> handler" where
  "establishCID e cid connectedAt authoritativeSnapshot h =
     (case fmlookup (h_cids h) cid of
        None \<Rightarrow> h
      | Some st \<Rightarrow>
          let (oldCID, h1) = establish_locked cid st h;
              h2 = (if 0 < MaxSessionDuration (h_cfg h1) \<and> (cs_promoted st \<or> authoritativeSnapshot)
                       \<and> \<not> cs_established st
                    then startExpiryTimer e cid connectedAt h1 else h1)
          in if oldCID \<noteq> '''' \<and> oldCID \<noteq> cid then
               (case h_liveSink h1 of
                  None \<Rightarrow> h2
                | Some s \<Rightarrow> killReplacedActive e oldCID s h2)
             else h2)"

definition onEstablished :: "environ \<Rightarrow> string \<Rightarrow> handler \<Rightarrow> handler" where
  "onEstablished e cid h = establishCID e cid (time_now e h) False h"

definition MarkAuthenticated :: "environ \<Rightarrow> string \<Rightarrow> string \<Rightarrow> handler \<Rightarrow> handler" where
  "MarkAuthenticated e cid cognitoUsername h =
     promoteSession e cid
       (if cognitoUsername \<noteq> '''' then adjust_cid cid (\<lambda>s. s\<lparr>cs_cognitoUsername := cognitoUsername\<rparr>) h
        else h)"

section \<open>Promoted connections that do not get established\<close>

datatype outcome = OutUnavailable | OutAbsent | OutEstablished | OutPending

definition reconcilePromoted :: "environ \<Rightarrow> string \<Rightarrow> handler \<Rightarrow> outcome \<times> handler" where
  "reconcilePromoted e cid h =
     (if \<not> h_statusProvider h then (OutUnavailable, h)
      else (case query_status e h of
          (Inl err, h1) \<Rightarrow> (OutUnavailable, h1)
        | (Inr snapshot, h1) \<Rightarrow>
            (case ClientByCID snapshot cid of
               None \<Rightarrow> (OutAbsent, cleanupPromoted cid h1)
             | Some client \<Rightarrow>
                 if sc_established client
                 then (OutEstablished, establishCID e cid (sc_connectedAt client) True h1)
                 else (OutPending, h1))))"

definition killStalledPromoted :: "environ \<Rightarrow> string \<Rightarrow> handler \<Rightarrow> handler" where
  "killStalledPromoted e cid h =
     (case (fmlookup (h_cids h) cid, h_liveSink h) of
        (Some st, Some s) \<Rightarrow>
          if \<not> cs_promoted st then h
          else (case send_decision e s (kill cid ''HALT'') h of
              (None, h1) \<Rightarrow> h1
            | (Some err, h1) \<Rightarrow> snd (reconcilePromoted e cid h1))
      | _ \<Rightarrow> h)"

definition waitForPromotedDeadline ::
  "environ \<Rightarrow> selected \<Rightarrow> selected \<Rightarrow> string \<Rightarrow> handler \<Rightarrow> handler" where
  "waitForPromotedDeadline e sel1 sel2 cid h =
     (case sel1 of
        CtxDone \<Rightarrow> h
      | TimerFired \<Rightarrow>
          (case reconcilePromoted e cid h of
             (OutPending, h1) \<Rightarrow>
               (case sel2 of
                  CtxDone \<Rightarrow> h1
                | TimerFired \<Rightarrow>
                    (case reconcilePromoted e cid h1 of
                       (OutPending, h2) \<Rightarrow> killStalledPromoted e cid h2
                     | (_, h2) \<Rightarrow> h2))
           | (_, h1) \<Rightarrow> h1))"

section \<open>CLIENT:CONNECT\<close>

definition MaxWebAuthURLLen :: nat where "MaxWebAuthURLLen = 229"

definition deny_connect :: "sink \<Rightarrow> event \<Rightarrow> string \<Rightarrow> string \<Rightarrow> handler \<Rightarrow> handler" where
  "deny_connect s ev why reason h =
     sendOrLog s (deny (ev_cid ev) (ev_kid ev) reason) (metric (AuthDenied why) h)"

definition in_progress :: string where
  "in_progress = ''authentication already in progress; retry connection''"

definition webauth_client :: "environ \<Rightarrow> event \<Rightarrow> bool" where
  "webauth_client e ev =
     (let sso = ToLower (e_uc e) (getz (ev_env ev) ''IV_SSO'')
      in Contains sso ''webauth'' \<or> Contains sso ''openurl'')"

definition new_session :: "config \<Rightarrow> event \<Rightarrow> string \<Rightarrow> gotime \<Rightarrow> pending_session" where
  "new_session cfg ev sessionID now =
     \<lparr>ps_SessionID = sessionID, ps_CommonName = CommonName ev, ps_CID = ev_cid ev, ps_KID = ev_kid ev,
      ps_Username = Username ev, ps_CNCrossCheck = CNCrossCheck cfg, ps_RequiredGroup = RequiredGroup cfg,
      ps_Status = SessionPending, ps_CreatedAt = now, ps_ExpiresAt = now + i64 (2 * HandWindow cfg)\<rparr>"

definition auth_url :: "config \<Rightarrow> static_signer \<Rightarrow> string \<Rightarrow> gotime \<Rightarrow> string" where
  "auth_url cfg k sessionID now =
     (let stateBlob = EncodeState \<lparr>sp_SID = sessionID, sp_IAT = unix_seconds now,
                                  sp_EXP = unix_seconds (now + AuthTimeout cfg)\<rparr> (Sign k);
          sep = (if Contains (CallbackURL cfg) ''?'' then ''&'' else ''?'')
      in TrimRight (CallbackURL cfg) (CHR ''/'') @ sep @ ''state='' @ stateBlob)"

text \<open>\<open>int(d.Seconds())\<close>: the seconds of a duration, towards zero. (The detour through \<open>float64\<close>
  is exact below 2^24 seconds.)\<close>

definition duration_seconds :: "duration \<Rightarrow> int" where
  "duration_seconds d = (if 0 \<le> d then d div time_second else - ((- d) div time_second))"

text \<open>The checks before the lock: either the connection is denied, or there are an identity, a
  session and a URL for it.\<close>

definition connect_prepare ::
  "environ \<Rightarrow> event \<Rightarrow> sink \<Rightarrow> handler \<Rightarrow> handler + (string \<times> pending_session \<times> string \<times> handler)" where
  "connect_prepare e ev s h =
     (if \<not> webauth_client e ev then
        Inl (deny_connect s ev ''no_webauth'' ''client does not support WebAuth'' h)
      else if CommonName ev = '''' then
        Inl (deny_connect s ev ''missing_common_name'' ''missing common name'' h)
      else (case NormalizeIdentity (e_uc e) (CommonName ev) of
          Inl err \<Rightarrow> Inl (deny_connect s ev ''invalid_identity'' ''invalid identity'' h)
        | Inr identity \<Rightarrow>
            (case generateRandomToken e 16 h of
               (None, h1) \<Rightarrow> Inl (deny_connect s ev ''internal_error'' ''internal error'' h1)
             | (Some sessionID, h1) \<Rightarrow>
                 let now = time_now e h1;
                     authURL = auth_url (h_cfg h1) (h_signer h1) sessionID now
                 in if MaxWebAuthURLLen < length authURL then
                      Inl (deny_connect s ev ''url_too_long'' ''auth URL too long'' h1)
                    else Inr (identity, new_session (h_cfg h1) ev sessionID now, authURL, h1))))"

datatype admission =
    Duplicate
  | PromotedConflict string
  | Busy
  | Admitted "(string \<times> string \<times> nat) option" \<comment> \<open>superseded CID, its KID, its context\<close>

definition track ::
  "event \<Rightarrow> string \<Rightarrow> pending_session \<Rightarrow> nat \<Rightarrow> handler \<Rightarrow> handler" where
  "track ev identity session cancel h =
     h\<lparr>h_sessions := Put session (h_sessions h),
       h_cids := fmupd (ev_cid ev)
         (zero_cid_state\<lparr>cs_cancel := Some cancel, cs_sid := ps_SessionID session,
            cs_cn := CommonName ev, cs_identity := identity, cs_kid := ev_kid ev,
            cs_connectAt := ps_CreatedAt session\<rparr>) (h_cids h),
       h_attempt := fmupd identity (ev_cid ev) (h_attempt h)\<rparr>"

text \<open>The critical section of \<open>handleConnect\<close>.\<close>

definition admit ::
  "event \<Rightarrow> string \<Rightarrow> pending_session \<Rightarrow> nat \<Rightarrow> handler \<Rightarrow> admission \<times> handler" where
  "admit ev identity session cancel h =
     (let existingCID = getz (h_attempt h) identity;
          forget = h\<lparr>h_attempt := fmdrop identity (h_attempt h)\<rparr>
      in if existingCID = '''' then (Admitted None, track ev identity session cancel h)
         else if existingCID = ev_cid ev then (Duplicate, h)
         else (case fmlookup (h_cids h) existingCID of
             None \<Rightarrow> (Admitted None, track ev identity session cancel forget)
           | Some existing \<Rightarrow>
               if cs_promoted existing then (PromotedConflict existingCID, h)
               else (case cs_cancel existing of
                   None \<Rightarrow> (Admitted None, track ev identity session cancel forget)
                 | Some c \<Rightarrow>
                     (case SupersedePending (cs_sid existing) (h_sessions h) of
                        (Inl err, _) \<Rightarrow> (Busy, h)
                      | (Inr _, store) \<Rightarrow>
                          (Admitted (Some (existingCID, cs_kid existing, c)),
                           track ev identity session cancel
                             (adjust_cid existingCID (\<lambda>s. s\<lparr>cs_cancel := None, cs_sid := ''''\<rparr>)
                               (h\<lparr>h_sessions := store\<rparr>)))))))"

text \<open>What follows the lock for an admitted connection.\<close>

definition connect_pending ::
  "ctx \<Rightarrow> event \<Rightarrow> pending_session \<Rightarrow> string \<Rightarrow> (string \<times> string \<times> nat) option \<Rightarrow> sink \<Rightarrow>
   handler \<Rightarrow> handler" where
  "connect_pending tctx ev session authURL superseded s h =
     (let h1 = (case superseded of
                  None \<Rightarrow> h
                | Some (oldCID, kid, c) \<Rightarrow>
                    sendOrLog s (deny oldCID kid ''replaced by new connection'') (cancel_ctx c h));
          h2 = metric (AuthAttempt '''') h1;
          h3 = sendOrLog s (pending (ev_cid ev) (ev_kid ev) authURL
                 (duration_seconds (HandWindow (h_cfg h)))) h2;
          tSink = (case h_timeoutSink h of None \<Rightarrow> s | Some t \<Rightarrow> t)
      in spawn (GAuthTimeout tctx session tSink) h3)"

lemma emit_simps [simp]:
  "h_cids (emit x h) = h_cids h" "h_active (emit x h) = h_active h" "h_attempt (emit x h) = h_attempt h"
  "h_sessions (emit x h) = h_sessions h" "h_cfg (emit x h) = h_cfg h"
  "h_liveSink (emit x h) = h_liveSink h" "h_statusProvider (emit x h) = h_statusProvider h"
  "h_out (emit x h) = h_out h @ [x]" "h_tasks (emit x h) = h_tasks h"
  "h_cancelled (emit x h) = h_cancelled h" "h_next (emit x h) = h_next h" "h_cache (emit x h) = h_cache h"
  "h_timeoutSink (emit x h) = h_timeoutSink h" "h_lifecycleCtx (emit x h) = h_lifecycleCtx h"
  "h_signer (emit x h) = h_signer h"
  by (simp_all add: emit_def)

lemma cancel_simps [simp]:
  "h_cids (cancel_ctx n h) = h_cids h" "h_active (cancel_ctx n h) = h_active h"
  "h_attempt (cancel_ctx n h) = h_attempt h" "h_sessions (cancel_ctx n h) = h_sessions h"
  "h_cfg (cancel_ctx n h) = h_cfg h" "h_liveSink (cancel_ctx n h) = h_liveSink h"
  "h_statusProvider (cancel_ctx n h) = h_statusProvider h" "h_out (cancel_ctx n h) = h_out h"
  "h_tasks (cancel_ctx n h) = h_tasks h" "h_next (cancel_ctx n h) = h_next h"
  "h_timeoutSink (cancel_ctx n h) = h_timeoutSink h" "h_cache (cancel_ctx n h) = h_cache h"
  "h_cancelled (cancel_ctx n h) = finsert n (h_cancelled h)" "h_signer (cancel_ctx n h) = h_signer h"
  by (simp_all add: cancel_ctx_def)

text \<open>The connections still promoted: each round of the loop on a promoted conflict removes one.\<close>

definition promoted_cids :: "handler \<Rightarrow> string fset" where
  "promoted_cids h = ffilter (\<lambda>cid. cs_promoted (the (fmlookup (h_cids h) cid))) (fmdom (h_cids h))"

lemma connect_prepare_cids:
  "connect_prepare e ev s h = Inr (i, ses, u, h1) \<Longrightarrow>
     h_cids h1 = h_cids h \<and> h_active h1 = h_active h \<and> h_attempt h1 = h_attempt h \<and> h_cfg h1 = h_cfg h
     \<and> h_sessions h1 = h_sessions h \<and> h_liveSink h1 = h_liveSink h \<and> h_tasks h1 = h_tasks h"
  by (auto simp: connect_prepare_def generateRandomToken_def Let_def
      split: if_splits sum.splits option.splits prod.splits)

lemma admit_conflict:
  "admit ev i ses n h = (PromotedConflict cid, h1) \<Longrightarrow>
     h1 = h \<and> cid \<noteq> '''' \<and> fmlookup (h_attempt h) i = Some cid \<and>
     (\<exists>st. fmlookup (h_cids h) cid = Some st \<and> cs_promoted st)"
  by (auto simp: admit_def Let_def getz_def split: if_splits option.splits sum.splits prod.splits)

lemma cleanupPromoted_fewer:
  assumes "fmlookup (h_cids h) cid = Some st" and "cs_promoted st"
  shows "fcard (promoted_cids (cleanupPromoted cid h)) < fcard (promoted_cids h)"
proof (rule pfsubset_fcard_mono)
  have cids: "h_cids (cleanupPromoted cid h) = fmdrop cid (h_cids h)"
    using assms by (simp add: cleanupPromoted_def cancel_opt_def split: option.splits)
  show "promoted_cids (cleanupPromoted cid h) |\<subset>| promoted_cids h"
    unfolding promoted_cids_def cids using assms by (auto simp: fmdomI)
qed

text \<open>\<open>provider.Status\<close> on the conflict path: \<open>None\<close> asks for another round, after the promoted
  connection that is gone has been cleaned up.\<close>

definition resolve_conflict ::
  "environ \<Rightarrow> event \<Rightarrow> sink \<Rightarrow> string \<Rightarrow> handler \<Rightarrow> bool \<times> handler" where
  "resolve_conflict e ev s existingCID h =
     (let refuse = deny_connect s ev ''auth_in_progress'' in_progress in
      if \<not> h_statusProvider h then (False, refuse h)
      else (case query_status e h of
          (Inl err, h1) \<Rightarrow> (False, refuse h1)
        | (Inr snapshot, h1) \<Rightarrow>
            (case ClientByCID snapshot existingCID of
               None \<Rightarrow> (True, cleanupPromoted existingCID h1)
             | Some client \<Rightarrow>
                 (False, refuse (if sc_established client
                   then establishCID e existingCID (sc_connectedAt client) True h1 else h1)))))"

lemma with_cancel_simps [simp]:
  "with_cancel p h = (CancelCtx p (h_next h), h_next h, h\<lparr>h_next := Suc (h_next h)\<rparr>)"
  by (simp add: with_cancel_def)

lemma resolve_conflict_fewer:
  assumes "resolve_conflict e ev s cid h = (True, h')"
    and "fmlookup (h_cids h) cid = Some st" and "cs_promoted st"
  shows "fcard (promoted_cids h') < fcard (promoted_cids h)"
proof -
  have "h' = cleanupPromoted cid (emit OStatus h)"
    using assms(1)
    by (auto simp: resolve_conflict_def query_status_def Let_def
        split: if_splits sum.splits option.splits prod.splits)
  moreover have "promoted_cids (emit OStatus h) = promoted_cids h" by (simp add: promoted_cids_def)
  ultimately show ?thesis using assms(2,3) cleanupPromoted_fewer [of "emit OStatus h" cid st] by simp
qed

lemma connect_round_fewer:
  assumes "(PromotedConflict cid, h3) = admit ev i ses n (h1\<lparr>h_next := m\<rparr>)"
    and "(True, h4) = resolve_conflict e ev s cid (cancel_ctx n h3)" and "h_cids h1 = h_cids h"
  shows "fcard (promoted_cids h4) < fcard (promoted_cids h)"
proof -
  from admit_conflict [OF assms(1) [symmetric]] obtain st
    where "h3 = h1\<lparr>h_next := m\<rparr>" "fmlookup (h_cids h3) cid = Some st" "cs_promoted st" by auto
  with resolve_conflict_fewer [OF assms(2) [symmetric], of st] assms(3) show ?thesis
    by (simp add: promoted_cids_def)
qed

function handleConnect :: "environ \<Rightarrow> ctx \<Rightarrow> event \<Rightarrow> sink \<Rightarrow> handler \<Rightarrow> handler" where
  "handleConnect e c ev s h =
     (case connect_prepare e ev s h of
        Inl h1 \<Rightarrow> h1
      | Inr (identity, session, authURL, h1) \<Rightarrow>
          let tctx = CancelCtx c (h_next h1); cancel = h_next h1; h2 = h1\<lparr>h_next := Suc (h_next h1)\<rparr> in
          (case admit ev identity session cancel h2 of
             (Duplicate, h3) \<Rightarrow> cancel_ctx cancel h3
           | (Busy, h3) \<Rightarrow> deny_connect s ev ''auth_in_progress'' in_progress (cancel_ctx cancel h3)
           | (Admitted superseded, h3) \<Rightarrow> connect_pending tctx ev session authURL superseded s h3
           | (PromotedConflict existingCID, h3) \<Rightarrow>
               (case resolve_conflict e ev s existingCID (cancel_ctx cancel h3) of
                  (False, h4) \<Rightarrow> h4
                | (True, h4) \<Rightarrow> handleConnect e c ev s h4)))"
  by pat_completeness auto
termination
  by (relation "measure (\<lambda>(e, c, ev, s, h). fcard (promoted_cids h))")
     (auto dest!: connect_prepare_cids intro: connect_round_fewer)

declare handleConnect.simps [simp del]

text \<open>
  The rounds of \<open>handleConnect\<close>: a property of the start and the end state that a refusal before the
  lock, a duplicate, a busy identity, an admission and an unresolved conflict all have, and that
  a resolved conflict passes on, holds of the whole.
\<close>

lemma handleConnect_rounds:
  assumes denied: "\<And>h h1. connect_prepare e ev s h = Inl h1 \<Longrightarrow> R h h1"
    and round: "\<And>h i ses u h1 adm h3. connect_prepare e ev s h = Inr (i, ses, u, h1) \<Longrightarrow>
      admit ev i ses (h_next h1) (h1\<lparr>h_next := Suc (h_next h1)\<rparr>) = (adm, h3) \<Longrightarrow>
      (case adm of
         Duplicate \<Rightarrow> R h (cancel_ctx (h_next h1) h3)
       | Busy \<Rightarrow> R h (deny_connect s ev ''auth_in_progress'' in_progress (cancel_ctx (h_next h1) h3))
       | Admitted superseded \<Rightarrow>
           R h (connect_pending (CancelCtx c (h_next h1)) ev ses u superseded s h3)
       | PromotedConflict cid \<Rightarrow> R h (snd (resolve_conflict e ev s cid (cancel_ctx (h_next h1) h3))))"
    and trans: "\<And>h1 h2 h3. R h1 h2 \<Longrightarrow> R h2 h3 \<Longrightarrow> R h1 h3"
  shows "R h (handleConnect e c ev s h)"
  using denied round
proof (induction e c ev s h rule: handleConnect.induct)
  case (1 e c ev s h)
  show ?case
  proof (cases "connect_prepare e ev s h")
    case (Inl h1)
    with "1.prems"(1) [OF Inl] show ?thesis by (simp add: handleConnect.simps)
  next
    case (Inr p)
    obtain i ses u h1 where p: "p = (i, ses, u, h1)" by (cases p)
    let ?n = "h_next h1" and ?h2 = "h1\<lparr>h_next := Suc (h_next h1)\<rparr>"
    obtain adm h3 where adm: "admit ev i ses ?n ?h2 = (adm, h3)" by (cases "admit ev i ses ?n ?h2")
    note r = "1.prems"(2) [OF Inr [unfolded p] adm]
    show ?thesis
    proof (cases adm)
      case (PromotedConflict cid)
      obtain b h4 where res: "resolve_conflict e ev s cid (cancel_ctx ?n h3) = (b, h4)"
        by (cases "resolve_conflict e ev s cid (cancel_ctx ?n h3)")
      show ?thesis
      proof (cases b)
        case True
        have "R h4 (handleConnect e c ev s h4)"
          using "1.IH" [OF Inr p [symmetric] refl refl refl refl refl adm [symmetric] PromotedConflict
              res [symmetric]] True "1.prems" by simp
        with r True PromotedConflict Inr p adm res show ?thesis
          by (subst handleConnect.simps) (auto simp: Let_def intro: trans)
      qed (use r PromotedConflict Inr p adm res in \<open>simp add: handleConnect.simps Let_def\<close>)
    qed (use r Inr p adm in \<open>simp_all add: handleConnect.simps Let_def\<close>)
  qed
qed

section \<open>The auth timeout\<close>

definition authTimeout :: "selected \<Rightarrow> pending_session \<Rightarrow> sink \<Rightarrow> handler \<Rightarrow> handler" where
  "authTimeout sel session s h =
     clearInFlight (ps_CID session)
       (case sel of
          CtxDone \<Rightarrow> h
        | TimerFired \<Rightarrow>
            (case TryProcess (ps_SessionID session) (h_sessions h) of
               (Inl err, _) \<Rightarrow> h
             | (Inr _, store) \<Rightarrow>
                 sendOrLog s (deny (ps_CID session) (ps_KID session) ''auth timeout'')
                   (metric (AuthDenied ''timeout'')
                     (h\<lparr>h_sessions := MarkFailed (ps_SessionID session) store\<rparr>))))"

section \<open>CLIENT:REAUTH\<close>

definition deny_reauth :: "sink \<Rightarrow> event \<Rightarrow> string \<Rightarrow> string \<Rightarrow> handler \<Rightarrow> handler" where
  "deny_reauth s ev why reason h =
     sendOrLog s (deny (ev_cid ev) (ev_kid ev) reason) (metric (ReauthDenied why) h)"

definition finishReauth :: "event \<Rightarrow> identity_result \<Rightarrow> sink \<Rightarrow> handler \<Rightarrow> handler" where
  "finishReauth ev result s h =
     (if \<not> ir_Exists result then deny_reauth s ev ''user_not_found'' ''user not found'' h
      else if \<not> ir_Enabled result then deny_reauth s ev ''user_disabled'' ''user disabled'' h
      else if CheckRequiredGroupOnReauth (h_cfg h) \<and> \<not> ir_InGroup result then
        deny_reauth s ev ''group_denied'' (''not in required group: '' @ RequiredGroup (h_cfg h)) h
      else sendOrLog s (allow_nt (ev_cid ev) (ev_kid ev)) (metric ReauthSuccess h))"

definition check_user :: "environ \<Rightarrow> string \<Rightarrow> handler \<Rightarrow> (string + identity_result) \<times> handler" where
  "check_user e lookup h =
     (let h1 = emit (OCheckUser lookup (RequiredGroup (h_cfg h)) (CheckRequiredGroupOnReauth (h_cfg h))) h
      in (e_check e (h_out h1), h1))"

text \<open>The name looked up: the Cognito user name kept from the callback, or the common name.\<close>

definition reauth_lookup :: "event \<Rightarrow> handler \<Rightarrow> string" where
  "reauth_lookup ev h =
     (let l = (case fmlookup (h_cids h) (ev_cid ev) of None \<Rightarrow> '''' | Some st \<Rightarrow> cs_cognitoUsername st)
      in if l = '''' then CommonName ev else l)"

text \<open>The session-duration backstop: \<open>None\<close> lets the reauthentication go on.\<close>

definition reauth_backstop :: "environ \<Rightarrow> event \<Rightarrow> sink \<Rightarrow> handler \<Rightarrow> handler option" where
  "reauth_backstop e ev s h =
     (if 0 < MaxSessionDuration (h_cfg h) then
        (case (case fmlookup (h_cids h) (ev_cid ev) of None \<Rightarrow> None | Some st \<Rightarrow> cs_expiry st) of
           None \<Rightarrow> Some (deny_reauth s ev ''session_untracked'' ''session revalidation required; reconnect'' h)
         | Some ex \<Rightarrow>
             if MaxSessionDuration (h_cfg h) < time_Since (time_now e h) (se_connectedAt ex) then
               Some (sendOrLog s (deny (ev_cid ev) (ev_kid ev) ''session expired'')
                 (metric (SessionExpired ''reauth_backstop'') h))
             else None)
      else None)"

definition cache_allows :: "environ \<Rightarrow> string \<Rightarrow> handler \<Rightarrow> bool \<times> handler" where
  "cache_allows e lookup h =
     (case h_cache h of
        None \<Rightarrow> (False, h)
      | Some cache \<Rightarrow>
          (case cache_Get (time_now e h) lookup cache of
             (None, c) \<Rightarrow> (False, h\<lparr>h_cache := Some c\<rparr>)
           | (Some r, c) \<Rightarrow>
               (ir_Exists r \<and> ir_Enabled r \<and> (\<not> CheckRequiredGroupOnReauth (h_cfg h) \<or> ir_InGroup r),
                h\<lparr>h_cache := Some c\<rparr>)))"

definition handleReauth :: "environ \<Rightarrow> event \<Rightarrow> sink \<Rightarrow> handler \<Rightarrow> handler" where
  "handleReauth e ev s h =
     (let lookup = reauth_lookup ev h in
      if lookup = '''' then deny_reauth s ev ''missing_common_name'' ''missing common name'' h
      else (case reauth_backstop e ev s h of
          Some h1 \<Rightarrow> h1
        | None \<Rightarrow>
            if CognitoSkipReauth (h_cfg h) then
              sendOrLog s (allow_nt (ev_cid ev) (ev_kid ev)) (metric ReauthSuccess h)
            else (case check_user e lookup h of
                (Inr result, h1) \<Rightarrow>
                  finishReauth ev result s
                    (h1\<lparr>h_cache := map_option (cache_Put lookup result) (h_cache h1)\<rparr>)
              | (Inl err, h1) \<Rightarrow>
                  (case cache_allows e lookup h1 of
                     (True, h2) \<Rightarrow>
                       sendOrLog s (allow_nt (ev_cid ev) (ev_kid ev)) (metric ReauthCacheHit h2)
                   | (False, h2) \<Rightarrow> deny_reauth s ev ''cognito_error'' ''cognito unavailable'' h2))))"

section \<open>Events\<close>

definition HandleEvent :: "environ \<Rightarrow> ctx \<Rightarrow> event \<Rightarrow> sink \<Rightarrow> handler \<Rightarrow> handler" where
  "HandleEvent e c ev s h =
     (case ev_type ev of
        EventConnect \<Rightarrow> handleConnect e c ev s h
      | EventReauth \<Rightarrow> spawn (GReauth c ev s) h
      | EventDisconnect \<Rightarrow> handleDisconnect (ev_cid ev) h
      | EventEstablished \<Rightarrow> onEstablished e (ev_cid ev) (promoteSession e (ev_cid ev) h)
      | _ \<Rightarrow> h)"

end
