(* ===== verification/Status.thy ===== *)
theory Status
  imports Mgmt
begin

text \<open>
  \<open>internal/mgmt/status.go\<close>: the parser of the \<open>status 3\<close> response. The parser is a record that
  \<open>consume\<close> updates line by line; \<open>finalize\<close> turns what was collected into the snapshot that the
  handler reconciles against. The argument \<open>uc\<close> is the Unicode case table of \<open>ToLower\<close>.
\<close>

record status_route =
  sr_cn :: string
  sr_realAddress :: string

record status_parser =
  sp_clientHeader :: "(string, nat) fmap"
  sp_routeHeader :: "(string, nat) fmap"
  sp_clients :: "status_client list"
  sp_routes :: "status_route list"
  sp_snapshot :: status_snapshot
  sp_finalized :: bool

definition empty_snapshot :: status_snapshot where
  "empty_snapshot = \<lparr>ss_clients = [], ss_established = []\<rparr>"

definition new_parser :: status_parser where
  "new_parser = \<lparr>sp_clientHeader = fmempty, sp_routeHeader = fmempty, sp_clients = [], sp_routes = [],
     sp_snapshot = empty_snapshot, sp_finalized = False\<rparr>"

definition normalizeHeader :: "(nat \<Rightarrow> nat) \<Rightarrow> string \<Rightarrow> string" where
  "normalizeHeader uc s =
     filter (\<lambda>c. c \<notin> set [CHR '' '', CHR ''_'', CHR ''-'', CHR 0x28, CHR 0x29]) (ToLower uc (TrimSpace s))"

definition splitStatusLine :: "string \<Rightarrow> string list" where
  "splitStatusLine line =
     (if Contains line [CHR 0x09] then Split line (CHR 0x09) else Split line (CHR '',''))"

fun statusValue :: "(nat \<Rightarrow> nat) \<Rightarrow> string list \<Rightarrow> (string, nat) fmap \<Rightarrow> string list \<Rightarrow> string" where
  "statusValue uc cols hdr [] = ''''"
| "statusValue uc cols hdr (name # names) =
     (case fmlookup hdr (normalizeHeader uc name) of
        Some idx \<Rightarrow> if idx < length cols then cols ! idx else statusValue uc cols hdr names
      | None \<Rightarrow> statusValue uc cols hdr names)"

declare statusValue.simps [simp del]

definition parseClient ::
  "(nat \<Rightarrow> nat) \<Rightarrow> status_parser \<Rightarrow> string list \<Rightarrow> status_client option result" where
  "parseClient uc p cols =
     (let cid = statusValue uc cols (sp_clientHeader p) [''Client ID'', ''ClientID''];
          cn = statusValue uc cols (sp_clientHeader p) [''Common Name'', ''CommonName''];
          connected = statusValue uc cols (sp_clientHeader p)
            [''Connected Since (time_t)'', ''Connected Since'', ''ConnectedSince'']
      in if cid = '''' \<or> cn = '''' \<or> connected = '''' then Ok None
         else
           (case ParseInt connected of
              None \<Rightarrow> Err ''parse connected since''
            | Some sec \<Rightarrow>
                Ok (Some \<lparr>sc_cid = cid, sc_cn = cn,
                  sc_realAddress = statusValue uc cols (sp_clientHeader p) [''Real Address'', ''RealAddress''],
                  sc_virtualAddress =
                    statusValue uc cols (sp_clientHeader p) [''Virtual Address'', ''VirtualAddress''],
                  sc_connectedAt = time_Unix sec, sc_established = False, sc_routingConfirmed = False\<rparr>)))"

definition parseRoute :: "(nat \<Rightarrow> nat) \<Rightarrow> status_parser \<Rightarrow> string list \<Rightarrow> status_route option" where
  "parseRoute uc p cols =
     (let cn = statusValue uc cols (sp_routeHeader p) [''Common Name'', ''CommonName''];
          addr = statusValue uc cols (sp_routeHeader p) [''Real Address'', ''RealAddress'']
      in if cn = '''' \<or> addr = '''' then None else Some \<lparr>sr_cn = cn, sr_realAddress = addr\<rparr>)"

definition route_key :: "string \<Rightarrow> string \<Rightarrow> string" where
  "route_key cn addr = cn @ CHR 0x00 # addr"

definition finalize_client :: "string set \<Rightarrow> status_client \<Rightarrow> status_client" where
  "finalize_client routes c =
     c\<lparr>sc_routingConfirmed := route_key (sc_cn c) (sc_realAddress c) \<in> routes,
       sc_established := sc_virtualAddress c \<noteq> ''''\<rparr>"

definition session_of :: "status_client \<Rightarrow> established_session" where
  "session_of c = \<lparr>es_cid = sc_cid c, es_cn = sc_cn c, es_connectedAt = sc_connectedAt c\<rparr>"

definition finalize :: "status_parser \<Rightarrow> status_parser" where
  "finalize p =
     (if sp_finalized p then p
      else
        (let routes = set (map (\<lambda>r. route_key (sr_cn r) (sr_realAddress r)) (sp_routes p));
             clients = map (finalize_client routes) (sp_clients p)
         in p\<lparr>sp_finalized := True,
              sp_snapshot :=
                \<lparr>ss_clients = clients,
                 ss_established = ss_established (sp_snapshot p)
                   @ map session_of (filter sc_established clients)\<rparr>\<rparr>))"

definition header_index :: "(nat \<Rightarrow> nat) \<Rightarrow> string list \<Rightarrow> (string, nat) fmap" where
  "header_index uc names =
     foldl (\<lambda>m (i, name). fmupd (normalizeHeader uc name) i m) fmempty (enumerate 1 names)"

definition consume :: "(nat \<Rightarrow> nat) \<Rightarrow> status_parser \<Rightarrow> string \<Rightarrow> (bool \<times> status_parser) result" where
  "consume uc p line =
     (if line = ''END'' then Ok (True, finalize p)
      else
        (let cols = splitStatusLine line in
         case cols of
           [] \<Rightarrow> Ok (False, p)
         | kind # _ \<Rightarrow>
             if kind = ''HEADER'' then
               (if length cols < 3 then Ok (False, p)
                else
                  (let hdr = header_index uc (drop 2 cols) in
                   if cols ! 1 = ''CLIENT_LIST'' then Ok (False, p\<lparr>sp_clientHeader := hdr\<rparr>)
                   else if cols ! 1 = ''ROUTING_TABLE'' then Ok (False, p\<lparr>sp_routeHeader := hdr\<rparr>)
                   else Ok (False, p)))
             else if kind = ''CLIENT_LIST'' then
               (case parseClient uc p cols of
                  Inl e \<Rightarrow> Err e
                | Inr None \<Rightarrow> Ok (False, p)
                | Inr (Some c) \<Rightarrow> Ok (False, p\<lparr>sp_clients := sp_clients p @ [c]\<rparr>))
             else if kind = ''ROUTING_TABLE'' then
               (case parseRoute uc p cols of
                  None \<Rightarrow> Ok (False, p)
                | Some r \<Rightarrow> Ok (False, p\<lparr>sp_routes := sp_routes p @ [r]\<rparr>))
             else Ok (False, p)))"

fun consume_all :: "(nat \<Rightarrow> nat) \<Rightarrow> status_parser \<Rightarrow> string list \<Rightarrow> status_snapshot result" where
  "consume_all uc p [] = Err ''status response missing END''"
| "consume_all uc p (line # lines) =
     (case consume uc p line of
        Inl e \<Rightarrow> Err e
      | Inr (True, q) \<Rightarrow> Ok (sp_snapshot q)
      | Inr (False, q) \<Rightarrow> consume_all uc q lines)"

definition ParseStatusLines :: "(nat \<Rightarrow> nat) \<Rightarrow> string list \<Rightarrow> status_snapshot result" where
  "ParseStatusLines uc lines = consume_all uc new_parser lines"

section \<open>Snapshots are consistent\<close>

text \<open>What the rest of the daemon may rely on: the established sessions are exactly the clients with
  a virtual address, in the order of the client list, and every client has an id and a name.\<close>

definition snapshot_ok :: "status_snapshot \<Rightarrow> bool" where
  "snapshot_ok s \<longleftrightarrow>
     ss_established s = map session_of (filter sc_established (ss_clients s)) \<and>
     (\<forall>c \<in> set (ss_clients s).
        sc_cid c \<noteq> '''' \<and> sc_cn c \<noteq> '''' \<and> (sc_established c \<longleftrightarrow> sc_virtualAddress c \<noteq> ''''))"

definition parser_ok :: "status_parser \<Rightarrow> bool" where
  "parser_ok p \<longleftrightarrow>
     \<not> sp_finalized p \<and> sp_snapshot p = empty_snapshot \<and>
     (\<forall>c \<in> set (sp_clients p). sc_cid c \<noteq> '''' \<and> sc_cn c \<noteq> '''')"

lemma parser_ok_new: "parser_ok new_parser"
  by (simp add: parser_ok_def new_parser_def)

lemma snapshot_ok_finalize: "parser_ok p \<Longrightarrow> snapshot_ok (sp_snapshot (finalize p))"
  by (auto simp: parser_ok_def snapshot_ok_def finalize_def Let_def empty_snapshot_def
      finalize_client_def)

lemma parseClient_named:
  "parseClient uc p cols = Ok (Some c) \<Longrightarrow> sc_cid c \<noteq> '''' \<and> sc_cn c \<noteq> ''''"
  by (auto simp: parseClient_def Let_def split: if_splits option.splits)

lemma parser_ok_consume: "parser_ok p \<Longrightarrow> consume uc p line = Ok (False, q) \<Longrightarrow> parser_ok q"
  unfolding consume_def
  by (auto simp: parser_ok_def Let_def split: if_splits list.splits sum.splits option.splits
      dest: parseClient_named)

lemma consume_done: "consume uc p line = Ok (True, q) \<Longrightarrow> line = ''END'' \<and> q = finalize p"
  unfolding consume_def
  by (auto simp: Let_def split: if_splits list.splits sum.splits option.splits)

lemma consume_all_ok: "parser_ok p \<Longrightarrow> consume_all uc p lines = Ok s \<Longrightarrow> snapshot_ok s"
proof (induction lines arbitrary: p)
  case (Cons line lines)
  from Cons.prems(2) obtain d q where c: "consume uc p line = Ok (d, q)"
    by (cases "consume uc p line") auto
  show ?case
  proof (cases d)
    case True
    with c Cons.prems consume_done [of uc p line q] show ?thesis
      by (auto intro: snapshot_ok_finalize)
  next
    case False
    with c Cons.prems have "parser_ok q" "consume_all uc q lines = Ok s"
      by (auto dest: parser_ok_consume)
    then show ?thesis by (rule Cons.IH)
  qed
qed simp

text \<open>
  C34: every snapshot the status parser accepts is consistent: its established sessions are the
  clients of the list that have a virtual address, in the same order and with the same id, common
  name and connection time, and no client lacks an id or a common name. The reconnect sweep of the
  handler relies on this agreement between the two lists.
\<close>

theorem status_snapshot_consistent:
  assumes "ParseStatusLines uc lines = Ok s"
  shows "snapshot_ok s"
  using assms consume_all_ok parser_ok_new by (auto simp: ParseStatusLines_def)

section \<open>Reading what OpenVPN prints\<close>

text \<open>A row of the tab-separated client list of OpenVPN 2.7 and the header that announces it. The
  columns the daemon does not read may hold any text without a tab.\<close>

record client_row =
  row_cn :: string
  row_real :: string
  row_virtual :: string
  row_virtual6 :: string
  row_received :: string
  row_sent :: string
  row_since :: string
  row_time_t :: int
  row_user :: string
  row_cid :: string
  row_tail :: "string list"

definition client_header :: "string list" where
  "client_header = [''Common Name'', ''Real Address'', ''Virtual Address'', ''Virtual IPv6 Address'',
     ''Bytes Received'', ''Bytes Sent'', ''Connected Since'', ''Connected Since (time_t)'',
     ''Username'', ''Client ID'', ''Peer ID'', ''Data Channel Cipher'']"

definition header_line :: string where
  "header_line = join [CHR 0x09] (''HEADER'' # ''CLIENT_LIST'' # client_header)"

definition row_cols :: "client_row \<Rightarrow> string list" where
  "row_cols r = ''CLIENT_LIST'' # [row_cn r, row_real r, row_virtual r, row_virtual6 r,
     row_received r, row_sent r, row_since r, itoa (row_time_t r), row_user r, row_cid r] @ row_tail r"

definition row_line :: "client_row \<Rightarrow> string" where
  "row_line r = join [CHR 0x09] (row_cols r)"

definition row_ok :: "client_row \<Rightarrow> bool" where
  "row_ok r \<longleftrightarrow> row_cn r \<noteq> '''' \<and> row_cid r \<noteq> '''' \<and> in_i64 (row_time_t r) \<and>
     (\<forall>f \<in> set (row_cols r). CHR 0x09 \<notin> set f)"

definition row_client :: "client_row \<Rightarrow> status_client" where
  "row_client r = \<lparr>sc_cid = row_cid r, sc_cn = row_cn r, sc_realAddress = row_real r,
     sc_virtualAddress = row_virtual r, sc_connectedAt = time_Unix (row_time_t r),
     sc_established = row_virtual r \<noteq> '''', sc_routingConfirmed = False\<rparr>"

lemma splitStatusLine_join:
  assumes "2 \<le> length ps" and "\<And>p. p \<in> set ps \<Longrightarrow> CHR 0x09 \<notin> set p"
  shows "splitStatusLine (join [CHR 0x09] ps) = ps"
proof -
  have "ps \<noteq> []" using assms(1) by auto
  then show ?thesis using assms by (simp add: splitStatusLine_def Contains_join Split_join)
qed

text \<open>The names under which the columns are looked up do not depend on the Unicode case table.\<close>

definition column_name :: "string \<Rightarrow> string" where
  "column_name s = normalizeHeader (\<lambda>r. r) s"

definition header_names :: "string list" where
  "header_names = client_header @ [''ClientID'', ''CommonName'', ''ConnectedSince'', ''RealAddress'',
     ''VirtualAddress'']"

lemma header_names_ascii: "list_all (\<lambda>s. ascii (TrimSpace s)) header_names"
  by code_simp

lemma client_header_names: "set client_header \<subseteq> set header_names"
  by (simp add: header_names_def) blast

lemma normalizeHeader_names: "n \<in> set header_names \<Longrightarrow> normalizeHeader uc n = column_name n"
  using header_names_ascii
  by (auto simp: list_all_iff normalizeHeader_def column_name_def ToLower_ascii)

definition column_index :: "string list \<Rightarrow> (string, nat) fmap" where
  "column_index names = foldl (\<lambda>m (i, name). fmupd (column_name name) i m) fmempty (enumerate 1 names)"

lemma header_index_names:
  assumes "set names \<subseteq> set header_names"
  shows "header_index uc names = column_index names"
proof -
  have "foldl (\<lambda>m (i, name). fmupd (normalizeHeader uc name) i m) m xs =
      foldl (\<lambda>m (i, name). fmupd (column_name name) i m) m xs"
    if "snd ` set xs \<subseteq> set header_names" for m and xs :: "(nat \<times> string) list"
    using that by (induction xs arbitrary: m) (auto simp: normalizeHeader_names)
  moreover have "snd ` set (enumerate 1 names) = set names"
    by (metis list.set_map map_snd_enumerate)
  ultimately show ?thesis using assms by (simp add: header_index_def column_index_def)
qed

lemma column_names:
  "map column_name client_header = [''commonname'', ''realaddress'', ''virtualaddress'',
     ''virtualipv6address'', ''bytesreceived'', ''bytessent'', ''connectedsince'', ''connectedsincetimet'',
     ''username'', ''clientid'', ''peerid'', ''datachannelcipher'']"
  by code_simp

lemma client_index:
  "map (\<lambda>n. fmlookup (column_index client_header) (column_name n))
     [''Client ID'', ''Common Name'', ''Connected Since (time_t)'', ''Real Address'', ''Virtual Address'']
   = [Some 10, Some 1, Some 8, Some 2, Some 3]"
  using column_names by (simp add: client_header_def column_index_def)

lemma statusValue_first:
  assumes "name \<in> set header_names"
    and "fmlookup hdr (column_name name) = Some i" and "i < length cols"
  shows "statusValue uc cols hdr (name # names) = cols ! i"
  using assms by (simp add: statusValue.simps normalizeHeader_names)

lemma row_cols_nth:
  "row_cols r ! 10 = row_cid r" "row_cols r ! Suc 0 = row_cn r" "row_cols r ! 8 = itoa (row_time_t r)"
  "row_cols r ! 2 = row_real r" "row_cols r ! 3 = row_virtual r"
  by (simp_all add: row_cols_def)

lemma parse_row:
  assumes "row_ok r" and "sp_clientHeader p = header_index uc client_header"
  shows "parseClient uc p (row_cols r) = Ok (Some ((row_client r)\<lparr>sc_established := False\<rparr>))"
proof -
  have h: "sp_clientHeader p = column_index client_header"
    using assms(2) by (simp add: header_index_names client_header_names)
  have v: "statusValue uc (row_cols r) (sp_clientHeader p) (name # names) = row_cols r ! i"
    if "name \<in> set header_names" "i < 11"
      "fmlookup (column_index client_header) (column_name name) = Some i"
    for name names i
    using that statusValue_first by (simp add: h row_cols_def)
  have idx: "fmlookup (column_index client_header) (column_name ''Client ID'') = Some 10"
    "fmlookup (column_index client_header) (column_name ''Common Name'') = Some 1"
    "fmlookup (column_index client_header) (column_name ''Connected Since (time_t)'') = Some 8"
    "fmlookup (column_index client_header) (column_name ''Real Address'') = Some 2"
    "fmlookup (column_index client_header) (column_name ''Virtual Address'') = Some 3"
    using client_index by simp_all
  have mem: "''Client ID'' \<in> set header_names" "''Common Name'' \<in> set header_names"
    "''Connected Since (time_t)'' \<in> set header_names" "''Real Address'' \<in> set header_names"
    "''Virtual Address'' \<in> set header_names"
    by (simp_all add: header_names_def client_header_def)
  note vs = v [OF mem(1) _ idx(1)] v [OF mem(2) _ idx(2)] v [OF mem(3) _ idx(3)]
    v [OF mem(4) _ idx(4)] v [OF mem(5) _ idx(5)]
  have "itoa (row_time_t r) \<noteq> ''''" by (simp add: itoa_def)
  then show ?thesis
    using assms(1)
    by (simp add: parseClient_def vs row_cols_nth row_client_def row_ok_def ParseInt_itoa)
qed

text \<open>Consuming the rows of a client list appends their clients, in order.\<close>

lemma consume_row:
  assumes "row_ok r" and "sp_clientHeader p = header_index uc client_header"
  shows "consume uc p (row_line r) =
    Ok (False, p\<lparr>sp_clients := sp_clients p @ [(row_client r)\<lparr>sc_established := False\<rparr>]\<rparr>)"
proof -
  have s: "splitStatusLine (row_line r) = row_cols r"
    unfolding row_line_def using assms(1)
    by (intro splitStatusLine_join) (auto simp: row_ok_def row_cols_def)
  have "row_line r \<noteq> ''END''"
  proof
    assume "row_line r = ''END''"
    with s have "row_cols r = splitStatusLine ''END''" by simp
    also have "\<dots> = [''END'']" by code_simp
    finally show False by (simp add: row_cols_def)
  qed
  moreover have "hd (row_cols r) = ''CLIENT_LIST''" "row_cols r \<noteq> []" by (simp_all add: row_cols_def)
  ultimately show ?thesis
    using parse_row [OF assms]
    by (cases "row_cols r") (simp_all add: consume_def s)
qed

lemma consume_rows:
  assumes "\<And>r. r \<in> set rows \<Longrightarrow> row_ok r" and "sp_clientHeader p = header_index uc client_header"
  shows "consume_all uc p (map row_line rows @ rest) =
    consume_all uc
      (p\<lparr>sp_clients := sp_clients p @ map (\<lambda>r. (row_client r)\<lparr>sc_established := False\<rparr>) rows\<rparr>) rest"
  using assms by (induction rows arbitrary: p) (simp_all add: consume_row)

lemma consume_header:
  "consume uc p header_line = Ok (False, p\<lparr>sp_clientHeader := header_index uc client_header\<rparr>)"
proof -
  have "splitStatusLine header_line = ''HEADER'' # ''CLIENT_LIST'' # client_header"
    unfolding header_line_def by (rule splitStatusLine_join) (auto simp: client_header_def)
  moreover have "header_line \<noteq> ''END''" "3 \<le> length (''HEADER'' # ''CLIENT_LIST'' # client_header)"
    by (simp_all add: header_line_def client_header_def)
  ultimately show ?thesis by (simp add: consume_def Let_def client_header_def)
qed

lemma parse_status_rows:
  assumes "\<And>r. r \<in> set rows \<Longrightarrow> row_ok r"
  shows "ParseStatusLines uc (header_line # map row_line rows @ ''END'' # rest) =
    Ok \<lparr>ss_clients = map row_client rows,
        ss_established = map session_of (filter sc_established (map row_client rows))\<rparr>"
proof -
  have "finalize_client {} ((row_client r)\<lparr>sc_established := False\<rparr>) = row_client r" for r
    by (simp add: finalize_client_def row_client_def)
  moreover have "consume uc p ''END'' = Ok (True, finalize p)" for p
    by (simp add: consume_def)
  ultimately show ?thesis
    using consume_rows [of rows, OF assms, where p = "new_parser\<lparr>sp_clientHeader := header_index uc client_header\<rparr>" and uc = uc
        and rest = "''END'' # rest"]
    by (simp add: ParseStatusLines_def consume_header finalize_def new_parser_def empty_snapshot_def comp_def Let_def)
qed

text \<open>
  The parser reads back the client list that OpenVPN prints with tab-separated columns:
  for any rows, each with an id, a name, an \<open>int64\<close> connection time and any text without tabs in
  the other columns, the snapshot lists exactly these clients in order. An empty virtual address
  column stays empty (it does not shift the following columns) and is what makes the client not
  established; whatever follows \<open>END\<close> is not read.
\<close>

theorem status_rows_roundtrip:
  assumes "\<And>r. r \<in> set rows \<Longrightarrow> row_ok r"
  shows "ParseStatusLines uc (header_line # map row_line rows @ ''END'' # rest) =
    Ok \<lparr>ss_clients = map row_client rows,
        ss_established = map session_of (filter sc_established (map row_client rows))\<rparr>"
  using assms by (rule parse_status_rows)

definition sample_row :: client_row where
  "sample_row = \<lparr>row_cn = ''alice'', row_real = ''udp4:10.0.0.2:1194'', row_virtual = '''',
     row_virtual6 = '''', row_received = ''12'', row_sent = ''34'', row_since = ''2026-07-10 20:45:42'',
     row_time_t = 1783716342, row_user = ''UNDEF'', row_cid = ''7'', row_tail = [''0'', ''AES-256-GCM'']\<rparr>"

lemma sample_row_ok: "row_ok sample_row"
proof -
  have "CHR 0x09 \<notin> set (itoa 1783716342)"
    using nat_digits_all [of 1783716342] by (auto simp: itoa_def list_all_iff is_digit_def byte_def)
  then show ?thesis
    by (simp add: row_ok_def row_cols_def sample_row_def in_i64_def i64_min_def i64_max_def)
qed

theorem status_rows_roundtrip_witness:
  "ParseStatusLines (\<lambda>r. r) [header_line, row_line sample_row, ''END''] =
    Ok \<lparr>ss_clients = [row_client sample_row], ss_established = []\<rparr>"
proof -
  show ?thesis
    using sample_row_ok status_rows_roundtrip [of "[sample_row]" "\<lambda>r. r" "[]"]
    by (simp add: row_client_def sample_row_def)
qed

theorem status_snapshot_consistent_witness:
  "snapshot_ok \<lparr>ss_clients = [row_client (sample_row\<lparr>row_virtual := ''10.8.0.2''\<rparr>)],
     ss_established = [session_of (row_client (sample_row\<lparr>row_virtual := ''10.8.0.2''\<rparr>))]\<rparr>"
proof (rule status_snapshot_consistent)
  have "row_ok (sample_row\<lparr>row_virtual := ''10.8.0.2''\<rparr>)"
    using sample_row_ok by (simp add: row_ok_def row_cols_def)
  then show "ParseStatusLines (\<lambda>r. r)
      [header_line, row_line (sample_row\<lparr>row_virtual := ''10.8.0.2''\<rparr>), ''END''] =
    Ok \<lparr>ss_clients = [row_client (sample_row\<lparr>row_virtual := ''10.8.0.2''\<rparr>)],
        ss_established = [session_of (row_client (sample_row\<lparr>row_virtual := ''10.8.0.2''\<rparr>))]\<rparr>"
    using parse_status_rows [of "[sample_row\<lparr>row_virtual := ''10.8.0.2''\<rparr>]" "\<lambda>r. r" "[]"]
    by (simp add: row_client_def)
qed

end
