(* ===== verification/Rebuild.thy ===== *)
theory Rebuild
  imports Handler Status
begin

text \<open>
  The reconnect sweep of \<open>internal/auth/handler.go\<close>: tracking is rebuilt from a status snapshot
  after the management socket reconnects. Go ranges over the CID map in an arbitrary order, which
  is the argument \<open>ks\<close>. The sweep, the adoption of the established sessions and the update of the
  active index are one critical section; the expiry timers follow session by session.
\<close>

text \<open>Go's \<open><\<close> on strings: bytewise, a proper prefix first.\<close>

fun string_less :: "string \<Rightarrow> string \<Rightarrow> bool" where
  "string_less s [] = False"
| "string_less [] (d # t) = True"
| "string_less (c # s) (d # t) = (byte c < byte d \<or> c = d \<and> string_less s t)"

definition newerStatusSession :: "established_session \<Rightarrow> established_session \<Rightarrow> bool" where
  "newerStatusSession candidate current =
     (if es_connectedAt candidate \<noteq> es_connectedAt current
      then es_connectedAt current < es_connectedAt candidate
      else (case (ParseUint (es_cid candidate), ParseUint (es_cid current)) of
          (Some a, Some b) \<Rightarrow> b < a
        | _ \<Rightarrow> string_less (es_cid current) (es_cid candidate)))"

definition sweep_one :: "string list \<Rightarrow> handler \<Rightarrow> string \<Rightarrow> handler" where
  "sweep_one present h cid =
     (if cid \<in> set present then h
      else (case fmlookup (h_cids h) cid of
          None \<Rightarrow> h
        | Some st \<Rightarrow> stop_all st (untrack cid h)))"

definition sweep :: "string list \<Rightarrow> status_snapshot \<Rightarrow> handler \<Rightarrow> handler" where
  "sweep ks snapshot h = foldl (sweep_one (map sc_cid (ss_clients snapshot))) h ks"

type_synonym adoption = "(string, established_session) fmap \<times> decision list \<times> handler"

definition request_eviction :: "string \<Rightarrow> handler \<Rightarrow> handler" where
  "request_eviction cid h = adjust_cid cid (\<lambda>s. s\<lparr>cs_evictionRequested := True\<rparr>) h"

definition adopt_state :: "established_session \<Rightarrow> string \<Rightarrow> handler \<Rightarrow> handler" where
  "adopt_state session identity h =
     (let st = (case fmlookup (h_cids h) (es_cid session) of None \<Rightarrow> zero_cid_state | Some st \<Rightarrow> st) in
      h\<lparr>h_cids := fmupd (es_cid session)
          (st\<lparr>cs_cn := es_cn session, cs_identity := identity, cs_promoted := False,
              cs_established := True\<rparr>) (h_cids h),
        h_attempt := release identity (es_cid session) (h_attempt h)\<rparr>)"

definition adopt_one :: "(nat \<Rightarrow> nat) \<Rightarrow> adoption \<Rightarrow> established_session \<Rightarrow> adoption" where
  "adopt_one uc acc session =
     (case acc of (winners, evictions, h) \<Rightarrow>
      (case NormalizeIdentity uc (es_cn session) of
         Inl err \<Rightarrow> acc
       | Inr identity \<Rightarrow>
           let h1 = adopt_state session identity h in
           (case fmlookup winners identity of
              None \<Rightarrow> (fmupd identity session winners, evictions, h1)
            | Some winner \<Rightarrow>
                if newerStatusSession session winner then
                  (fmupd identity session winners, evictions @ [kill (es_cid winner) ''HALT''],
                   request_eviction (es_cid winner) h1)
                else
                  (winners, evictions @ [kill (es_cid session) ''HALT''],
                   request_eviction (es_cid session) h1))))"

definition adopt :: "(nat \<Rightarrow> nat) \<Rightarrow> established_session list \<Rightarrow> handler \<Rightarrow> adoption" where
  "adopt uc sessions h = foldl (adopt_one uc) (fmempty, [], h) sessions"

definition rebuild_locked ::
  "(nat \<Rightarrow> nat) \<Rightarrow> string list \<Rightarrow> status_snapshot \<Rightarrow> handler \<Rightarrow> decision list \<times> handler" where
  "rebuild_locked uc ks snapshot h =
     (case adopt uc (ss_established snapshot) (sweep ks snapshot h) of
        (winners, evictions, h1) \<Rightarrow>
          (evictions, h1\<lparr>h_active := h_active h1 ++\<^sub>f fmmap es_cid winners\<rparr>))"

definition expire_one ::
  "environ \<Rightarrow> decision list \<times> handler \<Rightarrow> established_session \<Rightarrow> decision list \<times> handler" where
  "expire_one e acc session =
     (case acc of (evictions, h) \<Rightarrow>
      if MaxSessionDuration (h_cfg h) \<le> 0 then acc
      else if MaxSessionDuration (h_cfg h) \<le> time_Since (time_now e h) (es_connectedAt session) then
        (evictions @ [kill (es_cid session) ''HALT''],
         request_eviction (es_cid session)
           (snd (replaceExpiryState (es_cid session) (es_connectedAt session) h)))
      else (evictions, startExpiryTimer e (es_cid session) (es_connectedAt session) h))"

definition RebuildSessionTrackingFromSnapshot ::
  "environ \<Rightarrow> string list \<Rightarrow> status_snapshot \<Rightarrow> handler \<Rightarrow> decision list \<times> handler" where
  "RebuildSessionTrackingFromSnapshot e ks snapshot h =
     foldl (expire_one e) (rebuild_locked (e_uc e) ks snapshot h) (ss_established snapshot)"

definition RebuildSessionTrackingFromStatus ::
  "environ \<Rightarrow> string list \<Rightarrow> established_session list \<Rightarrow> handler \<Rightarrow> handler" where
  "RebuildSessionTrackingFromStatus e ks sessions h =
     snd (RebuildSessionTrackingFromSnapshot e ks
       \<lparr>ss_clients = map (\<lambda>s. \<lparr>sc_cid = es_cid s, sc_cn = es_cn s, sc_realAddress = '''', sc_virtualAddress = '''',
          sc_connectedAt = es_connectedAt s, sc_established = True, sc_routingConfirmed = False\<rparr>) sessions,
        ss_established = sessions\<rparr> h)"

definition ReconciledEvictionNeeded :: "string \<Rightarrow> handler \<Rightarrow> bool" where
  "ReconciledEvictionNeeded cid h =
     (case fmlookup (h_cids h) cid of None \<Rightarrow> False | Some st \<Rightarrow> cs_evictionRequested st)"

end
