(* ===== verification/Ownership.thy ===== *)
theory Ownership
  imports Rebuild
begin

text \<open>
  Who owns an identity. The handler keeps two indexes from a normalized identity to a CID: the
  active session and the attempt in progress. The invariant \<open>owned\<close> says that they are right: a
  live session is the active one of its identity, and a connection that is waiting for its
  callback or promoted is the attempt of its identity. Two live sessions, or two attempts, of one
  identity are therefore impossible.

  The goroutines of the daemon interleave at the mutex, so the invariant is proved for the step
  relation \<open>section_step\<close>, whose steps are the critical sections of the handler with arbitrary
  arguments, and any change that touches neither the CID map nor the indexes. Every operation of
  the handler is shown to be a sequence of such steps.
\<close>

definition live :: "cid_state \<Rightarrow> bool" where
  "live st \<longleftrightarrow> cs_established st \<and> \<not> cs_evictionRequested st"

definition attempting :: "cid_state \<Rightarrow> bool" where
  "attempting st \<longleftrightarrow> (cs_cancel st \<noteq> None \<or> cs_promoted st) \<and> \<not> cs_established st"

definition active_ok :: "handler \<Rightarrow> bool" where
  "active_ok h \<longleftrightarrow> (\<forall>cid st. fmlookup (h_cids h) cid = Some st \<longrightarrow> live st \<longrightarrow>
     fmlookup (h_active h) (cs_identity st) = Some cid)"

definition attempt_ok :: "handler \<Rightarrow> bool" where
  "attempt_ok h \<longleftrightarrow> (\<forall>cid st. fmlookup (h_cids h) cid = Some st \<longrightarrow> attempting st \<longrightarrow>
     fmlookup (h_attempt h) (cs_identity st) = Some cid)"

definition owned :: "handler \<Rightarrow> bool" where
  "owned h \<longleftrightarrow> active_ok h \<and> attempt_ok h \<and> fmlookup (h_cids h) '''' = None"

section \<open>Critical sections\<close>

text \<open>
  What the sweep relies on: OpenVPN lists a client once, with a CID, and a session that was
  established and is still listed is listed as established, under a name with an identity.
\<close>

definition snapshot_keeps :: "(nat \<Rightarrow> nat) \<Rightarrow> status_snapshot \<Rightarrow> handler \<Rightarrow> bool" where
  "snapshot_keeps uc snapshot h \<longleftrightarrow>
     distinct (map es_cid (ss_established snapshot)) \<and>
     '''' \<notin> es_cid ` set (ss_established snapshot) \<and>
     (\<forall>cid st. fmlookup (h_cids h) cid = Some st \<longrightarrow> live st \<longrightarrow> cid \<in> sc_cid ` set (ss_clients snapshot) \<longrightarrow>
        (\<exists>session \<in> set (ss_established snapshot). es_cid session = cid \<and>
           \<not> isl (NormalizeIdentity uc (es_cn session))))"

inductive section_step :: "handler \<Rightarrow> handler \<Rightarrow> bool" where
  quiet: "h_cids h' = h_cids h \<Longrightarrow> h_active h' = h_active h \<Longrightarrow> h_attempt h' = h_attempt h \<Longrightarrow>
    section_step h h'"
| admit: "ev_cid ev \<noteq> '''' \<Longrightarrow> section_step h (snd (admit ev identity session n h))"
| untrack: "section_step h (untrack cid h)"
| cleanup: "section_step h (cleanupPromoted cid h)"
| clear: "section_step h (clearInFlight cid h)"
| promote: "section_step h (snd (promote_locked e cid h))"
| establish: "fmlookup (h_cids h) cid = Some st \<Longrightarrow> section_step h (snd (establish_locked cid st h))"
| expiry: "section_step h (snd (replaceExpiryState cid t h))"
| user: "section_step h (adjust_cid cid (\<lambda>s. s\<lparr>cs_cognitoUsername := u\<rparr>) h)"
| evict: "section_step h (request_eviction cid h)"
| rebuild: "fset_of_list ks = fmdom (h_cids h) \<Longrightarrow> snapshot_keeps uc snapshot h \<Longrightarrow>
    section_step h (snd (rebuild_locked uc ks snapshot h))"

inductive_cases section_stepE: "section_step h h'"

section \<open>Preservation\<close>

lemma owned_cong:
  "h_cids h' = h_cids h \<Longrightarrow> h_active h' = h_active h \<Longrightarrow> h_attempt h' = h_attempt h \<Longrightarrow> owned h' = owned h"
  by (simp add: owned_def active_ok_def attempt_ok_def)

lemma cancel_opt_simps [simp]:
  "h_cids (cancel_opt c h) = h_cids h" "h_active (cancel_opt c h) = h_active h"
  "h_attempt (cancel_opt c h) = h_attempt h" "h_cfg (cancel_opt c h) = h_cfg h"
  "h_liveSink (cancel_opt c h) = h_liveSink h" "h_sessions (cancel_opt c h) = h_sessions h"
  "h_out (cancel_opt c h) = h_out h" "h_tasks (cancel_opt c h) = h_tasks h"
  "h_statusProvider (cancel_opt c h) = h_statusProvider h"
  by (simp_all add: cancel_opt_def split: option.splits)

lemma adjust_cid_simps [simp]:
  "h_cids (adjust_cid cid f h) = fmadjust cid f (h_cids h)" "h_active (adjust_cid cid f h) = h_active h"
  "h_attempt (adjust_cid cid f h) = h_attempt h" "h_cfg (adjust_cid cid f h) = h_cfg h"
  "h_liveSink (adjust_cid cid f h) = h_liveSink h" "h_sessions (adjust_cid cid f h) = h_sessions h"
  "h_out (adjust_cid cid f h) = h_out h" "h_tasks (adjust_cid cid f h) = h_tasks h"
  by (simp_all add: adjust_cid_def)

lemma release_lookup:
  "cid \<noteq> '''' \<Longrightarrow> fmlookup (release i cid m) k =
     (if k = i \<and> fmlookup m i = Some cid then None else fmlookup m k)"
  by (auto simp: release_def getz_nonempty)

lemma release_other: "fmlookup m k = Some c \<Longrightarrow> c \<noteq> cid \<Longrightarrow> fmlookup (release i cid m) k = Some c"
  by (auto simp: release_def getz_def)

text \<open>A step that changes the state of one connection without making it live or an attempt, and
  leaves the indexes, keeps the invariant.\<close>

lemma owned_adjust:
  assumes "owned h" and "\<And>st. live (f st) \<Longrightarrow> live st" and "\<And>st. attempting (f st) \<Longrightarrow> attempting st"
    and "\<And>st. cs_identity (f st) = cs_identity st"
  shows "owned (adjust_cid cid f h)"
  using assms by (auto simp: owned_def active_ok_def attempt_ok_def split: if_splits)

lemma owned_untrack: "owned h \<Longrightarrow> owned (untrack cid h)"
  unfolding untrack_def
  by (auto simp: owned_def active_ok_def attempt_ok_def intro: release_other split: option.splits if_splits)

lemma owned_cleanup: "owned h \<Longrightarrow> owned (cleanupPromoted cid h)"
  unfolding cleanupPromoted_def
  by (auto simp: owned_def active_ok_def attempt_ok_def intro: release_other split: option.splits if_splits)

lemma owned_clear: "owned h \<Longrightarrow> owned (clearInFlight cid h)"
  unfolding clearInFlight_def
  by (auto simp: owned_def active_ok_def attempt_ok_def live_def attempting_def
      intro: release_other split: option.splits if_splits)

lemma owned_promote: "owned h \<Longrightarrow> owned (snd (promote_locked e cid h))"
  unfolding promote_locked_def
  by (auto simp: owned_def active_ok_def attempt_ok_def live_def attempting_def Let_def
      split: option.splits if_splits)

lemma owned_expiry: "owned h \<Longrightarrow> owned (snd (replaceExpiryState cid t h))"
  unfolding replaceExpiryState_def
  by (auto simp: owned_def active_ok_def attempt_ok_def live_def attempting_def Let_def
      split: option.splits if_splits)

lemma owned_track:
  assumes "active_ok h" and "fmlookup (h_cids h) '''' = None" and "ev_cid ev \<noteq> ''''"
    and "\<And>cid st. fmlookup (h_cids h) cid = Some st \<Longrightarrow> attempting st \<Longrightarrow> cid \<noteq> ev_cid ev \<Longrightarrow>
      fmlookup (h_attempt h) (cs_identity st) = Some cid \<and> cs_identity st \<noteq> identity"
  shows "owned (track ev identity session n h)"
  using assms
  by (auto simp: owned_def track_def active_ok_def attempt_ok_def zero_cid_state_def live_def
      split: if_splits)

text \<open>The only connection that can be attempting for an identity is the one the index names.\<close>

lemma attempt_holder:
  assumes "owned h" and "fmlookup (h_cids h) cid = Some st" and "attempting st"
  shows "getz (h_attempt h) (cs_identity st) = cid \<and> cid \<noteq> ''''"
proof -
  from assms have "fmlookup (h_attempt h) (cs_identity st) = Some cid" "cid \<noteq> ''''"
    by (auto simp: owned_def attempt_ok_def)
  then show ?thesis by (simp add: getz_nonempty)
qed

lemma admit_track:
  assumes "owned h" and "ev_cid ev \<noteq> ''''"
    and "\<And>st. fmlookup (h_cids h) (getz (h_attempt h) identity) = Some st \<Longrightarrow>
      attempting st \<Longrightarrow> cs_identity st \<noteq> identity"
  shows "owned (track ev identity session n (h\<lparr>h_attempt := fmdrop identity (h_attempt h)\<rparr>))"
    and "owned (track ev identity session n h)"
proof -
  have other: "cs_identity st \<noteq> identity \<and> fmlookup (h_attempt h) (cs_identity st) = Some cid"
    if "fmlookup (h_cids h) cid = Some st" "attempting st" for cid st
    using that assms(1,3) attempt_holder [OF assms(1) that] by (auto simp: owned_def attempt_ok_def)
  show "owned (track ev identity session n h)"
    using assms other by (intro owned_track) (auto simp: owned_def)
  show "owned (track ev identity session n (h\<lparr>h_attempt := fmdrop identity (h_attempt h)\<rparr>))"
    using assms other by (intro owned_track) (auto simp: owned_def active_ok_def)
qed

lemma owned_admit:
  assumes "owned h" and "ev_cid ev \<noteq> ''''"
  shows "owned (snd (admit ev identity session n h))"
proof -
  let ?old = "getz (h_attempt h) identity"
  show ?thesis
  proof (cases "?old = '''' \<or> ?old = ev_cid ev")
    case True
    moreover have "fmlookup (h_cids h) '''' = None" using assms(1) by (simp add: owned_def)
    ultimately show ?thesis using assms admit_track(2) [OF assms, of identity]
      by (auto simp: admit_def Let_def)
  next
    case False
    show ?thesis
    proof (cases "fmlookup (h_cids h) ?old")
      case None
      with False admit_track(1) [OF assms, of identity] show ?thesis by (simp add: admit_def Let_def)
    next
      case (Some ex)
      show ?thesis
      proof (cases "cs_promoted ex")
        case True
        with False Some assms show ?thesis by (simp add: admit_def Let_def)
      next
        case np: False
        show ?thesis
        proof (cases "cs_cancel ex")
          case None
          with np have "\<not> attempting ex" by (simp add: attempting_def)
          with False Some np None admit_track(1) [OF assms, of identity] show ?thesis
            by (simp add: admit_def Let_def)
        next
          case (Some c)
          let ?f = "\<lambda>s::cid_state. s\<lparr>cs_cancel := None, cs_sid := ''''\<rparr>"
          have o: "owned (adjust_cid ?old ?f (h\<lparr>h_sessions := st\<rparr>))" for st
            by (rule owned_adjust) (use assms in \<open>auto simp: owned_def active_ok_def attempt_ok_def
                live_def attempting_def\<close>)
          have "owned (track ev identity session n (adjust_cid ?old ?f (h\<lparr>h_sessions := st\<rparr>)))" for st
            by (rule admit_track(2) [OF o assms(2)])
               (use \<open>fmlookup (h_cids h) ?old = Some ex\<close> np in \<open>auto simp: attempting_def\<close>)
          with False \<open>fmlookup (h_cids h) ?old = Some ex\<close> np Some assms show ?thesis
            by (simp add: admit_def Let_def split: sum.splits prod.splits)
        qed
      qed
    qed
  qed
qed

lemma establish_locked_simps:
  assumes "fmlookup (h_cids h) cid = Some st"
  shows "fst (establish_locked cid st h) = getz (h_active h) (cs_identity st)"
    "fmlookup (h_cids (snd (establish_locked cid st h))) c =
       (if c = cid then Some (st\<lparr>cs_promoted := False, cs_established := True, cs_promotedCancel := None\<rparr>)
        else if c \<noteq> '''' \<and> c = getz (h_active h) (cs_identity st)
        then map_option (\<lambda>s. s\<lparr>cs_evictionRequested := True, cs_expiry := None\<rparr>) (fmlookup (h_cids h) c)
        else fmlookup (h_cids h) c)"
    "h_active (snd (establish_locked cid st h)) = fmupd (cs_identity st) cid (h_active h)"
    "h_cfg (snd (establish_locked cid st h)) = h_cfg h"
    "h_liveSink (snd (establish_locked cid st h)) = h_liveSink h"
    "h_out (snd (establish_locked cid st h)) = h_out h"
    "h_tasks (snd (establish_locked cid st h)) = h_tasks h"
  using assms
  by (auto simp: establish_locked_def Let_def split: option.splits)

lemma owned_establish:
  assumes "owned h" and "fmlookup (h_cids h) cid = Some st"
  shows "owned (snd (establish_locked cid st h))"
proof -
  have ne: "fmlookup (h_cids h) '''' = None" "cid \<noteq> ''''" using assms by (auto simp: owned_def)
  have act: "cs_evictionRequested s"
    if "fmlookup (h_cids h) c = Some s" "cs_established s" "fmlookup (h_active h) (cs_identity s) \<noteq> Some c"
    for c s
    using that assms(1) by (auto simp: owned_def active_ok_def live_def)
  have att: "fmlookup (h_attempt h) (cs_identity s) = Some c"
    if "fmlookup (h_cids h) c = Some s" "attempting s" for c s
    using that assms(1) by (simp add: owned_def attempt_ok_def)
  have "active_ok (snd (establish_locked cid st h))"
    unfolding active_ok_def
  proof (intro allI impI)
    fix c s
    assume c: "fmlookup (h_cids (snd (establish_locked cid st h))) c = Some s" and l: "live s"
    show "fmlookup (h_active (snd (establish_locked cid st h))) (cs_identity s) = Some c"
    proof (cases "c = cid")
      case True
      with c show ?thesis by (auto simp: establish_locked_simps [OF assms(2)])
    next
      case False
      with c l ne(1) have old: "fmlookup (h_cids h) c = Some s" "c \<noteq> ''''" "c \<noteq> getz (h_active h) (cs_identity st)"
        by (auto simp: establish_locked_simps [OF assms(2)] live_def split: if_splits)
      then have "fmlookup (h_active h) (cs_identity s) = Some c" using act l by (auto simp: live_def)
      with old(3) show ?thesis by (auto simp: establish_locked_simps [OF assms(2)] getz_def)
    qed
  qed
  moreover have "attempt_ok (snd (establish_locked cid st h))"
    unfolding establish_locked_def attempt_ok_def using assms(2) ne att
    by (auto simp: Let_def attempting_def intro: release_other split: option.splits if_splits)
  ultimately show ?thesis
    using ne assms(2) by (auto simp: owned_def establish_locked_def Let_def split: option.splits)
qed

section \<open>The reconnect sweep\<close>

lemma stop_all_simps [simp]:
  "h_cids (stop_all st h) = h_cids h" "h_active (stop_all st h) = h_active h"
  "h_attempt (stop_all st h) = h_attempt h" "h_cfg (stop_all st h) = h_cfg h"
  "h_liveSink (stop_all st h) = h_liveSink h" "h_out (stop_all st h) = h_out h"
  by (simp_all add: stop_all_def delete_session_def)

lemma owned_stop_all [simp]: "owned (stop_all st h) = owned h"
  by (rule owned_cong) simp_all

lemma owned_sweep: "owned h \<Longrightarrow> owned (sweep ks snapshot h)"
  unfolding sweep_def
  by (rule foldl_invariant) (auto simp: sweep_one_def owned_untrack split: option.splits)

lemma sweep_lookup:
  "fmlookup (h_cids (sweep ks snapshot h)) cid =
     (if cid \<in> set ks \<and> cid \<notin> sc_cid ` set (ss_clients snapshot) then None else fmlookup (h_cids h) cid)"
  unfolding sweep_def
proof (induction ks arbitrary: h)
  case (Cons k ks)
  then show ?case
    by (auto simp: sweep_one_def untrack_def split: option.splits)
qed simp

text \<open>
  The loop over the established sessions, from the state \<open>h0\<close>: \<open>ad\<close> are the CIDs adopted so far. A
  live connection is the winner of its identity if it has been adopted; otherwise it is as it was,
  and still the active one.
\<close>

definition live_ok :: "(string, established_session) fmap \<Rightarrow> string set \<Rightarrow> handler \<Rightarrow> bool" where
  "live_ok winners ad h \<longleftrightarrow>
     (\<forall>cid st. fmlookup (h_cids h) cid = Some st \<longrightarrow> live st \<longrightarrow>
        (if cid \<in> ad then map_option es_cid (fmlookup winners (cs_identity st)) = Some cid
         else fmlookup (h_active h) (cs_identity st) = Some cid))"

definition adopting :: "handler \<Rightarrow> string set \<Rightarrow> adoption \<Rightarrow> bool" where
  "adopting h0 ad acc \<longleftrightarrow>
     (case acc of (winners, evictions, h) \<Rightarrow>
        attempt_ok h \<and> fmlookup (h_cids h) '''' = None \<and> live_ok winners ad h \<and>
        (\<forall>w \<in> fmran' winners. es_cid w \<in> ad) \<and>
        (\<forall>cid. cid \<notin> ad \<longrightarrow> fmlookup (h_cids h) cid = fmlookup (h_cids h0) cid))"

definition adoptable :: "(nat \<Rightarrow> nat) \<Rightarrow> established_session \<Rightarrow> bool" where
  "adoptable uc s \<longleftrightarrow> \<not> isl (NormalizeIdentity uc (es_cn s))"

lemma attempt_ok_adopt:
  "attempt_ok h \<Longrightarrow> attempt_ok (adopt_state s i h)"
  "attempt_ok h \<Longrightarrow> attempt_ok (request_eviction cid h)"
  by (auto simp: adopt_state_def request_eviction_def attempt_ok_def attempting_def Let_def
      intro: release_other split: if_splits option.splits)

lemma adopt_state_lookup:
  "cid \<noteq> es_cid s \<Longrightarrow> fmlookup (h_cids (adopt_state s i h)) cid = fmlookup (h_cids h) cid"
  "fmlookup (h_cids (adopt_state s i h)) (es_cid s) = Some st \<Longrightarrow> cs_identity st = i"
  "h_active (adopt_state s i h) = h_active h"
  by (auto simp: adopt_state_def Let_def split: option.splits)

lemma request_eviction_lookup:
  "cid \<noteq> c \<Longrightarrow> fmlookup (h_cids (request_eviction c h)) cid = fmlookup (h_cids h) cid"
  "fmlookup (h_cids (request_eviction c h)) c = Some st \<Longrightarrow> \<not> live st"
  "h_active (request_eviction c h) = h_active h"
  "fmlookup (h_cids (request_eviction c h)) cid = None \<longleftrightarrow> fmlookup (h_cids h) cid = None"
  by (auto simp: request_eviction_def live_def)

lemma live_ok_step:
  assumes "live_ok winners ad h" and "c \<notin> ad" and "h_active h' = h_active h"
    and other: "\<And>cid. cid \<noteq> c \<Longrightarrow> cid \<noteq> f \<Longrightarrow> fmlookup (h_cids h') cid = fmlookup (h_cids h) cid"
    and new: "\<And>st. fmlookup (h_cids h') c = Some st \<Longrightarrow> live st \<Longrightarrow>
      cs_identity st = i \<and> map_option es_cid (fmlookup winners' i) = Some c"
    and flagged: "\<And>st. f \<noteq> c \<Longrightarrow> fmlookup (h_cids h') f = Some st \<Longrightarrow> \<not> live st"
    and win: "\<And>j. j \<noteq> i \<Longrightarrow> fmlookup winners' j = fmlookup winners j"
    and wi: "\<And>w. fmlookup winners i = Some w \<Longrightarrow> es_cid w = f \<or> fmlookup winners' i = Some w"
  shows "live_ok winners' (insert c ad) h'"
  unfolding live_ok_def
proof (intro allI impI)
  fix cid st
  assume l: "fmlookup (h_cids h') cid = Some st" "live st"
  show "if cid \<in> insert c ad then map_option es_cid (fmlookup winners' (cs_identity st)) = Some cid
        else fmlookup (h_active h') (cs_identity st) = Some cid"
  proof (cases "cid = c")
    case True
    then show ?thesis using new l by auto
  next
    case False
    with l flagged other have o: "fmlookup (h_cids h) cid = Some st" "cid \<noteq> f" by metis+
    with assms(1) l(2) have "if cid \<in> ad then map_option es_cid (fmlookup winners (cs_identity st)) = Some cid
        else fmlookup (h_active h) (cs_identity st) = Some cid" by (simp add: live_ok_def)
    with False o(2) win [of "cs_identity st"] wi assms(3) show ?thesis
      by (cases "cs_identity st = i") (auto split: if_splits)
  qed
qed

lemma adopting_step:
  assumes "adopting h0 ad acc" and "es_cid s \<noteq> ''''" and "es_cid s \<notin> ad"
  shows "adopting h0 (if adoptable uc s then insert (es_cid s) ad else ad) (adopt_one uc acc s)"
proof (cases "NormalizeIdentity uc (es_cn s)")
  case (Inl err)
  with assms show ?thesis by (simp add: adopt_one_def adoptable_def split: prod.splits)
next
  case (Inr i)
  obtain winners evs h where acc: "acc = (winners, evs, h)" by (cases acc)
  have ad: "adoptable uc s" using Inr by (simp add: adoptable_def)
  have a: "attempt_ok h" "fmlookup (h_cids h) '''' = None" "live_ok winners ad h"
    "\<And>j w. fmlookup winners j = Some w \<Longrightarrow> es_cid w \<in> ad"
    "\<And>cid. cid \<notin> ad \<Longrightarrow> fmlookup (h_cids h) cid = fmlookup (h_cids h0) cid"
    using assms(1) by (auto simp: adopting_def acc intro: fmran'I)
  let ?h = "adopt_state s i h"
  have upd: "es_cid w \<in> insert (es_cid s) ad" if "w \<in> fmran' (fmupd i s winners)" for w
    using that a(4) by (auto elim!: fmran'E split: if_splits)
  show ?thesis
  proof (cases "fmlookup winners i")
    case None
    have "live_ok (fmupd i s winners) (insert (es_cid s) ad) ?h"
      by (rule live_ok_step [OF a(3) assms(3), where f = "es_cid s" and i = i])
         (use None in \<open>auto simp: adopt_state_lookup\<close>)
    then show ?thesis
      using None Inr ad assms(2) a upd
      by (auto simp: adopting_def acc adopt_one_def attempt_ok_adopt adopt_state_lookup Let_def)
  next
    case (Some w)
    then have w: "es_cid w \<in> ad" "es_cid w \<noteq> es_cid s" using a(4) [of i w] assms(3) by auto
    then have nw: "cid \<noteq> es_cid w" if "cid \<notin> ad" for cid using that by auto
    show ?thesis
    proof (cases "newerStatusSession s w")
      case True
      have "live_ok (fmupd i s winners) (insert (es_cid s) ad) (request_eviction (es_cid w) ?h)"
        by (rule live_ok_step [OF a(3) assms(3), where f = "es_cid w" and i = i])
           (use Some w in \<open>auto simp: adopt_state_lookup request_eviction_lookup\<close>)
      then show ?thesis
        using Some True Inr ad assms(2) a upd w nw
        by (auto simp: adopting_def acc adopt_one_def attempt_ok_adopt adopt_state_lookup Let_def
            request_eviction_lookup)
    next
      case False
      have "live_ok winners (insert (es_cid s) ad) (request_eviction (es_cid s) ?h)"
        by (rule live_ok_step [OF a(3) assms(3), where f = "es_cid s" and i = i])
           (use Some w in \<open>auto simp: adopt_state_lookup request_eviction_lookup\<close>)
      then show ?thesis
        using Some False Inr ad assms(2) a w
        by (auto simp: adopting_def acc adopt_one_def attempt_ok_adopt adopt_state_lookup Let_def
            request_eviction_lookup elim!: fmran'E)
    qed
  qed
qed

lemma adopting_fold:
  assumes "adopting h0 ad acc" and "distinct (map es_cid ss)" and "'''' \<notin> es_cid ` set ss"
    and "ad \<inter> es_cid ` set ss = {}"
  shows "adopting h0 (ad \<union> es_cid ` {s \<in> set ss. adoptable uc s}) (foldl (adopt_one uc) acc ss)"
  using assms
proof (induction ss arbitrary: ad acc)
  case (Cons s ss)
  let ?ad = "if adoptable uc s then insert (es_cid s) ad else ad"
  have "adopting h0 ?ad (adopt_one uc acc s)"
    using Cons.prems by (intro adopting_step) auto
  then have "adopting h0 (?ad \<union> es_cid ` {s \<in> set ss. adoptable uc s})
      (foldl (adopt_one uc) (adopt_one uc acc s) ss)"
    using Cons.prems by (intro Cons.IH) (auto split: if_splits)
  moreover have "?ad \<union> es_cid ` {s \<in> set ss. adoptable uc s} =
      ad \<union> es_cid ` {t \<in> set (s # ss). adoptable uc t}" by auto
  ultimately show ?case by simp
qed simp

lemma owned_rebuild:
  assumes "owned h" and "fset_of_list ks = fmdom (h_cids h)" and "snapshot_keeps uc snapshot h"
  shows "owned (snd (rebuild_locked uc ks snapshot h))"
proof -
  let ?h = "sweep ks snapshot h" and ?ss = "ss_established snapshot"
  let ?ad = "es_cid ` {s \<in> set ?ss. adoptable uc s}"
  have "owned ?h" by (rule owned_sweep) fact
  then have "adopting ?h {} (fmempty, [], ?h)"
    by (auto simp: adopting_def owned_def active_ok_def live_ok_def elim!: fmran'E)
  then have a: "adopting ?h ?ad (adopt uc ?ss ?h)"
    using adopting_fold [of ?h "{}" "(fmempty, [], ?h)" ?ss uc] assms(3)
    by (simp add: snapshot_keeps_def adopt_def)
  obtain winners evs h1 where r: "adopt uc ?ss ?h = (winners, evs, h1)" by (cases "adopt uc ?ss ?h")
  have "cid \<in> ?ad" if st: "fmlookup (h_cids h1) cid = Some st" "live st" for cid st
  proof (rule ccontr)
    assume n: "cid \<notin> ?ad"
    then have "fmlookup (h_cids ?h) cid = Some st"
      using a st(1) unfolding r adopting_def by auto
    then have t: "fmlookup (h_cids h) cid = Some st" "cid \<in> sc_cid ` set (ss_clients snapshot)"
      using assms(2) by (auto simp: sweep_lookup fset_of_list_elem [symmetric] fmdomI split: if_splits)
    with assms(3) st(2) obtain ses where "ses \<in> set ?ss" "es_cid ses = cid" "adoptable uc ses"
      unfolding snapshot_keeps_def adoptable_def by metis
    with n show False by auto
  qed
  then show ?thesis
    using a unfolding r rebuild_locked_def adopting_def live_ok_def
    by (fastforce simp: r owned_def active_ok_def attempt_ok_def)
qed

section \<open>Every interleaving keeps the invariant\<close>

definition fresh_handler :: "handler \<Rightarrow> bool" where
  "fresh_handler h \<longleftrightarrow> (\<exists>cfg store k. h = NewHandler cfg store k)"

lemma section_step_owned:
  assumes "section_step h h'" and "owned h"
  shows "owned h'"
  using assms
proof (cases rule: section_step.cases)
  case quiet
  with assms(2) owned_cong show ?thesis by blast
next
  case user
  show ?thesis unfolding user
    by (rule owned_adjust [OF assms(2)]) (simp_all add: live_def attempting_def)
next
  case evict
  show ?thesis unfolding evict request_eviction_def
    by (rule owned_adjust [OF assms(2)]) (simp_all add: live_def attempting_def)
qed (simp_all add: assms(2) owned_admit owned_untrack owned_cleanup owned_clear owned_promote
    owned_establish owned_expiry owned_rebuild)

interpretation sections: transition_system fresh_handler section_step owned
proof
  show "owned h" if "fresh_handler h" for h
    using that by (auto simp: fresh_handler_def NewHandler_def owned_def active_ok_def attempt_ok_def)
qed (rule section_step_owned)

abbreviation section_steps :: "handler \<Rightarrow> handler \<Rightarrow> bool" where
  "section_steps \<equiv> section_step\<^sup>*\<^sup>*"

section \<open>The operations are sequences of critical sections\<close>

named_theorems sections_intros "operations as sequences of critical sections"

lemma steps_quiet:
  "h_cids h' = h_cids h \<Longrightarrow> h_active h' = h_active h \<Longrightarrow> h_attempt h' = h_attempt h \<Longrightarrow>
     section_steps h h'"
  by (intro r_into_rtranclp section_step.quiet)

lemma steps_then: "section_steps h h1 \<Longrightarrow> section_steps h1 h2 \<Longrightarrow> section_steps h h2"
  by (rule rtranclp_trans)

lemma effects_quiet [sections_intros]:
  "section_steps h h1 \<Longrightarrow> section_steps h (emit x h1)"
  "section_steps h h1 \<Longrightarrow> section_steps h (metric m h1)"
  "section_steps h h1 \<Longrightarrow> section_steps h (sendOrLog s d h1)"
  "section_steps h h1 \<Longrightarrow> section_steps h (spawn g h1)"
  "section_steps h h1 \<Longrightarrow> section_steps h (cancel_ctx n h1)"
  "section_steps h h1 \<Longrightarrow> section_steps h (stop_all st h1)"
  "section_steps h h1 \<Longrightarrow> section_steps h (delete_session sid h1)"
  "section_steps h h1 \<Longrightarrow> section_steps h (deny_connect s ev w r h1)"
  "section_steps h h1 \<Longrightarrow> section_steps h (deny_reauth s ev w r h1)"
  "section_steps h h1 \<Longrightarrow> section_steps h (h1\<lparr>h_sessions := store\<rparr>)"
  "section_steps h h1 \<Longrightarrow> section_steps h (h1\<lparr>h_cache := ca\<rparr>)"
  "section_steps h h1 \<Longrightarrow> section_steps h (h1\<lparr>h_next := k\<rparr>)"
  by (erule steps_then, rule steps_quiet;
      simp add: metric_def sendOrLog_def spawn_def delete_session_def deny_connect_def deny_reauth_def)+

lemma steps_section: "section_steps h h1 \<Longrightarrow> section_step h1 h2 \<Longrightarrow> section_steps h h2"
  by (rule rtranclp.rtrancl_into_rtrancl)

lemma steps_handleDisconnect [sections_intros]:
  "section_steps h h1 \<Longrightarrow> section_steps h (handleDisconnect cid h1)"
  by (auto simp: handleDisconnect_def intro!: sections_intros intro: steps_section section_step.untrack
      split: option.splits)

lemma steps_evictSession: "section_steps h (snd (evictSession cid h))"
proof -
  have "section_steps h (untrack cid h)" by (intro r_into_rtranclp section_step.untrack)
  then show ?thesis
    by (auto simp: evictSession_def Let_def intro: effects_quiet(6) split: option.splits)
qed

lemma steps_promoteSession [sections_intros]:
  assumes "section_steps h h1"
  shows "section_steps h (promoteSession e cid h1)"
proof -
  have "section_steps h (snd (promote_locked e cid h1))"
    by (rule steps_section [OF assms section_step.promote])
  then show ?thesis
    by (auto simp: promoteSession_def intro!: effects_quiet split: prod.splits option.splits)
qed

lemma steps_startExpiryTimer [sections_intros]:
  assumes "section_steps h h1"
  shows "section_steps h (startExpiryTimer e cid t h1)"
proof -
  have "section_steps h (snd (replaceExpiryState cid t h1))"
    by (rule steps_section [OF assms section_step.expiry])
  then show ?thesis
    by (auto simp: startExpiryTimer_def Let_def intro!: effects_quiet split: prod.splits)
qed

lemma steps_killReplacedActive [sections_intros]:
  "section_steps h h1 \<Longrightarrow> section_steps h (killReplacedActive e old s h1)"
  by (auto simp: killReplacedActive_def send_decision_def query_status_def Let_def
      intro!: sections_intros split: option.splits sum.splits)

lemma steps_establishCID [sections_intros]:
  assumes "section_steps h h1"
  shows "section_steps h (establishCID e cid t auth h1)"
proof (cases "fmlookup (h_cids h1) cid")
  case (Some st)
  have "section_steps h (snd (establish_locked cid st h1))"
    by (rule steps_section [OF assms section_step.establish [OF Some]])
  with Some show ?thesis
    by (auto simp: establishCID_def Let_def intro!: sections_intros split: prod.splits option.splits)
qed (use assms in \<open>simp add: establishCID_def\<close>)

lemma steps_cleanup [sections_intros]:
  "section_steps h h1 \<Longrightarrow> section_steps h (cleanupPromoted cid h1)"
  by (rule steps_section [OF _ section_step.cleanup])

lemma steps_reconcilePromoted [sections_intros]:
  "section_steps h h1 \<Longrightarrow> section_steps h (snd (reconcilePromoted e cid h1))"
  by (auto simp: reconcilePromoted_def query_status_def Let_def intro!: sections_intros
      split: sum.splits option.splits)

lemma steps_killStalledPromoted [sections_intros]:
  "section_steps h h1 \<Longrightarrow> section_steps h (killStalledPromoted e cid h1)"
  by (auto simp: killStalledPromoted_def send_decision_def Let_def intro!: sections_intros
      split: option.splits)

lemma steps_resolve_conflict [sections_intros]:
  "section_steps h h1 \<Longrightarrow> section_steps h (snd (resolve_conflict e ev s cid h1))"
  by (auto simp: resolve_conflict_def query_status_def Let_def intro!: sections_intros
      split: sum.splits option.splits)

lemma steps_connect_prepare:
  "connect_prepare e ev s h = Inl h1 \<Longrightarrow> section_steps h h1"
  "connect_prepare e ev s h = Inr (i, ses, u, h2) \<Longrightarrow> section_steps h h2"
  by (auto simp: connect_prepare_def generateRandomToken_def Let_def intro!: effects_quiet
      split: if_splits sum.splits option.splits)

lemma steps_connect_pending [sections_intros]:
  "section_steps h h1 \<Longrightarrow> section_steps h (connect_pending c ev ses u superseded s h1)"
  by (auto simp: connect_pending_def Let_def intro!: effects_quiet split: option.splits)

lemma steps_handleConnect:
  assumes "ev_cid ev \<noteq> ''''"
  shows "section_steps h (handleConnect e c ev s h)"
proof (rule handleConnect_rounds [where R = section_steps])
  fix h i ses u h1 adm h3
  assume prep: "connect_prepare e ev s h = Inr (i, ses, u, h1)"
    and adm: "admit ev i ses (h_next h1) (h1\<lparr>h_next := Suc (h_next h1)\<rparr>) = (adm, h3)"
  have "section_steps h (h1\<lparr>h_next := Suc (h_next h1)\<rparr>)"
    using steps_connect_prepare(2) [OF prep] by (intro effects_quiet)
  then have "section_steps h h3"
    using steps_section section_step.admit [OF assms, of _ i ses "h_next h1"] adm by fastforce
  then show "case adm of
      Duplicate \<Rightarrow> section_steps h (cancel_ctx (h_next h1) h3)
    | Busy \<Rightarrow> section_steps h (deny_connect s ev ''auth_in_progress'' in_progress (cancel_ctx (h_next h1) h3))
    | Admitted superseded \<Rightarrow>
        section_steps h (connect_pending (CancelCtx c (h_next h1)) ev ses u superseded s h3)
    | PromotedConflict cid \<Rightarrow>
        section_steps h (snd (resolve_conflict e ev s cid (cancel_ctx (h_next h1) h3)))"
    by (cases adm) (auto intro!: sections_intros)
qed (auto intro: steps_connect_prepare(1) steps_then)

lemma steps_clear [sections_intros]:
  "section_steps h h1 \<Longrightarrow> section_steps h (clearInFlight cid h1)"
  by (rule steps_section [OF _ section_step.clear])

lemma steps_authTimeout: "section_steps h (authTimeout sel session s h)"
  by (auto simp: authTimeout_def intro!: sections_intros split: selected.splits prod.splits sum.splits)

lemma steps_handleReauth: "section_steps h (handleReauth e ev s h)"
  by (auto simp: handleReauth_def reauth_backstop_def check_user_def cache_allows_def finishReauth_def
      Let_def intro!: effects_quiet split: option.splits sum.splits prod.splits if_splits bool.splits)

lemma steps_MarkAuthenticated: "section_steps h (MarkAuthenticated e cid u h)"
proof -
  have "section_steps h (adjust_cid cid (\<lambda>s. s\<lparr>cs_cognitoUsername := u\<rparr>) h)"
    by (intro r_into_rtranclp section_step.user)
  then show ?thesis by (auto simp: MarkAuthenticated_def intro!: sections_intros)
qed

lemma steps_waitForPromotedDeadline: "section_steps h (waitForPromotedDeadline e sel1 sel2 cid h)"
proof -
  have r: "section_steps h h2" if "reconcilePromoted e cid h1 = (x, h2)" "section_steps h h1" for h1 h2 x
    using steps_reconcilePromoted [OF that(2), of e cid] that(1) by simp
  then show ?thesis
    by (auto simp: waitForPromotedDeadline_def intro!: steps_killStalledPromoted
        intro: r split: selected.splits prod.splits outcome.splits)
qed

lemma steps_sessionExpiryTimer: "section_steps h (sessionExpiryTimer sel cid h)"
  by (auto simp: sessionExpiryTimer_def killExpiredSession_def Let_def intro!: effects_quiet
      split: selected.splits option.splits)

lemma steps_HandleEvent:
  assumes "ev_type ev = EventConnect \<longrightarrow> ev_cid ev \<noteq> ''''"
  shows "section_steps h (HandleEvent e c ev s h)"
  using assms
  by (auto simp: HandleEvent_def onEstablished_def steps_handleConnect intro!: sections_intros
      split: event_type.splits)

lemma steps_expire_one:
  assumes "section_steps h h1"
  shows "section_steps h (snd (expire_one e (evs, h1) session))"
proof -
  have "section_steps h (request_eviction cid (snd (replaceExpiryState cid t h1)))" for cid t
    by (rule steps_section [OF steps_section [OF assms section_step.expiry] section_step.evict])
  then show ?thesis
    using assms by (auto simp: expire_one_def intro: steps_startExpiryTimer)
qed

lemma steps_Rebuild:
  assumes "fset_of_list ks = fmdom (h_cids h)" and "snapshot_keeps (e_uc e) snapshot h"
  shows "section_steps h (snd (RebuildSessionTrackingFromSnapshot e ks snapshot h))"
  unfolding RebuildSessionTrackingFromSnapshot_def
proof (rule foldl_invariant [of "\<lambda>acc. section_steps h (snd acc)"])
  show "section_steps h (snd (rebuild_locked (e_uc e) ks snapshot h))"
    using assms by (intro r_into_rtranclp section_step.rebuild)
  show "section_steps h (snd (expire_one e acc session))" if "section_steps h (snd acc)" for acc session
    using steps_expire_one [OF that, of e "fst acc" session] by simp
qed

text \<open>The events the management reader delivers carry a CID.\<close>

lemma read_env_header:
  "read_env ev err ls = (Ok ev', rest) \<Longrightarrow>
     ev_cid ev' = ev_cid ev \<and> (ev_type ev' = EventConnect \<longrightarrow> ev_type ev = EventConnect)"
  by (induction ev err ls rule: read_env.induct)
     (auto simp: Let_def split: if_splits option.splits)

lemma ParseHeader_connect: "ParseHeader line = Ok (EventConnect, cid, kid) \<Longrightarrow> cid \<noteq> ''''"
  unfolding ParseHeader_def
  by (auto simp: parseCIDKID_def Let_def split: if_splits list.splits)

lemma ReadEvent_connect:
  "ReadEvent header err ls = (Ok ev, rest) \<Longrightarrow> ev_type ev = EventConnect \<Longrightarrow> ev_cid ev \<noteq> ''''"
  unfolding ReadEvent_def
  by (auto simp: Let_def split: sum.splits if_splits dest!: read_env_header)
     (auto dest: ParseHeader_connect)

section \<open>What follows for identities\<close>

text \<open>
  C1: new wins, and only one. In every state the handler can reach, however its goroutines
  interleave at the mutex (events, callbacks, timeouts, deadlines, reconnect sweeps), two
  connections of the same identity that are established and not marked for eviction are the same
  connection.
\<close>

theorem single_live_session:
  assumes "reachable_from fresh_handler section_step h"
    and "fmlookup (h_cids h) c1 = Some st1" and "live st1"
    and "fmlookup (h_cids h) c2 = Some st2" and "live st2"
    and "cs_identity st1 = cs_identity st2"
  shows "c1 = c2"
  using sections.reachable_inv [OF assms(1)] assms(2-)
  unfolding owned_def active_ok_def by (metis option.inject)

definition sample_handler :: handler where
  "sample_handler = NewHandler sample_config NewSessionStore \<lparr>signer_secret = ''0123456789abcdef''\<rparr>"

definition sample_snapshot :: status_snapshot where
  "sample_snapshot =
     \<lparr>ss_clients = [\<lparr>sc_cid = ''7'', sc_cn = ''Alice'', sc_realAddress = '''', sc_virtualAddress = ''10.8.0.2'',
        sc_connectedAt = 5, sc_established = True, sc_routingConfirmed = True\<rparr>],
      ss_established = [\<lparr>es_cid = ''7'', es_cn = ''Alice'', es_connectedAt = 5\<rparr>]\<rparr>"

lemma sample_identity: "NormalizeIdentity id ''Alice'' = Inr ''alice''"
  by code_simp

lemma sample_rebuilt:
  "fmlookup (h_cids (snd (rebuild_locked id [] sample_snapshot sample_handler))) ''7'' =
     Some (zero_cid_state\<lparr>cs_cn := ''Alice'', cs_identity := ''alice'', cs_established := True\<rparr>)"
  by (simp add: rebuild_locked_def sweep_def adopt_def adopt_one_def sample_snapshot_def sample_identity
      adopt_state_def sample_handler_def NewHandler_def zero_cid_state_def Let_def)

lemma sample_reachable:
  "reachable_from fresh_handler section_step (snd (rebuild_locked id [] sample_snapshot sample_handler))"
proof (rule reachable_from.step [OF reachable_from.start])
  show "fresh_handler sample_handler" by (auto simp: fresh_handler_def sample_handler_def)
  show "section_step sample_handler (snd (rebuild_locked id [] sample_snapshot sample_handler))"
    by (rule section_step.rebuild)
       (simp_all add: sample_handler_def NewHandler_def snapshot_keeps_def sample_snapshot_def)
qed

theorem single_live_session_witness:
  "\<exists>st. fmlookup (h_cids (snd (rebuild_locked id [] sample_snapshot sample_handler))) ''7'' = Some st \<and>
     live st \<and> ''7'' = ''7''"
proof -
  let ?st = "zero_cid_state\<lparr>cs_cn := ''Alice'', cs_identity := ''alice'', cs_established := True\<rparr>"
  have l: "live ?st" by (simp add: live_def zero_cid_state_def)
  from single_live_session [OF sample_reachable sample_rebuilt l sample_rebuilt l refl] sample_rebuilt l
  show ?thesis by blast
qed

text \<open>
  C9: one attempt at a time. In every reachable state at most one connection of an identity is
  waiting for its callback or promoted without being established, and the attempt index names it.
\<close>

theorem single_attempt:
  assumes "reachable_from fresh_handler section_step h"
    and "fmlookup (h_cids h) c1 = Some st1" and "attempting st1"
    and "fmlookup (h_cids h) c2 = Some st2" and "attempting st2"
    and "cs_identity st1 = cs_identity st2"
  shows "c1 = c2 \<and> fmlookup (h_attempt h) (cs_identity st1) = Some c1"
  using sections.reachable_inv [OF assms(1)] assms(2-)
  unfolding owned_def attempt_ok_def by (metis option.inject)

definition sample_connect :: event where
  "sample_connect = \<lparr>ev_type = EventConnect, ev_cid = ''9'', ev_kid = ''1'',
     ev_env = fmap_of_list [(''common_name'', ''Alice''), (''IV_SSO'', ''webauth'')]\<rparr>"

definition sample_admitted :: handler where
  "sample_admitted =
     snd (admit sample_connect ''alice'' (new_session sample_config sample_connect ''sid'' 0) 3 sample_handler)"

theorem single_attempt_witness:
  "fmlookup (h_attempt sample_admitted) ''alice'' = Some ''9''"
proof -
  have r: "reachable_from fresh_handler section_step sample_admitted"
    unfolding sample_admitted_def
    by (rule reachable_from.step [OF reachable_from.start [of fresh_handler sample_handler]],
        force simp: fresh_handler_def sample_handler_def)
       (rule section_step.admit, simp add: sample_connect_def)
  obtain st where st: "fmlookup (h_cids sample_admitted) ''9'' = Some st" "attempting st"
    "cs_identity st = ''alice''"
    by (simp add: sample_admitted_def admit_def track_def sample_handler_def NewHandler_def
        sample_connect_def attempting_def zero_cid_state_def)
  from single_attempt [OF r st(1,2) st(1,2) refl] st(3) show ?thesis by simp
qed

text \<open>
  The handler's operations are interleavings of these critical sections. Handling any event
  the management reader delivers, the auth timeout, re-authentication, the notification of a
  callback, the promotion deadline and the expiry timer reach their final state by section steps
  only, so the two guarantees hold for all of them, in any order and any interleaving.
\<close>

theorem operations_are_sections:
  assumes "ReadEvent header err ls = (Ok ev, rest)"
  shows "section_steps h (HandleEvent e c ev s h) \<and> section_steps h (handleReauth e ev s h) \<and>
    section_steps h (authTimeout sel session s h) \<and> section_steps h (MarkAuthenticated e cid u h) \<and>
    section_steps h (waitForPromotedDeadline e sel sel2 cid h) \<and>
    section_steps h (sessionExpiryTimer sel cid h)"
  using ReadEvent_connect [OF assms]
  by (simp add: steps_HandleEvent steps_handleReauth steps_authTimeout steps_MarkAuthenticated
      steps_waitForPromotedDeadline steps_sessionExpiryTimer)

theorem operations_are_sections_witness:
  "\<exists>ev. ReadEvent ''>CLIENT:DISCONNECT,7'' None [''>CLIENT:ENV,END''] = (Ok ev, []) \<and> ev_cid ev = ''7'' \<and>
     (\<forall>e c s h. section_steps h (HandleEvent e c ev s h))"
proof -
  let ?ev = "\<lparr>ev_type = EventDisconnect, ev_cid = ''7'', ev_kid = '''', ev_env = fmempty\<rparr>"
  have "ReadEvent ''>CLIENT:DISCONNECT,7'' None [''>CLIENT:ENV,END''] = (Ok ?ev, [])"
    by code_simp
  with operations_are_sections [OF this] show ?thesis by (intro exI [of _ ?ev]) simp
qed

text \<open>
  The reconnect sweep keeps both guarantees too, in whatever order Go ranges over the map,
  for a snapshot that lists each client once and still lists as established what it lists of the
  live sessions.
\<close>

theorem rebuild_keeps_ownership:
  assumes "fset_of_list ks = fmdom (h_cids h)" and "snapshot_keeps (e_uc e) snapshot h" and "owned h"
  shows "owned (snd (RebuildSessionTrackingFromSnapshot e ks snapshot h))"
  using sections.steps_inv [OF steps_Rebuild [OF assms(1,2)] assms(3)] .

theorem rebuild_keeps_ownership_witness:
  "owned (snd (RebuildSessionTrackingFromSnapshot
     \<lparr>e_uc = id, e_now = (\<lambda>_. 9), e_rand = (\<lambda>_. None), e_send = (\<lambda>_. None), e_status = (\<lambda>_. Inl ''''),
      e_check = (\<lambda>_. Inl '''')\<rparr> [] sample_snapshot sample_handler))"
  by (rule rebuild_keeps_ownership)
     (simp_all add: sample_handler_def NewHandler_def snapshot_keeps_def sample_snapshot_def owned_def
       active_ok_def attempt_ok_def)

end
