(* ===== verification/Decisions.thy ===== *)
theory Decisions
  imports Ownership
begin

text \<open>
  What the handler decides: which effects each operation adds to the trace, when a
  re-authentication is granted, what a connection attempt is answered with, what establishing a
  session does to the session it replaces, and how the maximum session duration is anchored.
\<close>

section \<open>The trace only grows\<close>

text \<open>\<open>adds P h h'\<close>: \<open>h'\<close> has the trace of \<open>h\<close> followed by effects that all satisfy \<open>P\<close>.\<close>

definition adds :: "(effect \<Rightarrow> bool) \<Rightarrow> handler \<Rightarrow> handler \<Rightarrow> bool" where
  "adds P h h' \<longleftrightarrow> (\<exists>xs. h_out h' = h_out h @ xs \<and> list_all P xs)"

fun sent :: "effect \<Rightarrow> decision option" where
  "sent (OSend s d) = Some d"
| "sent (OSendAck s d) = Some d"
| "sent _ = None"

definition grants :: "effect \<Rightarrow> bool" where
  "grants x \<longleftrightarrow> (case sent x of None \<Rightarrow> False | Some d \<Rightarrow> d_Type d \<in> {DecisionAllow, DecisionAllowNT})"

named_theorems adds_intros "operations that only add effects of a kind"

lemma adds_refl [adds_intros]: "adds P h h"
  by (simp add: adds_def)

lemma adds_same: "adds P h h1 \<Longrightarrow> h_out h2 = h_out h1 \<Longrightarrow> adds P h h2"
  by (simp add: adds_def)

lemma adds_emit [adds_intros]: "adds P h h1 \<Longrightarrow> P x \<Longrightarrow> adds P h (emit x h1)"
  by (auto simp: adds_def)

lemma adds_metric [adds_intros]: "adds P h h1 \<Longrightarrow> P (OMetric m) \<Longrightarrow> adds P h (metric m h1)"
  by (simp add: metric_def adds_emit)

lemma adds_send [adds_intros]: "adds P h h1 \<Longrightarrow> P (OSend s d) \<Longrightarrow> adds P h (sendOrLog s d h1)"
  by (simp add: sendOrLog_def adds_emit)

lemma adds_silent [adds_intros]:
  "adds P h h1 \<Longrightarrow> adds P h (spawn g h1)"
  "adds P h h1 \<Longrightarrow> adds P h (cancel_ctx n h1)"
  "adds P h h1 \<Longrightarrow> adds P h (cancel_opt c h1)"
  "adds P h h1 \<Longrightarrow> adds P h (adjust_cid cid f h1)"
  "adds P h h1 \<Longrightarrow> adds P h (stop_all st h1)"
  "adds P h h1 \<Longrightarrow> adds P h (delete_session sid h1)"
  "adds P h h1 \<Longrightarrow> adds P h (untrack cid h1)"
  "adds P h h1 \<Longrightarrow> adds P h (handleDisconnect cid h1)"
  "adds P h h1 \<Longrightarrow> adds P h (cleanupPromoted cid h1)"
  "adds P h h1 \<Longrightarrow> adds P h (clearInFlight cid h1)"
  "adds P h h1 \<Longrightarrow> adds P h (snd (replaceExpiryState cid t h1))"
  "adds P h h1 \<Longrightarrow> adds P h (startExpiryTimer e cid t h1)"
  "adds P h h1 \<Longrightarrow> adds P h (promoteSession e cid h1)"
  "adds P h h1 \<Longrightarrow> adds P h (snd (establish_locked cid st h1))"
  "adds P h h1 \<Longrightarrow> adds P h (snd (admit ev i ses n h1))"
  "adds P h h1 \<Longrightarrow> adds P h (request_eviction cid h1)"
  "adds P h h1 \<Longrightarrow> adds P h (h1\<lparr>h_next := k\<rparr>)"
  "adds P h h1 \<Longrightarrow> adds P h (h1\<lparr>h_sessions := store\<rparr>)"
  "adds P h h1 \<Longrightarrow> adds P h (h1\<lparr>h_cache := ca\<rparr>)"
  by (erule adds_same,
      auto simp: spawn_def stop_all_def delete_session_def untrack_def handleDisconnect_def
        cleanupPromoted_def clearInFlight_def replaceExpiryState_def startExpiryTimer_def Let_def
        promoteSession_def promote_locked_def establish_locked_def admit_def track_def request_eviction_def
        split: option.splits prod.splits sum.splits)+

lemma adds_trans: "adds P h h1 \<Longrightarrow> adds P h1 h2 \<Longrightarrow> adds P h h2"
  by (auto simp: adds_def)

lemma not_grants [simp]:
  "\<not> grants (OMetric m)" "\<not> grants OStatus" "\<not> grants (OCheckUser l g b)" "\<not> grants (ORand n)"
  "\<not> grants (OSend s (deny cid kid r))" "\<not> grants (OSendAck s (kill cid km))"
  "\<not> grants (OSend s (kill cid km))" "\<not> grants (OSend s (pending cid kid u t))"
  "grants (OSend s (allow_nt cid kid))"
  by (simp_all add: grants_def deny_def kill_def pending_def allow_nt_def mk_decision_def)

text \<open>
  A kind of effects that contains everything the handler does on its own account: metrics, status
  queries, random draws, denials and kills. The lemmas hold for every such kind; they are used
  for the effects that grant nothing and for the effects whose URL fits the client's buffer.
\<close>

locale effect_kind =
  fixes P :: "effect \<Rightarrow> bool"
  assumes kind_metric: "P (OMetric m)"
    and kind_status: "P OStatus"
    and kind_rand: "P (ORand n)"
    and kind_deny: "P (OSend s (deny cid kid r))"
    and kind_kill: "P (OSend s (kill cid km))"
    and kind_kill_ack: "P (OSendAck s (kill cid km))"
begin

lemmas kinds = kind_metric kind_status kind_rand kind_deny kind_kill kind_kill_ack

lemma adds_deny:
  "adds P h h1 \<Longrightarrow> adds P h (deny_connect s ev w r h1)"
  by (auto simp: deny_connect_def intro!: adds_intros kinds)

lemma adds_killReplacedActive:
  "adds P h h1 \<Longrightarrow> adds P h (killReplacedActive e old s h1)"
  by (auto simp: killReplacedActive_def send_decision_def query_status_def Let_def
      intro!: adds_intros kinds split: option.splits sum.splits)

lemma adds_establishCID:
  assumes "adds P h h1"
  shows "adds P h (establishCID e cid t auth h1)"
proof (cases "fmlookup (h_cids h1) cid")
  case (Some st)
  have "adds P h (snd (establish_locked cid st h1))" by (intro adds_intros assms)
  with Some show ?thesis
    by (auto simp: establishCID_def Let_def intro!: adds_intros adds_killReplacedActive
        split: prod.splits option.splits)
qed (use assms in \<open>simp add: establishCID_def\<close>)

lemma adds_reconcilePromoted:
  "adds P h h1 \<Longrightarrow> adds P h (snd (reconcilePromoted e cid h1))"
  by (auto simp: reconcilePromoted_def query_status_def Let_def
      intro!: adds_intros adds_establishCID kinds split: sum.splits option.splits)

lemma adds_killStalledPromoted:
  "adds P h h1 \<Longrightarrow> adds P h (killStalledPromoted e cid h1)"
  by (auto simp: killStalledPromoted_def send_decision_def Let_def
      intro!: adds_intros adds_reconcilePromoted kinds split: option.splits)

lemma adds_resolve_conflict:
  "adds P h h1 \<Longrightarrow> adds P h (snd (resolve_conflict e ev s cid h1))"
  by (auto simp: resolve_conflict_def query_status_def Let_def
      intro!: adds_intros adds_deny adds_establishCID kinds split: sum.splits option.splits)

lemma adds_connect_pending:
  assumes "adds P h h1" and "\<And>t. P (OSend s (pending (ev_cid ev) (ev_kid ev) u t))"
  shows "adds P h (connect_pending c ev ses u superseded s h1)"
  using assms
  by (auto simp: connect_pending_def Let_def intro!: adds_intros kinds split: option.splits)

lemma adds_connect_prepare:
  "connect_prepare e ev s h = Inl h1 \<Longrightarrow> adds P h h1"
  "connect_prepare e ev s h = Inr (i, ses, u, h2) \<Longrightarrow> adds P h h2"
  by (auto simp: connect_prepare_def generateRandomToken_def Let_def intro!: adds_intros adds_deny kinds
      split: if_splits sum.splits option.splits)

lemma adds_handleConnect:
  assumes url: "\<And>h i ses u h1 t. connect_prepare e ev s h = Inr (i, ses, u, h1) \<Longrightarrow>
    P (OSend s (pending (ev_cid ev) (ev_kid ev) u t))"
  shows "adds P h (handleConnect e c ev s h)"
proof (rule handleConnect_rounds [where R = "adds P"])
  fix h i ses u h1 adm h3
  assume prep: "connect_prepare e ev s h = Inr (i, ses, u, h1)"
    and adm: "admit ev i ses (h_next h1) (h1\<lparr>h_next := Suc (h_next h1)\<rparr>) = (adm, h3)"
  have "adds P h (snd (admit ev i ses (h_next h1) (h1\<lparr>h_next := Suc (h_next h1)\<rparr>)))"
    by (intro adds_intros adds_connect_prepare(2) [OF prep])
  then have "adds P h h3" using adm by simp
  then show "case adm of
      Duplicate \<Rightarrow> adds P h (cancel_ctx (h_next h1) h3)
    | Busy \<Rightarrow> adds P h (deny_connect s ev ''auth_in_progress'' in_progress (cancel_ctx (h_next h1) h3))
    | Admitted superseded \<Rightarrow> adds P h (connect_pending (CancelCtx c (h_next h1)) ev ses u superseded s h3)
    | PromotedConflict cid \<Rightarrow> adds P h (snd (resolve_conflict e ev s cid (cancel_ctx (h_next h1) h3)))"
    using url [OF prep]
    by (cases adm) (auto intro!: adds_intros adds_deny adds_connect_pending adds_resolve_conflict)
qed (auto intro: adds_connect_prepare(1) adds_trans)

lemma adds_authTimeout: "adds P h (authTimeout sel session s h)"
  by (auto simp: authTimeout_def intro!: adds_intros kinds split: selected.splits prod.splits sum.splits)

lemma adds_MarkAuthenticated: "adds P h (MarkAuthenticated e cid u h)"
  by (auto simp: MarkAuthenticated_def intro!: adds_intros)

lemma adds_waitForPromotedDeadline: "adds P h (waitForPromotedDeadline e sel1 sel2 cid h)"
proof -
  have r: "adds P h h2" if "reconcilePromoted e cid h1 = (x, h2)" "adds P h h1" for h1 h2 x
    using adds_reconcilePromoted [OF that(2), of e cid] that(1) by simp
  then show ?thesis
    by (auto simp: waitForPromotedDeadline_def intro!: adds_killStalledPromoted adds_refl
        intro: r [OF _ adds_refl] r split: selected.splits prod.splits outcome.splits)
qed

lemma adds_sessionExpiryTimer: "adds P h (sessionExpiryTimer sel cid h)"
  by (auto simp: sessionExpiryTimer_def killExpiredSession_def Let_def intro!: adds_intros kinds
      split: selected.splits option.splits)

lemma adds_HandleEvent:
  assumes "\<And>h i ses u h1 t. connect_prepare e ev s h = Inr (i, ses, u, h1) \<Longrightarrow>
    P (OSend s (pending (ev_cid ev) (ev_kid ev) u t))"
  shows "adds P h (HandleEvent e c ev s h)"
  using adds_handleConnect [OF assms]
  by (auto simp: HandleEvent_def onEstablished_def intro!: adds_intros adds_establishCID
      split: event_type.splits)

end

interpretation grantless: effect_kind "\<lambda>x. \<not> grants x"
  by unfold_locales simp_all

abbreviation harmless :: "handler \<Rightarrow> handler \<Rightarrow> bool" where
  "harmless \<equiv> adds (\<lambda>x. \<not> grants x)"

text \<open>A WebAuth URL the client's 229-byte buffer can take.\<close>

definition url_fits :: "effect \<Rightarrow> bool" where
  "url_fits x \<longleftrightarrow> (case sent x of None \<Rightarrow> True | Some d \<Rightarrow> length (d_URL d) \<le> MaxWebAuthURLLen)"

interpretation fitting: effect_kind url_fits
  by unfold_locales (simp_all add: url_fits_def deny_def kill_def mk_decision_def)

text \<open>
  C10: no event and no timer of the handler grants access by itself. Handling a CONNECT,
  DISCONNECT or ESTABLISHED event, the auth timeout, the promotion deadline, the expiry timer and
  the notification after a callback never send \<open>client-auth\<close> or \<open>client-auth-nt\<close>: access is granted
  by the callback server, and re-authentication by \<open>handleReauth\<close>, only.
\<close>

theorem handler_grants_nothing:
  "harmless h (HandleEvent e c ev s h) \<and> harmless h (authTimeout sel session s h) \<and>
   harmless h (MarkAuthenticated e cid u h) \<and> harmless h (waitForPromotedDeadline e sel sel2 cid h) \<and>
   harmless h (sessionExpiryTimer sel cid h)"
  by (intro conjI grantless.adds_HandleEvent grantless.adds_authTimeout grantless.adds_MarkAuthenticated
      grantless.adds_waitForPromotedDeadline grantless.adds_sessionExpiryTimer) simp

section \<open>Re-authentication\<close>

text \<open>The specification: the session is within its limit, and the identity provider, or a fresh
  cache entry while it fails, says the user may stay.\<close>

definition within_limit :: "environ \<Rightarrow> event \<Rightarrow> handler \<Rightarrow> bool" where
  "within_limit e ev h \<longleftrightarrow>
     MaxSessionDuration (h_cfg h) \<le> 0 \<or>
     (\<exists>st ex. fmlookup (h_cids h) (ev_cid ev) = Some st \<and> cs_expiry st = Some ex \<and>
        time_Since (time_now e h) (se_connectedAt ex) \<le> MaxSessionDuration (h_cfg h))"

definition acceptable :: "config \<Rightarrow> identity_result \<Rightarrow> bool" where
  "acceptable cfg r \<longleftrightarrow>
     ir_Exists r \<and> ir_Enabled r \<and> (CheckRequiredGroupOnReauth cfg \<longrightarrow> ir_InGroup r)"

definition provider_accepts :: "environ \<Rightarrow> string \<Rightarrow> handler \<Rightarrow> bool" where
  "provider_accepts e lookup h =
     (case check_user e lookup h of
        (Inr r, _) \<Rightarrow> acceptable (h_cfg h) r
      | (Inl err, h1) \<Rightarrow>
          (case h_cache h of
             None \<Rightarrow> False
           | Some cache \<Rightarrow>
               (case fst (cache_Get (time_now e h1) lookup cache) of
                  None \<Rightarrow> False
                | Some r \<Rightarrow> acceptable (h_cfg h) r)))"

definition reauth_ok :: "environ \<Rightarrow> event \<Rightarrow> handler \<Rightarrow> bool" where
  "reauth_ok e ev h \<longleftrightarrow>
     reauth_lookup ev h \<noteq> '''' \<and> within_limit e ev h \<and>
     (CognitoSkipReauth (h_cfg h) \<or> provider_accepts e (reauth_lookup ev h) h)"

text \<open>\<open>answers s ev ok h h'\<close>: the operation ends by sending one decision, to this sink and for this
  CID and KID, which grants exactly when \<open>ok\<close> holds, and nothing it did before grants.\<close>

definition answers :: "sink \<Rightarrow> event \<Rightarrow> bool \<Rightarrow> handler \<Rightarrow> handler \<Rightarrow> bool" where
  "answers s ev ok h h' \<longleftrightarrow>
     (\<exists>xs d. h_out h' = h_out h @ xs @ [OSend s d] \<and> list_all (\<lambda>x. sent x = None) xs \<and>
        d_CID d = ev_cid ev \<and> d_KID d = ev_kid ev \<and>
        d_Type d = (if ok then DecisionAllowNT else DecisionDeny))"

lemma answers_deny:
  "adds (\<lambda>x. sent x = None) h h1 \<Longrightarrow> answers s ev False h (deny_reauth s ev w r h1)"
  "adds (\<lambda>x. sent x = None) h h1 \<Longrightarrow>
     answers s ev False h (sendOrLog s (deny (ev_cid ev) (ev_kid ev) r) (metric m h1))"
  "adds (\<lambda>x. sent x = None) h h1 \<Longrightarrow>
     answers s ev True h (sendOrLog s (allow_nt (ev_cid ev) (ev_kid ev)) (metric m h1))"
  by (auto simp: answers_def adds_def deny_reauth_def sendOrLog_def metric_def deny_def allow_nt_def
      mk_decision_def)

lemma answers_finishReauth:
  "adds (\<lambda>x. sent x = None) h h1 \<Longrightarrow> answers s ev (acceptable (h_cfg h1) r) h (finishReauth ev r s h1)"
  by (auto simp: finishReauth_def acceptable_def intro: answers_deny)

lemma reauth_backstop_cases:
  "reauth_backstop e ev s h = None \<longleftrightarrow> within_limit e ev h"
  "reauth_backstop e ev s h = Some h1 \<Longrightarrow> answers s ev False h h1"
  by (auto simp: reauth_backstop_def within_limit_def not_less intro!: answers_deny adds_refl
      split: option.splits if_splits)

lemma cache_allows_cases:
  "adds (\<lambda>x. sent x = None) h h1 \<Longrightarrow> adds (\<lambda>x. sent x = None) h (snd (cache_allows e lookup h1))"
  "fst (cache_allows e lookup h1) =
     (case h_cache h1 of
        None \<Rightarrow> False
      | Some cache \<Rightarrow>
          (case fst (cache_Get (time_now e h1) lookup cache) of
             None \<Rightarrow> False
           | Some r \<Rightarrow> acceptable (h_cfg h1) r))"
  by (auto simp: cache_allows_def acceptable_def intro!: adds_silent split: option.splits prod.splits)

text \<open>
  C8: re-authentication decides exactly by its specification, and always answers once. A
  \<open>CLIENT:REAUTH\<close> is answered by exactly one decision, for the CID and KID of the event, and it is
  \<open>client-auth-nt\<close> if and only if there is a name to look up, the session is tracked and within
  the maximum duration when one is configured (the skip option, the cache and the identity
  provider cannot bypass that), and the checks are skipped, the identity provider accepts the
  user, or it fails and a fresh cache entry accepts the user. Every other case is a denial.
\<close>

theorem reauth_decides:
  "answers s ev (reauth_ok e ev h) h (handleReauth e ev s h)"
proof (cases "reauth_lookup ev h = '''' \<or> \<not> within_limit e ev h \<or> CognitoSkipReauth (h_cfg h)")
  case True
  then show ?thesis
    using reauth_backstop_cases(1) [of e ev s h]
    by (auto simp: handleReauth_def reauth_ok_def Let_def intro!: answers_deny adds_refl
        dest: reauth_backstop_cases(2) split: option.splits)
next
  case False
  let ?l = "reauth_lookup ev h"
  obtain r h1 where c: "check_user e ?l h = (r, h1)" by (cases "check_user e ?l h")
  then have h1: "adds (\<lambda>x. sent x = None) h h1" "h_cfg h1 = h_cfg h" "h_cache h1 = h_cache h"
    by (auto simp: check_user_def Let_def intro!: adds_intros)
  have "reauth_backstop e ev s h = None" using False reauth_backstop_cases(1) by blast
  then have eq: "handleReauth e ev s h =
      (case r of
         Inr res \<Rightarrow> finishReauth ev res s (h1\<lparr>h_cache := map_option (cache_Put ?l res) (h_cache h1)\<rparr>)
       | Inl err \<Rightarrow>
           (case cache_allows e ?l h1 of
              (True, h2) \<Rightarrow> sendOrLog s (allow_nt (ev_cid ev) (ev_kid ev)) (metric ReauthCacheHit h2)
            | (False, h2) \<Rightarrow> deny_reauth s ev ''cognito_error'' ''cognito unavailable'' h2))"
    and ok: "reauth_ok e ev h =
      (case r of Inr res \<Rightarrow> acceptable (h_cfg h) res | Inl err \<Rightarrow> fst (cache_allows e ?l h1))"
    using False c h1(2,3)
    by (auto simp: handleReauth_def reauth_ok_def provider_accepts_def cache_allows_cases(2) Let_def
        split: sum.splits option.splits)
  show ?thesis
  proof (cases r)
    case (Inr res)
    have "adds (\<lambda>x. sent x = None) h (h1\<lparr>h_cache := map_option (cache_Put ?l res) (h_cache h1)\<rparr>)"
      by (intro adds_silent h1)
    from answers_finishReauth [OF this, of s ev res] Inr eq ok h1(2) show ?thesis by simp
  next
    case (Inl err)
    with cache_allows_cases(1) [OF h1(1), of e ?l] eq ok show ?thesis
      by (auto intro: answers_deny split: prod.splits bool.splits)
  qed
qed

section \<open>The auth timeout\<close>

text \<open>
  C31: the auth timeout denies exactly the sessions no one has claimed. When the timer fires while
  the session is pending, the session is marked failed and the client denied once; when a callback
  has claimed it, or it is gone, nothing is sent and the store is left alone. When the context is
  cancelled first, nothing is sent either.
\<close>

theorem auth_timeout_denies_unclaimed:
  "if sel = TimerFired \<and> status_of (h_sessions h) (ps_SessionID session) = Some SessionPending
   then h_out (authTimeout sel session s h) =
          h_out h @ [OMetric (AuthDenied ''timeout''), OSend s (deny (ps_CID session) (ps_KID session) ''auth timeout'')]
        \<and> status_of (h_sessions (authTimeout sel session s h)) (ps_SessionID session) = Some SessionFailed
   else h_out (authTimeout sel session s h) = h_out h
        \<and> h_sessions (authTimeout sel session s h) = h_sessions h"
proof -
  have clear: "h_out (clearInFlight cid h) = h_out h" "h_sessions (clearInFlight cid h) = h_sessions h"
    for cid h by (simp_all add: clearInFlight_def split: option.splits)
  show ?thesis
    by (cases rule: claim_cases [of "h_sessions h" "ps_SessionID session" SessionProcessing]; cases sel)
       (auto simp: authTimeout_def TryProcess_def clear sendOrLog_def metric_def MarkFailed_def status_of_def
         set_status_def)
qed

section \<open>Connecting\<close>

text \<open>What \<open>connect_prepare\<close> passes on.\<close>

lemma connect_prepare_ok:
  assumes "connect_prepare e ev s h = Inr (i, ses, url, h1)"
  shows "\<exists>bytes. ses = new_session (h_cfg h) ev (EncodeToString bytes) (time_now e h1) \<and>
    url = auth_url (h_cfg h) (h_signer h) (EncodeToString bytes) (time_now e h1) \<and>
    length url \<le> MaxWebAuthURLLen \<and> NormalizeIdentity (e_uc e) (CommonName ev) = Inr i"
  using assms
  by (auto simp: connect_prepare_def generateRandomToken_def Let_def not_less
      split: if_splits sum.splits option.splits)

definition url_prefix :: "config \<Rightarrow> string" where
  "url_prefix cfg = TrimRight (CallbackURL cfg) (CHR ''/'')
     @ (if Contains (CallbackURL cfg) ''?'' then ''&'' else ''?'') @ ''state=''"

lemma token_json_safe: "list_all json_safe (EncodeToString bytes)"
proof -
  have "json_safe c" if "b64_symbol c" for c
    using that by (auto simp: b64_symbol_def b64_val_def json_safe_def byte_def Let_def split: if_splits)
  then show ?thesis by (auto simp: list_all_iff dest: EncodeToString_symbols)
qed

lemma adds_weaken: "adds P h h' \<Longrightarrow> (\<And>x. P x \<Longrightarrow> Q x) \<Longrightarrow> adds Q h h'"
  by (auto simp: adds_def list_all_iff)

lemma HandleEvent_fits: "adds url_fits h (HandleEvent e c ev s h)"
proof (rule fitting.adds_HandleEvent)
  fix h i ses u h1 t
  assume "connect_prepare e ev s h = Inr (i, ses, u, h1)"
  from connect_prepare_ok [OF this]
  show "url_fits (OSend s (pending (ev_cid ev) (ev_kid ev) u t))"
    by (auto simp: url_fits_def pending_def mk_decision_def)
qed

definition too_long :: "environ \<Rightarrow> event \<Rightarrow> handler \<Rightarrow> handler \<Rightarrow> bool" where
  "too_long e ev h h1 \<longleftrightarrow> ev_type ev = EventConnect \<and> webauth_client e ev \<and> CommonName ev \<noteq> '''' \<and>
     (\<exists>i sid. NormalizeIdentity (e_uc e) (CommonName ev) = Inr i \<and> generateRandomToken e 16 h = (Some sid, h1) \<and>
        229 < length (auth_url (h_cfg h1) (h_signer h1) sid (time_now e h1)))"

text \<open>
  C32: the limit on the URL. Every decision that handling an event sends carries a URL of at most 229
  bytes, not counting its framing; with \<open>WEB_AUTH::\<close>, \<open>OPEN_URL:\<close> and the final zero byte it stays within
  the 256 bytes of the client's buffer. A connection of a WebAuth client whose URL would be longer is
  denied with the reason, and with nothing else done.
\<close>

theorem webauth_url_limit:
  "adds (\<lambda>x. list_all (\<lambda>d. length (d_URL d) \<le> 229 \<and> length (''WEB_AUTH::'' @ ''OPEN_URL:'' @ d_URL d) + 1 \<le> 256)
      (case sent x of None \<Rightarrow> [] | Some d \<Rightarrow> [d])) h (HandleEvent e c ev s h) \<and>
   (too_long e ev h h1 \<longrightarrow>
      HandleEvent e c ev s h = emit (OSend s (deny (ev_cid ev) (ev_kid ev) ''auth URL too long''))
        (metric (AuthDenied ''url_too_long'') h1))"
proof (intro conjI impI)
  show "adds (\<lambda>x. list_all (\<lambda>d. length (d_URL d) \<le> 229 \<and> length (''WEB_AUTH::'' @ ''OPEN_URL:'' @ d_URL d) + 1 \<le> 256)
      (case sent x of None \<Rightarrow> [] | Some d \<Rightarrow> [d])) h (HandleEvent e c ev s h)"
    by (rule adds_weaken [OF HandleEvent_fits]) (auto simp: url_fits_def MaxWebAuthURLLen_def split: option.splits)
  assume t: "too_long e ev h h1"
  then have "connect_prepare e ev s h = Inl (deny_connect s ev ''url_too_long'' ''auth URL too long'' h1)"
    by (auto simp: too_long_def connect_prepare_def MaxWebAuthURLLen_def Let_def)
  then have "HandleEvent e c ev s h = deny_connect s ev ''url_too_long'' ''auth URL too long'' h1"
    using t by (simp add: HandleEvent_def handleConnect.simps too_long_def)
  then show "HandleEvent e c ev s h = emit (OSend s (deny (ev_cid ev) (ev_kid ev) ''auth URL too long''))
      (metric (AuthDenied ''url_too_long'') h1)"
    by (simp add: deny_connect_def sendOrLog_def)
qed

text \<open>
  C33: the URL leads back to the session. The URL prepared for a connection is the callback URL
  with a state parameter, and until the auth timeout that state decodes, under the daemon's key,
  to the id of the very session that was prepared with it, which \<open>handleConnect\<close> goes on to store.
\<close>

theorem webauth_url_leads_back:
  assumes "connect_prepare e ev s h = Inr (i, ses, url, h1)"
    and "0 \<le> ps_CreatedAt ses" and "0 \<le> AuthTimeout (h_cfg h)"
    and "ps_CreatedAt ses + AuthTimeout (h_cfg h) < 2 ^ 62 * time_second"
    and "unix_seconds now \<le> unix_seconds (ps_CreatedAt ses + AuthTimeout (h_cfg h))"
  shows "\<exists>blob p. url = url_prefix (h_cfg h) @ blob \<and>
    DecodeState now blob (Verify (h_signer h)) = Inr p \<and> sp_SID p = ps_SessionID ses"
proof -
  from connect_prepare_ok [OF assms(1)] obtain bytes where
    ses: "ses = new_session (h_cfg h) ev (EncodeToString bytes) (time_now e h1)" and
    url: "url = auth_url (h_cfg h) (h_signer h) (EncodeToString bytes) (time_now e h1)" by blast
  let ?p = "\<lparr>sp_SID = EncodeToString bytes, sp_IAT = unix_seconds (ps_CreatedAt ses),
    sp_EXP = unix_seconds (ps_CreatedAt ses + AuthTimeout (h_cfg h))\<rparr>"
  have range: "0 \<le> unix_seconds t \<and> unix_seconds t \<le> i64_max"
    if t: "0 \<le> t" "t < 2 ^ 62 * time_second" for t
  proof -
    have "t div time_second < 2 ^ 62" "0 \<le> t div time_second"
      using t by (simp_all add: div_less_iff_less_mult pos_imp_zdiv_nonneg_iff time_second_def)
    then have "in_i64 (t div time_second)" by (simp add: in_i64_def i64_min_def i64_max_def)
    with \<open>0 \<le> t div time_second\<close> show ?thesis
      by (simp add: unix_seconds_def i64_id) (simp add: in_i64_def)
  qed
  have "payload_ok ?p"
    using token_json_safe range [of "ps_CreatedAt ses"]
      range [of "ps_CreatedAt ses + AuthTimeout (h_cfg h)"] assms(2-4) by (simp add: payload_ok_def)
  then have "DecodeState now (EncodeState ?p (Sign (h_signer h))) (Verify (h_signer h)) = Inr ?p"
    using assms(5) by (intro static.decode_encode) simp_all
  moreover have "url = url_prefix (h_cfg h) @ EncodeState ?p (Sign (h_signer h))"
    "ps_SessionID ses = EncodeToString bytes"
    by (simp_all add: url ses auth_url_def url_prefix_def Let_def new_session_def)
  ultimately show ?thesis by (intro exI [of _ "EncodeState ?p (Sign (h_signer h))"] exI [of _ ?p]) simp
qed

definition sample_env :: environ where
  "sample_env = \<lparr>e_uc = id, e_now = (\<lambda>_. 1700000000 * time_second), e_rand = (\<lambda>_. Some ''abcdefghijklmnop''),
     e_send = (\<lambda>_. None), e_status = (\<lambda>_. Inl ''''), e_check = (\<lambda>_. Inl '''')\<rparr>"

text \<open>A sample connection passes the checks: the URL has 159 bytes.\<close>

lemma sample_token: "EncodeToString ''abcdefghijklmnop'' = ''YWJjZGVmZ2hpamtsbW5vcA''"
  by code_simp

lemma sample_webauth: "webauth_client sample_env sample_connect"
proof -
  have "ToLower id ''webauth'' = ''webauth''" "Contains ''webauth'' ''webauth''" by code_simp+
  then show ?thesis by (simp add: webauth_client_def sample_env_def sample_connect_def getz_def)
qed

lemma sample_prepare:
  "\<exists>url. connect_prepare sample_env sample_connect (Sink 0 True) sample_handler =
     Inr (''alice'',
          new_session sample_config sample_connect ''YWJjZGVmZ2hpamtsbW5vcA'' (1700000000 * time_second), url,
          emit (ORand 16) sample_handler)"
proof -
  have cn: "CommonName sample_connect = ''Alice''" by (simp add: CommonName_def sample_connect_def getz_def)
  let ?p = "\<lparr>sp_SID = ''YWJjZGVmZ2hpamtsbW5vcA'', sp_IAT = 1700000000, sp_EXP = 1700000270\<rparr>"
  have "list_all json_safe (sp_SID ?p)" by (simp add: json_safe_def byte_def)
  from static.encode_length [OF this]
  have "length (EncodeState ?p (Sign k)) = 132" for k by (simp add: itoa_def nat_digits.simps)
  moreover have "TrimRight ''https://v.example/cb'' (CHR ''/'') = ''https://v.example/cb''"
    "\<not> Contains ''https://v.example/cb'' ''?''" by code_simp+
  ultimately have "length (auth_url sample_config k ''YWJjZGVmZ2hpamtsbW5vcA'' (1700000000 * time_second)) = 159"
    for k by (simp add: auth_url_def sample_config_def Let_def unix_seconds_def i64_def time_second_def)
  then show ?thesis
    using cn sample_webauth sample_identity sample_token
    by (simp add: connect_prepare_def generateRandomToken_def sample_env_def sample_handler_def NewHandler_def
        time_now_def MaxWebAuthURLLen_def Let_def)
qed

theorem webauth_url_leads_back_witness:
  "\<exists>url h1 blob p.
     connect_prepare sample_env sample_connect (Sink 0 True) sample_handler =
       Inr (''alice'', new_session sample_config sample_connect ''YWJjZGVmZ2hpamtsbW5vcA''
         (1700000000 * time_second), url, h1) \<and>
     url = url_prefix (h_cfg sample_handler) @ blob \<and>
     DecodeState (1700000200 * time_second) blob (Verify (h_signer sample_handler)) = Inr p \<and>
     sp_SID p = ''YWJjZGVmZ2hpamtsbW5vcA''"
proof -
  obtain url where u: "connect_prepare sample_env sample_connect (Sink 0 True) sample_handler =
      Inr (''alice'', new_session sample_config sample_connect ''YWJjZGVmZ2hpamtsbW5vcA''
        (1700000000 * time_second), url, emit (ORand 16) sample_handler)"
    using sample_prepare by blast
  from webauth_url_leads_back [OF u, of "1700000200 * time_second"] u show ?thesis
    by (simp add: new_session_def sample_handler_def NewHandler_def sample_config_def time_second_def
        unix_seconds_def i64_def)
qed

theorem webauth_url_limit_witness:
  "let h = sample_handler\<lparr>h_cfg := sample_config\<lparr>CallbackURL := replicate 230 (CHR ''u'')\<rparr>\<rparr> in
   HandleEvent sample_env Background sample_connect (Sink 0 True) h =
     emit (OSend (Sink 0 True) (deny ''9'' ''1'' ''auth URL too long''))
       (metric (AuthDenied ''url_too_long'') (emit (ORand 16) h))"
proof -
  let ?u = "replicate 230 (CHR ''u'')"
  let ?h = "sample_handler\<lparr>h_cfg := sample_config\<lparr>CallbackURL := ?u\<rparr>\<rparr>"
  have cn: "CommonName sample_connect = ''Alice''" "ev_type sample_connect = EventConnect" "ev_cid sample_connect = ''9''"
    "ev_kid sample_connect = ''1''" by (simp_all add: CommonName_def sample_connect_def getz_def)
  have "rev ?u = ?u" by simp
  moreover have "dropWhile (\<lambda>c. c = CHR ''/'') ?u = ?u" by (rule dropWhile_eq_self_iff [THEN iffD2]) simp
  ultimately have "TrimRight ?u (CHR ''/'') = ?u" unfolding TrimRight_def by (simp only:)
  then have "229 < length (auth_url (sample_config\<lparr>CallbackURL := ?u\<rparr>) k sid now)" for k sid now
    by (simp add: auth_url_def Let_def)
  moreover have "generateRandomToken sample_env 16 ?h = (Some (EncodeToString ''abcdefghijklmnop''), emit (ORand 16) ?h)"
    by (simp add: generateRandomToken_def sample_env_def Let_def)
  ultimately have "too_long sample_env sample_connect ?h (emit (ORand 16) ?h)"
    unfolding too_long_def using cn sample_webauth sample_identity
    by (auto simp: sample_env_def intro!: exI [of _ "EncodeToString ''abcdefghijklmnop''"])
  then show ?thesis using webauth_url_limit [of ?h sample_env Background sample_connect "Sink 0 True" "emit (ORand 16) ?h"]
    by (simp add: cn)
qed

end
