(* ===== verification/Lifecycle.thy ===== *)
theory Lifecycle
  imports Decisions
begin

text \<open>
  The life of a session after the callback: what \<open>CLIENT:ESTABLISHED\<close> does to the session it
  replaces, how the maximum session duration is anchored and kept, what a disconnect leaves
  behind, and which sessions the reconnect sweep keeps, restarts and evicts.
\<close>

section \<open>Effects of the operations on the tracked connections\<close>

lemma startExpiryTimer_simps:
  "fmlookup (h_cids (startExpiryTimer e cid t h)) c =
     (if c = cid then map_option (\<lambda>s. s\<lparr>cs_expiry := Some \<lparr>se_connectedAt = t, se_cancel = h_next h\<rparr>\<rparr>)
        (fmlookup (h_cids h) cid)
      else fmlookup (h_cids h) c)"
  "h_active (startExpiryTimer e cid t h) = h_active h" "h_cfg (startExpiryTimer e cid t h) = h_cfg h"
  "h_liveSink (startExpiryTimer e cid t h) = h_liveSink h" "h_out (startExpiryTimer e cid t h) = h_out h"
  "h_tasks (startExpiryTimer e cid t h) =
     h_tasks h @ [GSessionExpiry (CancelCtx (base_ctx h) (h_next h)) cid
       (max 0 (time_Until (time_now e h) (t + MaxSessionDuration (h_cfg h))))]"
  by (auto simp: startExpiryTimer_def replaceExpiryState_def spawn_def Let_def time_now_def max_def
      split: option.splits)

lemma untrack_lookup:
  "fmlookup (h_cids (untrack cid h)) c = (if c = cid then None else fmlookup (h_cids h) c)"
  by (auto simp: untrack_def split: option.splits)

lemma handleDisconnect_lookup:
  "fmlookup (h_cids (handleDisconnect cid h)) c = (if c = cid then None else fmlookup (h_cids h) c)"
  by (auto simp: handleDisconnect_def untrack_lookup split: option.splits)

lemma killReplacedActive_other:
  "c \<noteq> old \<Longrightarrow> fmlookup (h_cids (killReplacedActive e old s h)) c = fmlookup (h_cids h) c"
  by (auto simp: killReplacedActive_def send_decision_def query_status_def handleDisconnect_lookup Let_def
      split: option.splits sum.splits)

lemma killReplacedActive_accepted:
  "\<forall>out. e_send e out = None \<Longrightarrow>
     killReplacedActive e old s h =
       emit (if sink_acks s then OSendAck s (kill old ''HALT'') else OSend s (kill old ''HALT'')) h"
  by (simp add: killReplacedActive_def send_decision_def Let_def)

lemma promoteSession_lookup:
  "fmlookup (h_cids (promoteSession e cid h)) c =
     (if c = cid then map_option
        (\<lambda>st. if cs_cancel st = None then st
              else st\<lparr>cs_connectAt := (if cs_connectAt st = time_zero then time_now e h else cs_connectAt st),
                      cs_cancel := None, cs_sid := '''', cs_promoted := True,
                      cs_promotedCancel := Some (h_next h)\<rparr>) (fmlookup (h_cids h) cid)
      else fmlookup (h_cids h) c)"
  by (auto simp: promoteSession_def promote_locked_def spawn_def delete_session_def Let_def
      split: option.splits)

lemma promoteSession_simps [simp]:
  "h_active (promoteSession e cid h) = h_active h" "h_cfg (promoteSession e cid h) = h_cfg h"
  "h_liveSink (promoteSession e cid h) = h_liveSink h" "h_out (promoteSession e cid h) = h_out h"
  by (auto simp: promoteSession_def promote_locked_def spawn_def delete_session_def Let_def
      split: option.splits)

lemma promoteSession_idle:
  "fmlookup (h_cids h) cid = Some st \<Longrightarrow> cs_cancel st = None \<Longrightarrow> promoteSession e cid h = h"
  by (simp add: promoteSession_def promote_locked_def)

section \<open>New wins\<close>

lemma onEstablished_replaces:
  assumes "fmlookup (h_cids h) cid = Some st"
    and "fmlookup (h_active h) (cs_identity st) = Some old" and "old \<noteq> cid" and "old \<noteq> ''''"
    and "fmlookup (h_cids h) old = Some ost"
    and "h_liveSink h = Some ls" and "\<forall>out. e_send e out = None"
  shows "fmlookup (h_active (onEstablished e cid h)) (cs_identity st) = Some cid \<and>
    fmlookup (h_cids (onEstablished e cid h)) old =
      Some (ost\<lparr>cs_evictionRequested := True, cs_expiry := None\<rparr>) \<and>
    h_out (onEstablished e cid h) =
      h_out h @ [if sink_acks ls then OSendAck ls (kill old ''HALT'') else OSend ls (kill old ''HALT'')]"
proof -
  have old: "getz (h_active h) (cs_identity st) = old" using assms(2) by (simp add: getz_def)
  obtain h1 where h1: "establish_locked cid st h = (old, h1)"
    using establish_locked_simps(1) [OF assms(1)] old by (cases "establish_locked cid st h") auto
  note e1 = establish_locked_simps [OF assms(1), unfolded h1 snd_conv]
  show ?thesis
    using assms h1 e1 old
    by (auto simp: onEstablished_def establishCID_def killReplacedActive_accepted startExpiryTimer_simps)
qed

text \<open>
  C14: when a connection is established, it becomes the active one of its identity, the session it
  replaces is told to halt (with the acknowledged command when the sink has it), is marked for
  eviction and loses its expiry timer. No denial and nothing else is sent.
\<close>

theorem established_replaces_active:
  assumes "fmlookup (h_cids h) cid = Some st"
    and "fmlookup (h_active h) (cs_identity st) = Some old" and "old \<noteq> cid" and "old \<noteq> ''''"
    and "fmlookup (h_cids h) old = Some ost"
    and "h_liveSink h = Some ls" and "\<forall>out. e_send e out = None"
    and "ev_type ev = EventEstablished" and "ev_cid ev = cid"
  shows "fmlookup (h_active (HandleEvent e c ev s h)) (cs_identity st) = Some cid \<and>
    fmlookup (h_cids (HandleEvent e c ev s h)) old =
      Some (ost\<lparr>cs_evictionRequested := True, cs_expiry := None\<rparr>) \<and>
    h_out (HandleEvent e c ev s h) =
      h_out h @ [if sink_acks ls then OSendAck ls (kill old ''HALT'') else OSend ls (kill old ''HALT'')]"
proof -
  obtain st' where st': "fmlookup (h_cids (promoteSession e cid h)) cid = Some st'"
    "cs_identity st' = cs_identity st"
    using assms(1) by (simp add: promoteSession_lookup)
  have "fmlookup (h_cids (promoteSession e cid h)) old = Some ost"
    using assms(3,5) by (simp add: promoteSession_lookup)
  with onEstablished_replaces [OF st'(1), of old ost ls e] st'(2) assms(2-)
  show ?thesis by (simp add: HandleEvent_def)
qed

definition sample_two :: handler where
  "sample_two = sample_handler\<lparr>
     h_cids := fmap_of_list
       [(''7'', zero_cid_state\<lparr>cs_identity := ''alice'', cs_established := True,
          cs_expiry := Some \<lparr>se_connectedAt = 5, se_cancel = 1\<rparr>\<rparr>),
        (''9'', zero_cid_state\<lparr>cs_identity := ''alice'', cs_promoted := True\<rparr>)],
     h_active := fmap_of_list [(''alice'', ''7'')], h_attempt := fmap_of_list [(''alice'', ''9'')],
     h_liveSink := Some (Sink 0 True)\<rparr>"

definition sample_established :: event where
  "sample_established = \<lparr>ev_type = EventEstablished, ev_cid = ''9'', ev_kid = '''', ev_env = fmempty\<rparr>"

theorem established_replaces_active_witness:
  "h_out (HandleEvent sample_env Background sample_established (Sink 0 True) sample_two) =
     [OSendAck (Sink 0 True) (kill ''7'' ''HALT'')]"
proof -
  have "h_out sample_two = []" by (simp add: sample_two_def sample_handler_def NewHandler_def)
  with established_replaces_active [of sample_two "''9''"
      "zero_cid_state\<lparr>cs_identity := ''alice'', cs_promoted := True\<rparr>" "''7''"
      "zero_cid_state\<lparr>cs_identity := ''alice'', cs_established := True,
          cs_expiry := Some \<lparr>se_connectedAt = 5, se_cancel = 1\<rparr>\<rparr>" "Sink 0 True" sample_env sample_established
      Background "Sink 0 True"]
  show ?thesis
    by (simp add: sample_two_def sample_established_def sample_env_def)
qed

section \<open>The maximum session duration\<close>

lemma onEstablished_expiry:
  assumes "fmlookup (h_cids h) cid = Some st"
  shows "\<exists>st'. fmlookup (h_cids (onEstablished e cid h)) cid = Some st' \<and> cs_established st' \<and>
    cs_expiry st' =
      (if 0 < MaxSessionDuration (h_cfg h) \<and> cs_promoted st \<and> \<not> cs_established st
       then Some \<lparr>se_connectedAt = time_now e h, se_cancel = h_next (snd (establish_locked cid st h))\<rparr>
       else cs_expiry st)"
proof -
  obtain old h1 where h1: "establish_locked cid st h = (old, h1)" by (cases "establish_locked cid st h")
  note e1 = establish_locked_simps [OF assms, unfolded h1 fst_conv snd_conv]
  show ?thesis
    using assms h1 e1
    by (auto simp: onEstablished_def establishCID_def startExpiryTimer_simps killReplacedActive_other
        split: option.splits)
qed

text \<open>
  C16: a duplicate \<open>CLIENT:ESTABLISHED\<close> cannot extend a session. For a connection that is already
  established (by an earlier event or by the reconnect sweep), the event leaves its expiry anchor
  as it is.
\<close>

theorem duplicate_established_keeps_anchor:
  assumes "fmlookup (h_cids h) (ev_cid ev) = Some st" and "cs_established st"
    and "ev_type ev = EventEstablished"
  shows "map_option cs_expiry (fmlookup (h_cids (HandleEvent e c ev s h)) (ev_cid ev)) = Some (cs_expiry st)"
proof -
  obtain st' where st': "fmlookup (h_cids (promoteSession e (ev_cid ev) h)) (ev_cid ev) = Some st'"
    "cs_established st'" "cs_expiry st' = cs_expiry st"
    using assms(1,2) by (simp add: promoteSession_lookup)
  from onEstablished_expiry [OF st'(1), of e] st'(2,3) assms(3) show ?thesis
    by (auto simp: HandleEvent_def)
qed

theorem duplicate_established_keeps_anchor_witness:
  "map_option cs_expiry (fmlookup (h_cids (HandleEvent sample_env Background
     (sample_established\<lparr>ev_cid := ''7''\<rparr>) (Sink 0 True) sample_two)) ''7'') =
   Some (Some \<lparr>se_connectedAt = 5, se_cancel = 1\<rparr>)"
  using duplicate_established_keeps_anchor [of sample_two "sample_established\<lparr>ev_cid := ''7''\<rparr>"
      "zero_cid_state\<lparr>cs_identity := ''alice'', cs_established := True,
          cs_expiry := Some \<lparr>se_connectedAt = 5, se_cancel = 1\<rparr>\<rparr>" sample_env Background "Sink 0 True"]
  by (simp add: sample_two_def sample_established_def)

section \<open>The reconnect sweep\<close>

text \<open>The identity of a listed session, and the fields the sweep's steps do not touch.\<close>

abbreviation session_identity :: "(nat \<Rightarrow> nat) \<Rightarrow> established_session \<Rightarrow> string option" where
  "session_identity uc s \<equiv> (case NormalizeIdentity uc (es_cn s) of Inl e \<Rightarrow> None | Inr i \<Rightarrow> Some i)"

lemma flagged_mono:
  "ReconciledEvictionNeeded c h \<Longrightarrow> ReconciledEvictionNeeded c (adopt_state s i h)"
  "ReconciledEvictionNeeded c h \<Longrightarrow> ReconciledEvictionNeeded c (request_eviction cid h)"
  "ReconciledEvictionNeeded c h \<Longrightarrow> ReconciledEvictionNeeded c (snd (replaceExpiryState cid t h))"
  "ReconciledEvictionNeeded c h \<Longrightarrow> ReconciledEvictionNeeded c (startExpiryTimer e cid t h)"
  by (auto simp: ReconciledEvictionNeeded_def adopt_state_def request_eviction_def replaceExpiryState_def
      startExpiryTimer_simps Let_def split: option.splits)

lemma flagged_request:
  "fmlookup (h_cids h) c \<noteq> None \<Longrightarrow> ReconciledEvictionNeeded c (request_eviction c h)"
  by (auto simp: ReconciledEvictionNeeded_def request_eviction_def)

lemma tracked_mono:
  "fmlookup (h_cids h) c \<noteq> None \<Longrightarrow> fmlookup (h_cids (adopt_state s i h)) c \<noteq> None"
  "fmlookup (h_cids h) c \<noteq> None \<Longrightarrow> fmlookup (h_cids (request_eviction cid h)) c \<noteq> None"
  "fmlookup (h_cids (adopt_state s i h)) (es_cid s) \<noteq> None"
  by (auto simp: adopt_state_def request_eviction_def Let_def)

text \<open>With numeric CIDs, \<open>newerStatusSession\<close> is a strict weak order: what is not newer than the
  winner so far is not newer than what replaces it.\<close>

definition numeric :: "established_session \<Rightarrow> bool" where
  "numeric s \<longleftrightarrow> ParseUint (es_cid s) \<noteq> None"

lemma newer_numeric:
  "numeric s \<Longrightarrow> numeric w \<Longrightarrow>
     newerStatusSession s w \<longleftrightarrow>
       es_connectedAt w < es_connectedAt s \<or>
       es_connectedAt w = es_connectedAt s \<and> the (ParseUint (es_cid w)) < the (ParseUint (es_cid s))"
  by (auto simp: newerStatusSession_def numeric_def)

lemma newer_trans:
  "numeric s \<Longrightarrow> numeric w \<Longrightarrow> numeric t \<Longrightarrow> newerStatusSession s w \<Longrightarrow> \<not> newerStatusSession t w \<Longrightarrow>
     \<not> newerStatusSession t s"
  by (auto simp: newer_numeric)

lemma newer_irrefl: "numeric s \<Longrightarrow> \<not> newerStatusSession s s"
  by (simp add: newer_numeric)

text \<open>The state of the adoption loop after the sessions \<open>ps\<close>.\<close>

definition best ::
  "(nat \<Rightarrow> nat) \<Rightarrow> established_session list \<Rightarrow> string \<Rightarrow> established_session option \<Rightarrow> bool" where
  "best uc ps i ow \<longleftrightarrow>
     (case ow of
        None \<Rightarrow> \<forall>t \<in> set ps. session_identity uc t \<noteq> Some i
      | Some w \<Rightarrow> w \<in> set ps \<and> session_identity uc w = Some i \<and>
          (\<forall>t \<in> set ps. session_identity uc t = Some i \<longrightarrow> \<not> newerStatusSession t w))"

definition winner_ok ::
  "(nat \<Rightarrow> nat) \<Rightarrow> established_session list \<Rightarrow> (string, established_session) fmap \<Rightarrow> bool" where
  "winner_ok uc ps winners \<longleftrightarrow> (\<forall>i. best uc ps i (fmlookup winners i))"

definition settled ::
  "(string, established_session) fmap \<Rightarrow> decision list \<Rightarrow> handler \<Rightarrow> established_session \<Rightarrow> string \<Rightarrow> bool" where
  "settled winners evs h s i \<longleftrightarrow>
     fmlookup (h_cids h) (es_cid s) \<noteq> None \<and>
     (\<exists>w. fmlookup winners i = Some w \<and>
        (es_cid s = es_cid w \<or>
         kill (es_cid s) ''HALT'' \<in> set evs \<and> ReconciledEvictionNeeded (es_cid s) h))"

definition losers_ok ::
  "(nat \<Rightarrow> nat) \<Rightarrow> established_session list \<Rightarrow> adoption \<Rightarrow> bool" where
  "losers_ok uc ps acc \<longleftrightarrow>
     (case acc of (winners, evs, h) \<Rightarrow>
       (\<forall>i w. fmlookup winners i = Some w \<longrightarrow> w \<in> set ps \<and> session_identity uc w = Some i) \<and>
       (\<forall>s \<in> set ps. \<forall>i. session_identity uc s = Some i \<longrightarrow> settled winners evs h s i) \<and>
       (\<forall>d \<in> set evs. \<exists>s \<in> set ps. d = kill (es_cid s) ''HALT'' \<and> ReconciledEvictionNeeded (es_cid s) h))"

lemma best_other: "session_identity uc s \<noteq> Some i \<Longrightarrow> best uc ps i ow \<Longrightarrow> best uc (ps @ [s]) i ow"
  by (auto simp: best_def split: option.splits)

lemma best_first:
  "session_identity uc s = Some i \<Longrightarrow> numeric s \<Longrightarrow> best uc ps i None \<Longrightarrow> best uc (ps @ [s]) i (Some s)"
  using newer_irrefl by (auto simp: best_def)

lemma best_keep:
  "session_identity uc s = Some i \<Longrightarrow> \<not> newerStatusSession s w \<Longrightarrow> best uc ps i (Some w) \<Longrightarrow>
     best uc (ps @ [s]) i (Some w)"
  by (auto simp: best_def)

lemma best_replace:
  assumes "session_identity uc s = Some i" and "newerStatusSession s w" and "best uc ps i (Some w)"
    and "\<forall>t \<in> set (s # ps). numeric t"
  shows "best uc (ps @ [s]) i (Some s)"
proof -
  have "\<not> newerStatusSession t s" if "t \<in> set ps" "session_identity uc t = Some i" for t
  proof (rule newer_trans [of s w t])
    show "\<not> newerStatusSession t w" using assms(3) that by (simp add: best_def)
  qed (use assms that in \<open>auto simp: best_def\<close>)
  then show ?thesis using assms newer_irrefl by (auto simp: best_def)
qed

lemma winner_ok_step:
  assumes "winner_ok uc ps (fst acc)" and "\<forall>t \<in> set (s # ps). numeric t"
  shows "winner_ok uc (ps @ [s]) (fst (adopt_one uc acc s))"
proof -
  obtain winners evs h where acc: "acc = (winners, evs, h)" by (cases acc)
  have b: "best uc ps j (fmlookup winners j)" for j using assms(1) by (simp add: winner_ok_def acc)
  show ?thesis
  proof (cases "NormalizeIdentity uc (es_cn s)")
    case (Inl err)
    then show ?thesis using b best_other [of uc s] by (simp add: acc adopt_one_def winner_ok_def)
  next
    case (Inr i)
    then have i: "session_identity uc s = Some i" by simp
    show ?thesis unfolding winner_ok_def
    proof
      fix j
      show "best uc (ps @ [s]) j (fmlookup (fst (adopt_one uc acc s)) j)"
      proof (cases "j = i")
        case False
        then have "fmlookup (fst (adopt_one uc acc s)) j = fmlookup winners j"
          using Inr by (simp add: acc adopt_one_def Let_def split: option.splits)
        with False b best_other [of uc s j] i show ?thesis by simp
      next
        case True
        show ?thesis
          using Inr True b [of i] assms(2) best_first [OF i] best_keep [OF i] best_replace [OF i]
          by (auto simp: acc adopt_one_def Let_def split: option.splits)
      qed
    qed
  qed
qed

definition grows :: "decision list \<Rightarrow> handler \<Rightarrow> decision list \<Rightarrow> handler \<Rightarrow> bool" where
  "grows evs h evs' h' \<longleftrightarrow> set evs \<subseteq> set evs' \<and>
     (\<forall>c. fmlookup (h_cids h) c \<noteq> None \<longrightarrow> fmlookup (h_cids h') c \<noteq> None) \<and>
     (\<forall>c. ReconciledEvictionNeeded c h \<longrightarrow> ReconciledEvictionNeeded c h')"

lemma settled_keep:
  "settled winners evs h t j \<Longrightarrow> grows evs h evs' h' \<Longrightarrow> fmlookup winners' j = fmlookup winners j \<Longrightarrow>
     settled winners' evs' h' t j"
  by (auto simp: settled_def grows_def)

lemma settled_replaced:
  "settled winners evs h t i \<Longrightarrow> grows evs h evs' h' \<Longrightarrow> fmlookup winners i = Some w \<Longrightarrow>
     kill (es_cid w) ''HALT'' \<in> set evs' \<Longrightarrow> ReconciledEvictionNeeded (es_cid w) h' \<Longrightarrow>
     fmlookup winners' i = Some s \<Longrightarrow> settled winners' evs' h' t i"
  by (auto simp: settled_def grows_def)

lemma losers_ok_new:
  assumes "losers_ok uc ps (winners, evs, h)" and "session_identity uc s = Some i"
    and g: "grows evs h evs' h'" and "settled winners' evs' h' s i"
    and win: "\<And>j. j \<noteq> i \<Longrightarrow> fmlookup winners' j = fmlookup winners j"
    and wi: "fmlookup winners' i = Some s \<or> fmlookup winners' i = fmlookup winners i"
    and repl: "\<And>w. fmlookup winners i = Some w \<Longrightarrow> fmlookup winners' i = fmlookup winners i \<or>
      kill (es_cid w) ''HALT'' \<in> set evs' \<and> ReconciledEvictionNeeded (es_cid w) h'"
    and evs: "\<And>d. d \<in> set evs' \<Longrightarrow> d \<in> set evs \<or>
      (\<exists>t \<in> set (ps @ [s]). d = kill (es_cid t) ''HALT'' \<and> ReconciledEvictionNeeded (es_cid t) h')"
  shows "losers_ok uc (ps @ [s]) (winners', evs', h')"
proof -
  note a = assms(1) [unfolded losers_ok_def prod.case]
  have settled: "settled winners' evs' h' t j" if t: "t \<in> set ps" "session_identity uc t = Some j" for t j
  proof -
    have old: "settled winners evs h t j" using a t by blast
    show ?thesis
    proof (cases "fmlookup winners' j = fmlookup winners j")
      case True
      then show ?thesis using settled_keep [OF old g] by blast
    next
      case False
      then have j: "j = i" using win [of j] by auto
      with False wi have s: "fmlookup winners' i = Some s" by auto
      from old obtain w where w: "fmlookup winners j = Some w" by (auto simp: settled_def)
      with repl [of w] False j settled_replaced [OF old [unfolded j] g _ _ _ s] show ?thesis by simp
    qed
  qed
  have "w \<in> set (ps @ [s]) \<and> session_identity uc w = Some j" if "fmlookup winners' j = Some w" for j w
    using that a win wi assms(2) by (cases "j = i") auto
  moreover have "\<exists>t \<in> set (ps @ [s]). d = kill (es_cid t) ''HALT'' \<and> ReconciledEvictionNeeded (es_cid t) h'"
    if "d \<in> set evs'" for d
  proof (cases "d \<in> set evs")
    case True
    with a obtain t where "t \<in> set ps" "d = kill (es_cid t) ''HALT''" "ReconciledEvictionNeeded (es_cid t) h"
      by blast
    with g show ?thesis by (auto simp: grows_def)
  next
    case False
    with evs [OF that] show ?thesis by blast
  qed
  ultimately show ?thesis
    unfolding losers_ok_def prod.case using settled assms(2,4) by auto
qed

lemma losers_ok_step:
  assumes "losers_ok uc ps acc"
  shows "losers_ok uc (ps @ [s]) (adopt_one uc acc s)"
proof -
  obtain winners evs h where acc: "acc = (winners, evs, h)" by (cases acc)
  show ?thesis
  proof (cases "NormalizeIdentity uc (es_cn s)")
    case (Inl err)
    then show ?thesis using assms by (auto simp: acc adopt_one_def losers_ok_def)
  next
    case (Inr i)
    let ?h = "adopt_state s i h"
    have i: "session_identity uc s = Some i" using Inr by simp
    note one = tracked_mono(3) [of s i h]
    have g: "grows evs h evs ?h" "grows evs h (evs @ [d]) (request_eviction c ?h)" for c d
      unfolding grows_def using tracked_mono(1,2) flagged_mono(1,2) by auto
    note new = losers_ok_new [OF assms [unfolded acc] i]
    show ?thesis
    proof (cases "fmlookup winners i")
      case None
      have "losers_ok uc (ps @ [s]) (fmupd i s winners, evs, ?h)"
        by (rule new [OF g(1)]) (use None one in \<open>auto simp: settled_def\<close>)
      with None Inr show ?thesis by (simp add: acc adopt_one_def Let_def)
    next
      case (Some w)
      then have w: "w \<in> set ps" "fmlookup (h_cids h) (es_cid w) \<noteq> None"
        using assms [unfolded acc losers_ok_def prod.case] by (auto simp: settled_def)
      show ?thesis
      proof (cases "newerStatusSession s w")
        case True
        have "losers_ok uc (ps @ [s]) (fmupd i s winners, evs @ [kill (es_cid w) ''HALT''],
            request_eviction (es_cid w) ?h)"
          by (rule new [OF g(2)])
             (use Some w one flagged_request tracked_mono(1,2) in \<open>auto simp: settled_def\<close>)
        with Some True Inr show ?thesis by (simp add: acc adopt_one_def Let_def)
      next
        case False
        have "losers_ok uc (ps @ [s]) (winners, evs @ [kill (es_cid s) ''HALT''],
            request_eviction (es_cid s) ?h)"
          by (rule new [OF g(2)])
             (use Some one flagged_request tracked_mono(2) in \<open>auto simp: settled_def\<close>)
        with Some False Inr show ?thesis by (simp add: acc adopt_one_def Let_def)
      qed
    qed
  qed
qed

lemma foldl_history:
  assumes "P [] a"
    and "\<And>ps x b. set (ps @ [x]) \<subseteq> set xs \<Longrightarrow> (\<exists>rest. xs = ps @ x # rest) \<Longrightarrow> P ps b \<Longrightarrow> P (ps @ [x]) (f b x)"
  shows "P xs (foldl f a xs)"
  using assms
proof (induction xs rule: rev_induct)
  case (snoc x xs)
  have "P xs (foldl f a xs)"
    by (rule snoc.IH [OF snoc.prems(1)], rule snoc.prems(2)) auto
  then show ?case using snoc.prems(2) [of xs x] by simp
qed simp

lemma adopt_winners:
  assumes "list_all numeric ss"
  shows "winner_ok uc ss (fst (adopt uc ss h))"
  unfolding adopt_def
proof (rule foldl_history [where P = "\<lambda>ps acc. winner_ok uc ps (fst acc)"])
  show "winner_ok uc [] (fst (fmempty, [], h))" by (simp add: winner_ok_def best_def)
  show "winner_ok uc (ps @ [s]) (fst (adopt_one uc acc s))"
    if "set (ps @ [s]) \<subseteq> set ss" "winner_ok uc ps (fst acc)" for ps s acc
    using that assms by (intro winner_ok_step) (auto simp: list_all_iff)
qed

lemma adopt_losers: "losers_ok uc ss (adopt uc ss h)"
  unfolding adopt_def
proof (rule foldl_history [where P = "losers_ok uc"])
  show "losers_ok uc [] (fmempty, [], h)" by (simp add: losers_ok_def)
qed (rule losers_ok_step)

text \<open>The timers that follow the critical section leave the active index alone, and only add
  evictions.\<close>

lemma expire_one_grows:
  "grows (fst acc) (snd acc) (fst (expire_one e acc s)) (snd (expire_one e acc s)) \<and>
     h_active (snd (expire_one e acc s)) = h_active (snd acc) \<and>
     h_cfg (snd (expire_one e acc s)) = h_cfg (snd acc) \<and> h_out (snd (expire_one e acc s)) = h_out (snd acc)"
proof -
  have "fmlookup (h_cids (request_eviction c (snd (replaceExpiryState c t h)))) d \<noteq> None"
    if "fmlookup (h_cids h) d \<noteq> None" for c t h d
    using that by (auto simp: request_eviction_def replaceExpiryState_def Let_def split: option.splits)
  moreover have "fmlookup (h_cids (startExpiryTimer e c t h)) d \<noteq> None"
    if "fmlookup (h_cids h) d \<noteq> None" for c t h d
    using that by (auto simp: startExpiryTimer_simps)
  moreover have "h_active (request_eviction c (snd (replaceExpiryState c t h))) = h_active h"
    "h_cfg (request_eviction c (snd (replaceExpiryState c t h))) = h_cfg h"
    "h_out (request_eviction c (snd (replaceExpiryState c t h))) = h_out h" for c t h
    by (auto simp: request_eviction_def replaceExpiryState_def Let_def split: option.splits)
  ultimately show ?thesis
    by (cases acc) (auto simp: expire_one_def grows_def flagged_mono startExpiryTimer_simps)
qed

lemma expire_grows:
  "grows (fst acc) (snd acc) (fst (foldl (expire_one e) acc ss)) (snd (foldl (expire_one e) acc ss)) \<and>
     h_active (snd (foldl (expire_one e) acc ss)) = h_active (snd acc)"
proof (induction ss arbitrary: acc)
  case (Cons s ss)
  show ?case
    using Cons.IH [of "expire_one e acc s"] expire_one_grows [of acc e s]
    by (auto simp: grows_def)
qed (simp add: grows_def)

text \<open>Nothing else is killed or marked: a kill of the adoption is for a listed session that is not the
  winner of its identity, a kill of the timers for an expired one, and a mark is new only with a kill.\<close>

definition kills_losers :: "(nat \<Rightarrow> nat) \<Rightarrow> handler \<Rightarrow> established_session list \<Rightarrow> adoption \<Rightarrow> bool" where
  "kills_losers uc h0 ps acc \<longleftrightarrow>
     (case acc of (winners, evs, h) \<Rightarrow>
       (\<forall>i w. fmlookup winners i = Some w \<longrightarrow> w \<in> set ps \<and> session_identity uc w = Some i) \<and>
       (\<forall>d \<in> set evs. \<exists>t \<in> set ps. \<exists>i w. d = kill (es_cid t) ''HALT'' \<and> session_identity uc t = Some i \<and>
          fmlookup winners i = Some w \<and> t \<noteq> w) \<and>
       (\<forall>c. ReconciledEvictionNeeded c h \<longrightarrow> ReconciledEvictionNeeded c h0 \<or> kill c ''HALT'' \<in> set evs))"

lemma flags_new:
  "ReconciledEvictionNeeded c (adopt_state s i h) \<Longrightarrow> ReconciledEvictionNeeded c h"
  "ReconciledEvictionNeeded c (request_eviction cid h) \<Longrightarrow> c = cid \<or> ReconciledEvictionNeeded c h"
  "ReconciledEvictionNeeded c (snd (replaceExpiryState cid t h)) \<Longrightarrow> ReconciledEvictionNeeded c h"
  "ReconciledEvictionNeeded c (startExpiryTimer e cid t h) \<Longrightarrow> ReconciledEvictionNeeded c h"
  by (auto simp: ReconciledEvictionNeeded_def adopt_state_def request_eviction_def replaceExpiryState_def
      startExpiryTimer_simps zero_cid_state_def Let_def split: option.splits if_splits)

lemma kills_losers_step:
  assumes "kills_losers uc h0 ps acc" and "s \<notin> set ps"
  shows "kills_losers uc h0 (ps @ [s]) (adopt_one uc acc s)"
proof -
  obtain winners evs h where acc: "acc = (winners, evs, h)" by (cases acc)
  note k = assms(1) [unfolded acc kills_losers_def prod.case]
  show ?thesis
  proof (cases "NormalizeIdentity uc (es_cn s)")
    case (Inl err)
    with k show ?thesis by (auto simp: acc adopt_one_def kills_losers_def)
  next
    case (Inr i)
    then have i: "session_identity uc s = Some i" by simp
    have old: "\<exists>t \<in> set (ps @ [s]). \<exists>j w. d = kill (es_cid t) ''HALT'' \<and> session_identity uc t = Some j \<and>
        fmlookup ws j = Some w \<and> t \<noteq> w"
      if "d \<in> set evs" "ws = winners \<or> ws = fmupd i s winners" for d ws
    proof -
      from k that(1) obtain t j w where t: "t \<in> set ps" "d = kill (es_cid t) ''HALT''" "session_identity uc t = Some j"
        "fmlookup winners j = Some w" "t \<noteq> w" by blast
      with assms(2) that(2) show ?thesis by (cases "j = i") (auto intro!: bexI [of _ t])
    qed
    have flags: "ReconciledEvictionNeeded c h0 \<or> kill c ''HALT'' \<in> set evs"
      if "ReconciledEvictionNeeded c (adopt_state s i h)" for c
      using k flags_new(1) [OF that] by blast
    have step: "kills_losers uc h0 (ps @ [s]) (ws, evs @ [kill (es_cid t) ''HALT''], request_eviction (es_cid t) (adopt_state s i h))"
      if "ws = winners \<or> ws = fmupd i s winners" "t \<in> set (ps @ [s])" "session_identity uc t = Some i"
        "fmlookup ws i = Some w" "t \<noteq> w" for ws t w
    proof -
      have "ReconciledEvictionNeeded c h0 \<or> kill c ''HALT'' \<in> set (evs @ [kill (es_cid t) ''HALT''])"
        if "ReconciledEvictionNeeded c (request_eviction (es_cid t) (adopt_state s i h))" for c
        using flags_new(2) [OF that] flags by auto
      moreover have "v \<in> set (ps @ [s]) \<and> session_identity uc v = Some j" if "fmlookup ws j = Some v" for j v
        using that \<open>ws = winners \<or> ws = fmupd i s winners\<close> k i by (auto split: if_splits)
      moreover have "\<exists>t \<in> set (ps @ [s]). \<exists>j w. d = kill (es_cid t) ''HALT'' \<and> session_identity uc t = Some j \<and>
          fmlookup ws j = Some w \<and> t \<noteq> w" if "d \<in> set (evs @ [kill (es_cid t) ''HALT''])" for d
        using that old [of d ws] \<open>ws = winners \<or> ws = fmupd i s winners\<close> \<open>t \<in> set (ps @ [s])\<close>
          \<open>session_identity uc t = Some i\<close> \<open>fmlookup ws i = Some w\<close> \<open>t \<noteq> w\<close> by auto
      ultimately show ?thesis by (simp add: kills_losers_def)
    qed
    show ?thesis
    proof (cases "fmlookup winners i")
      case None
      then have "adopt_one uc acc s = (fmupd i s winners, evs, adopt_state s i h)" by (simp add: acc adopt_one_def Inr Let_def)
      moreover have "v \<in> set (ps @ [s]) \<and> session_identity uc v = Some j" if "fmlookup (fmupd i s winners) j = Some v" for j v
        using that k i by (auto split: if_splits)
      moreover note old [of _ "fmupd i s winners"] flags
      ultimately show ?thesis unfolding kills_losers_def by simp
    next
      case (Some w)
      with k assms(2) have w: "w \<in> set ps" "w \<noteq> s" "session_identity uc w = Some i" by auto
      with Some i step [of winners s w] step [of "fmupd i s winners" w s] show ?thesis
        by (cases "newerStatusSession s w") (simp_all add: acc adopt_one_def Inr Let_def)
    qed
  qed
qed

lemma adopt_kills_losers:
  assumes "distinct ss"
  shows "kills_losers uc h ss (adopt uc ss h)"
  unfolding adopt_def
proof (rule foldl_history [where P = "kills_losers uc h"])
  show "kills_losers uc h [] (fmempty, [], h)" by (simp add: kills_losers_def)
  show "kills_losers uc h (ps @ [x]) (adopt_one uc b x)"
    if "\<exists>rest. ss = ps @ x # rest" "kills_losers uc h ps b" for ps x b
    using that assms by (intro kills_losers_step) auto
qed

lemma sweep_flags: "ReconciledEvictionNeeded c (sweep ks snapshot h) \<Longrightarrow> ReconciledEvictionNeeded c h"
proof -
  have "ReconciledEvictionNeeded c (sweep_one p h1 k) \<Longrightarrow> ReconciledEvictionNeeded c h1" for p h1 k
    by (auto simp: sweep_one_def ReconciledEvictionNeeded_def stop_all_def cancel_opt_def cancel_ctx_def untrack_lookup
        delete_session_def split: option.splits if_splits)
  then have "ReconciledEvictionNeeded c (foldl (sweep_one p) h ks) \<longrightarrow> ReconciledEvictionNeeded c h" for p
    by (intro foldl_invariant [where P = "\<lambda>h1. ReconciledEvictionNeeded c h1 \<longrightarrow> ReconciledEvictionNeeded c h"]) auto
  then show "ReconciledEvictionNeeded c (sweep ks snapshot h) \<Longrightarrow> ReconciledEvictionNeeded c h" by (simp add: sweep_def)
qed

definition expired_at :: "handler \<Rightarrow> gotime \<Rightarrow> established_session \<Rightarrow> bool" where
  "expired_at h now s \<longleftrightarrow> 0 < MaxSessionDuration (h_cfg h) \<and> MaxSessionDuration (h_cfg h) \<le> time_Since now (es_connectedAt s)"

lemma expire_kills:
  "set (fst (foldl (expire_one e) acc ss)) =
     set (fst acc) \<union> (\<lambda>s. kill (es_cid s) ''HALT'') ` {s \<in> set ss. expired_at (snd acc) (e_now e (h_out (snd acc))) s} \<and>
   (\<forall>c. ReconciledEvictionNeeded c (snd (foldl (expire_one e) acc ss)) \<longrightarrow>
      ReconciledEvictionNeeded c (snd acc) \<or> kill c ''HALT'' \<in> set (fst (foldl (expire_one e) acc ss)))"
proof (induction ss arbitrary: acc)
  case (Cons s ss)
  obtain evs h where acc: "acc = (evs, h)" by (cases acc)
  have one: "set (fst (expire_one e acc s)) =
      set evs \<union> (\<lambda>s. kill (es_cid s) ''HALT'') ` {x \<in> {s}. expired_at h (e_now e (h_out h)) x}"
    by (auto simp: acc expire_one_def expired_at_def time_now_def)
  have flag: "ReconciledEvictionNeeded c h \<or> kill c ''HALT'' \<in> set (fst (expire_one e acc s))"
    if "ReconciledEvictionNeeded c (snd (expire_one e acc s))" for c
    using that by (auto simp: acc expire_one_def dest!: flags_new split: if_splits)
  have same: "h_cfg (snd (expire_one e acc s)) = h_cfg h" "h_out (snd (expire_one e acc s)) = h_out h"
    using expire_one_grows [of acc e s] by (simp_all add: acc)
  then have ex: "expired_at (snd (expire_one e acc s)) now x = expired_at h now x" for now x by (simp add: expired_at_def)
  let ?K = "\<lambda>s. kill (es_cid s) ''HALT''" and ?E = "expired_at h (e_now e (h_out h))"
  note ih = Cons.IH [of "expire_one e acc s", unfolded ex same]
  have "set (fst (foldl (expire_one e) acc (s # ss))) = set evs \<union> ?K ` {x \<in> {s}. ?E x} \<union> ?K ` {x \<in> set ss. ?E x}"
    using ih one by simp
  also have "\<dots> = set evs \<union> ?K ` {x \<in> set (s # ss). ?E x}" by auto
  finally have sets: "set (fst (foldl (expire_one e) acc (s # ss))) = set evs \<union> ?K ` {x \<in> set (s # ss). ?E x}" .
  moreover have "ReconciledEvictionNeeded c h \<or> kill c ''HALT'' \<in> set (fst (foldl (expire_one e) acc (s # ss)))"
    if "ReconciledEvictionNeeded c (snd (foldl (expire_one e) acc (s # ss)))" for c
  proof (cases "ReconciledEvictionNeeded c (snd (expire_one e acc s))")
    case True
    have "set (fst (expire_one e acc s)) \<subseteq> set (fst (foldl (expire_one e) acc (s # ss)))" using ih by auto
    with flag [OF True] show ?thesis by blast
  next
    case False
    with ih that show ?thesis by auto
  qed
  ultimately show ?case by (simp add: acc)
qed simp

lemma expire_one_anchor:
  assumes "0 < MaxSessionDuration (h_cfg (snd acc))" and "fmlookup (h_cids (snd acc)) (es_cid s) \<noteq> None"
  shows "map_option (map_option se_connectedAt \<circ> cs_expiry)
      (fmlookup (h_cids (snd (expire_one e acc s))) (es_cid s)) = Some (Some (es_connectedAt s))"
    and "MaxSessionDuration (h_cfg (snd acc)) \<le> time_Since (time_now e (snd acc)) (es_connectedAt s) \<Longrightarrow>
      kill (es_cid s) ''HALT'' \<in> set (fst (expire_one e acc s)) \<and>
      ReconciledEvictionNeeded (es_cid s) (snd (expire_one e acc s))"
  using assms
  by (auto simp: expire_one_def startExpiryTimer_simps replaceExpiryState_def request_eviction_def
      ReconciledEvictionNeeded_def Let_def split: prod.splits option.splits)

lemma expire_one_other:
  "c \<noteq> es_cid s \<Longrightarrow> fmlookup (h_cids (snd (expire_one e acc s))) c = fmlookup (h_cids (snd acc)) c"
  by (auto simp: expire_one_def startExpiryTimer_simps replaceExpiryState_def request_eviction_def
      Let_def split: prod.splits option.splits)

definition anchored :: "environ \<Rightarrow> decision list \<Rightarrow> handler \<Rightarrow> established_session \<Rightarrow> bool" where
  "anchored e evs h s \<longleftrightarrow>
     map_option (map_option se_connectedAt \<circ> cs_expiry) (fmlookup (h_cids h) (es_cid s)) =
       Some (Some (es_connectedAt s)) \<and>
     (MaxSessionDuration (h_cfg h) \<le> time_Since (time_now e h) (es_connectedAt s) \<longrightarrow>
        kill (es_cid s) ''HALT'' \<in> set evs \<and> ReconciledEvictionNeeded (es_cid s) h)"

lemma anchored_fold:
  assumes "0 < MaxSessionDuration (h_cfg (snd acc))" and "distinct (map es_cid ss)"
    and "s \<in> set ss" and "fmlookup (h_cids (snd acc)) (es_cid s) \<noteq> None"
  shows "anchored e (fst (foldl (expire_one e) acc ss)) (snd (foldl (expire_one e) acc ss)) s"
proof -
  let ?P = "\<lambda>ps b. h_cfg (snd b) = h_cfg (snd acc) \<and> h_out (snd b) = h_out (snd acc) \<and>
    fmlookup (h_cids (snd b)) (es_cid s) \<noteq> None \<and> (s \<in> set ps \<longrightarrow> anchored e (fst b) (snd b) s)"
  have "?P ss (foldl (expire_one e) acc ss)"
  proof (rule foldl_history [where P = ?P])
    show "?P [] acc" using assms(4) by simp
    fix ps x b
    assume sub: "set (ps @ [x]) \<subseteq> set ss" "\<exists>rest. ss = ps @ x # rest" and b: "?P ps b"
    have g: "grows (fst b) (snd b) (fst (expire_one e b x)) (snd (expire_one e b x))"
      "h_cfg (snd (expire_one e b x)) = h_cfg (snd acc)" "h_out (snd (expire_one e b x)) = h_out (snd acc)"
      using expire_one_grows [of b e x] b by simp_all
    have "anchored e (fst (expire_one e b x)) (snd (expire_one e b x)) s" if "s \<in> set (ps @ [x])"
    proof (cases "s = x")
      case True
      with expire_one_anchor(1,2) [of b s e] b g assms(1) show ?thesis
        by (simp add: anchored_def time_now_def)
    next
      case False
      with that have "s \<in> set ps" by simp
      moreover have "es_cid x \<notin> es_cid ` set ps" using sub(2) assms(2) by auto
      ultimately have "es_cid s \<noteq> es_cid x" by (metis imageI)
      with \<open>s \<in> set ps\<close> expire_one_other [of "es_cid s" x e b] b g assms(1) show ?thesis
        by (auto simp: anchored_def time_now_def grows_def ReconciledEvictionNeeded_def)
    qed
    with b g show "?P (ps @ [x]) (expire_one e b x)" by (auto simp: grows_def)
  qed
  with assms(3) show ?thesis by simp
qed

lemma rebuild_locked_cfg:
  "h_cfg (snd (rebuild_locked uc ks snapshot h)) = h_cfg h"
  "h_out (snd (rebuild_locked uc ks snapshot h)) = h_out h"
proof -
  have untrack: "h_cfg (untrack cid h) = h_cfg h" "h_out (untrack cid h) = h_out h" for cid h
    by (simp_all add: untrack_def split: option.splits)
  have "h_cfg (sweep ks snapshot h) = h_cfg h \<and> h_out (sweep ks snapshot h) = h_out h"
    unfolding sweep_def
    by (rule foldl_invariant) (auto simp: sweep_one_def untrack split: option.splits)
  moreover have "h_cfg (snd (snd (adopt uc ss h1))) = h_cfg h1 \<and> h_out (snd (snd (adopt uc ss h1))) = h_out h1"
    for ss h1
    unfolding adopt_def
    by (rule foldl_invariant)
       (auto simp: adopt_one_def adopt_state_def request_eviction_def Let_def
         split: prod.splits sum.splits option.splits)
  ultimately show "h_cfg (snd (rebuild_locked uc ks snapshot h)) = h_cfg h"
    "h_out (snd (rebuild_locked uc ks snapshot h)) = h_out h"
    by (simp_all add: rebuild_locked_def split: prod.splits) (metis snd_conv)+
qed

lemma rebuild_cfg:
  "h_cfg (snd (RebuildSessionTrackingFromSnapshot e ks snapshot h)) = h_cfg h"
  "h_out (snd (RebuildSessionTrackingFromSnapshot e ks snapshot h)) = h_out h"
proof -
  let ?acc = "rebuild_locked (e_uc e) ks snapshot h" and ?ss = "ss_established snapshot"
  have "h_cfg (snd (foldl (expire_one e) ?acc ?ss)) = h_cfg h \<and> h_out (snd (foldl (expire_one e) ?acc ?ss)) = h_out h"
    by (rule foldl_invariant) (auto simp: rebuild_locked_cfg expire_one_grows)
  then show "h_cfg (snd (RebuildSessionTrackingFromSnapshot e ks snapshot h)) = h_cfg h"
    "h_out (snd (RebuildSessionTrackingFromSnapshot e ks snapshot h)) = h_out h"
    by (simp_all add: RebuildSessionTrackingFromSnapshot_def)
qed


definition sample_pair :: status_snapshot where
  "sample_pair =
     \<lparr>ss_clients = [], ss_established = [\<lparr>es_cid = ''10'', es_cn = ''ALICE'', es_connectedAt = 5\<rparr>,
        \<lparr>es_cid = ''9'', es_cn = ''Alice'', es_connectedAt = 5\<rparr>]\<rparr>"


text \<open>
  C15: reconnecting cannot extend a session either. After the sweep every listed session with an
  identity is tracked with an expiry anchored at the connection time OpenVPN reports, not at the
  time of the reconnect; and a session that has used up the maximum duration is marked for
  eviction and among the kills the sweep returns.
\<close>

theorem sweep_anchors_to_snapshot:
  assumes "0 < MaxSessionDuration (h_cfg h)" and "distinct (map es_cid (ss_established snapshot))"
    and "s \<in> set (ss_established snapshot)" and "session_identity (e_uc e) s = Some i"
    and "RebuildSessionTrackingFromSnapshot e ks snapshot h = (evictions, h')"
  shows "\<exists>st ex. fmlookup (h_cids h') (es_cid s) = Some st \<and> cs_expiry st = Some ex \<and>
    se_connectedAt ex = es_connectedAt s \<and>
    (MaxSessionDuration (h_cfg h) \<le> time_Since (e_now e (h_out h)) (es_connectedAt s) \<longrightarrow>
       cs_evictionRequested st \<and> kill (es_cid s) ''HALT'' \<in> set evictions)"
proof -
  let ?acc = "rebuild_locked (e_uc e) ks snapshot h" and ?ss = "ss_established snapshot"
  have "losers_ok (e_uc e) ?ss (adopt (e_uc e) ?ss (sweep ks snapshot h))" by (rule adopt_losers)
  then have "fmlookup (h_cids (snd ?acc)) (es_cid s) \<noteq> None"
    using assms(3,4)
    by (auto simp: losers_ok_def rebuild_locked_def settled_def split: prod.splits)
  then have "anchored e (fst (foldl (expire_one e) ?acc ?ss)) (snd (foldl (expire_one e) ?acc ?ss)) s"
    using assms(1-3) by (intro anchored_fold) (simp_all add: rebuild_locked_cfg)
  then have a: "anchored e evictions h' s"
    using assms(5) by (simp add: RebuildSessionTrackingFromSnapshot_def)
  have "h_cfg h' = h_cfg h" "h_out h' = h_out h" using rebuild_cfg [of e ks snapshot h] assms(5) by simp_all
  with a show ?thesis
    by (auto simp: anchored_def ReconciledEvictionNeeded_def time_now_def split: option.splits)
qed

theorem sweep_anchors_to_snapshot_witness:
  "\<exists>evictions h' st ex.
     RebuildSessionTrackingFromSnapshot sample_env [] sample_snapshot sample_handler = (evictions, h') \<and>
     fmlookup (h_cids h') ''7'' = Some st \<and> cs_expiry st = Some ex \<and> se_connectedAt ex = 5 \<and>
     cs_evictionRequested st \<and> kill ''7'' ''HALT'' \<in> set evictions"
proof -
  obtain evs h' where r: "RebuildSessionTrackingFromSnapshot sample_env [] sample_snapshot sample_handler = (evs, h')"
    by (cases "RebuildSessionTrackingFromSnapshot sample_env [] sample_snapshot sample_handler")
  let ?s = "\<lparr>es_cid = ''7'', es_cn = ''Alice'', es_connectedAt = 5\<rparr>"
  have "session_identity (e_uc sample_env) ?s = Some ''alice''"
    using sample_identity by (simp add: sample_env_def)
  moreover have "0 < MaxSessionDuration (h_cfg sample_handler)" "?s \<in> set (ss_established sample_snapshot)"
    "distinct (map es_cid (ss_established sample_snapshot))"
    by (simp_all add: sample_handler_def NewHandler_def sample_config_def time_second_def sample_snapshot_def)
  moreover have "MaxSessionDuration (h_cfg sample_handler) \<le> time_Since (e_now sample_env (h_out sample_handler)) 5"
    by (simp add: sample_handler_def NewHandler_def sample_config_def sample_env_def time_Since_def sat64_def
        i64_min_def i64_max_def time_second_def)
  ultimately show ?thesis using sweep_anchors_to_snapshot [OF _ _ _ _ r, of ?s] r by fastforce
qed

section \<open>Disconnecting\<close>

text \<open>
  C17: a disconnect leaves nothing behind. The CID is no longer tracked, neither index names it for
  its identity, its pending session (if it had one) is gone from the store, so a late callback
  finds nothing, and the contexts of its timeout, its expiry timer and its promotion deadline are
  cancelled. Every other connection is untouched.
\<close>

theorem disconnect_forgets:
  assumes "fmlookup (h_cids h) (ev_cid ev) = Some st" and "ev_cid ev \<noteq> ''''" and "ev_type ev = EventDisconnect"
  shows "fmlookup (h_cids (HandleEvent e c ev s h)) d = (if d = ev_cid ev then None else fmlookup (h_cids h) d) \<and>
    getz (h_active (HandleEvent e c ev s h)) (cs_identity st) \<noteq> ev_cid ev \<and>
    getz (h_attempt (HandleEvent e c ev s h)) (cs_identity st) \<noteq> ev_cid ev \<and>
    (cs_sid st = '''' \<or> status_of (h_sessions (HandleEvent e c ev s h)) (cs_sid st) = None) \<and>
    set_option (cs_cancel st) \<union> set_option (cs_promotedCancel st) \<union> se_cancel ` set_option (cs_expiry st)
      \<subseteq> fset (h_cancelled (HandleEvent e c ev s h))"
proof -
  have "getz (release i k m) i \<noteq> k" if "k \<noteq> ''''" for i k m
    using that by (auto simp: release_def)
  then show ?thesis
    using assms
    by (auto simp: HandleEvent_def handleDisconnect_def untrack_def stop_all_def delete_session_def
        cancel_opt_def cancel_ctx_def split: option.splits)
qed

theorem disconnect_forgets_witness:
  "getz (h_attempt (HandleEvent sample_env Background
     \<lparr>ev_type = EventDisconnect, ev_cid = ''9'', ev_kid = '''', ev_env = fmempty\<rparr> (Sink 0 True) sample_two)) ''alice''
     \<noteq> ''9''"
  using disconnect_forgets [of sample_two
      "\<lparr>ev_type = EventDisconnect, ev_cid = ''9'', ev_kid = '''', ev_env = fmempty\<rparr>"
      "zero_cid_state\<lparr>cs_identity := ''alice'', cs_promoted := True\<rparr>" sample_env Background "Sink 0 True"]
  by (simp add: sample_two_def zero_cid_state_def)

section \<open>The connect loop ends\<close>

text \<open>One more round of the loop of \<open>handleConnect\<close>: the identity's attempt is a promoted connection
  that the status no longer lists.\<close>

definition connect_retries :: "environ \<Rightarrow> event \<Rightarrow> sink \<Rightarrow> handler \<Rightarrow> handler \<Rightarrow> bool" where
  "connect_retries e ev s h h' \<longleftrightarrow>
     (\<exists>i ses u h1 cid h3. connect_prepare e ev s h = Inr (i, ses, u, h1) \<and>
        admit ev i ses (h_next h1) (h1\<lparr>h_next := Suc (h_next h1)\<rparr>) = (PromotedConflict cid, h3) \<and>
        resolve_conflict e ev s cid (cancel_ctx (h_next h1) h3) = (True, h'))"

lemma connect_retries_fewer:
  assumes "connect_retries e ev s h h'"
  shows "fcard (promoted_cids h') < fcard (promoted_cids h)"
  using assms unfolding connect_retries_def
  by (metis connect_prepare_cids connect_round_fewer)

lemma connect_retries_unfold:
  "connect_retries e ev s h h' \<Longrightarrow> handleConnect e c ev s h = handleConnect e c ev s h'"
  by (auto simp: connect_retries_def handleConnect.simps [of e c ev s h] Let_def)

text \<open>
  C24: the connect loop always ends. Every further round has removed one promoted connection that
  OpenVPN no longer knows, so a connection event goes through at most as many further rounds as
  there are promoted connections at its start, however the status answers; and handling the event
  is the same as handling it after these rounds.
\<close>

theorem connect_rounds_bounded:
  assumes "(connect_retries e ev s ^^ n) h h'"
  shows "n + fcard (promoted_cids h') \<le> fcard (promoted_cids h) \<and>
    handleConnect e c ev s h = handleConnect e c ev s h'"
  using assms
proof (induction n arbitrary: h')
  case (Suc n)
  then obtain h1 where h1: "(connect_retries e ev s ^^ n) h h1" "connect_retries e ev s h1 h'" by auto
  from Suc.IH [OF h1(1)] connect_retries_fewer [OF h1(2)] connect_retries_unfold [OF h1(2)]
  show ?case by simp
qed simp

lemma connect_prepare_cong:
  assumes "connect_prepare e ev s h = Inr (i, ses, u, h1)"
    and "h_cfg h' = h_cfg h" "h_signer h' = h_signer h" "h_out h' = h_out h"
  shows "connect_prepare (e\<lparr>e_status := st\<rparr>) ev s h' = Inr (i, ses, u, emit (ORand 16) h')"
  using assms
  by (auto simp: connect_prepare_def webauth_client_def generateRandomToken_def time_now_def Let_def
      split: if_splits sum.splits option.splits)

definition sample_stale :: handler where
  "sample_stale = sample_handler\<lparr>h_cids := fmap_of_list [(''8'', zero_cid_state\<lparr>cs_identity := ''alice'', cs_promoted := True\<rparr>)],
     h_attempt := fmap_of_list [(''alice'', ''8'')], h_statusProvider := True\<rparr>"

theorem connect_rounds_bounded_witness:
  "\<exists>h'. connect_retries (sample_env\<lparr>e_status := (\<lambda>_. Inr \<lparr>ss_clients = [], ss_established = []\<rparr>)\<rparr>) sample_connect
       (Sink 0 True) sample_stale h' \<and> 1 + fcard (promoted_cids h') \<le> fcard (promoted_cids sample_stale)"
proof -
  let ?e = "sample_env\<lparr>e_status := (\<lambda>_. Inr \<lparr>ss_clients = [], ss_established = []\<rparr>)\<rparr>"
  let ?h1 = "emit (ORand 16) sample_stale"
  let ?h2 = "cancel_ctx (h_next ?h1) (?h1\<lparr>h_next := Suc (h_next ?h1)\<rparr>)"
  obtain url h1 where p: "connect_prepare sample_env sample_connect (Sink 0 True) sample_handler =
      Inr (''alice'', new_session sample_config sample_connect ''YWJjZGVmZ2hpamtsbW5vcA'' (1700000000 * time_second), url, h1)"
    using sample_prepare by blast
  have prep: "connect_prepare ?e sample_connect (Sink 0 True) sample_stale =
      Inr (''alice'', new_session sample_config sample_connect ''YWJjZGVmZ2hpamtsbW5vcA'' (1700000000 * time_second), url, ?h1)"
    by (rule connect_prepare_cong [OF p]) (simp_all add: sample_stale_def)
  moreover have "admit sample_connect ''alice'' ses n (?h1\<lparr>h_next := m\<rparr>) = (PromotedConflict ''8'', ?h1\<lparr>h_next := m\<rparr>)" for ses n m
    by (simp add: admit_def sample_stale_def sample_connect_def getz_def Let_def)
  moreover have "\<exists>h'. resolve_conflict ?e sample_connect (Sink 0 True) ''8'' ?h2 = (True, h')"
    by (simp add: resolve_conflict_def query_status_def ClientByCID_def sample_stale_def Let_def)
  ultimately obtain h' where r: "connect_retries ?e sample_connect (Sink 0 True) sample_stale h'"
    unfolding connect_retries_def by blast
  then have "(connect_retries ?e sample_connect (Sink 0 True) ^^ 1) sample_stale h'" by auto
  from connect_rounds_bounded [OF this] r show ?thesis by blast
qed

section \<open>A timeout that fires while the callback runs\<close>

text \<open>
  The auth timeout always ends by clearing the in-flight state of its connection, also when it
  finds the session claimed by a callback that is still running. The callback then succeeds, but
  \<open>MarkAuthenticated\<close> finds no in-flight state to promote, so the connection is established without
  an expiry anchor although a maximum duration is configured: no timer ends the session, and its
  first re-authentication is denied as untracked.
\<close>

lemma clearInFlight_lookup:
  "fmlookup (h_cids (clearInFlight cid h)) c =
     (if c = cid then map_option (\<lambda>st. st\<lparr>cs_cancel := None, cs_sid := ''''\<rparr>) (fmlookup (h_cids h) cid)
      else fmlookup (h_cids h) c)"
  by (auto simp: clearInFlight_def split: option.splits)

theorem timeout_during_callback_loses_expiry:
  assumes "fmlookup (h_cids h) cid = Some st" and "\<not> cs_promoted st" and "cs_expiry st = None"
    and "ps_CID session = cid" and "status_of (h_sessions h) (ps_SessionID session) = Some SessionProcessing"
    and "0 < MaxSessionDuration (h_cfg h)"
    and "ev_type ev = EventEstablished" and "ev_cid ev = cid"
  shows "\<exists>st'. fmlookup (h_cids (HandleEvent e c ev s
      (MarkAuthenticated e cid u (authTimeout TimerFired session s h)))) cid = Some st' \<and>
    cs_established st' \<and> cs_expiry st' = None"
proof -
  have "TryProcess (ps_SessionID session) (h_sessions h) = (Inl (ErrSessionNotPending SessionProcessing), h_sessions h)"
    using assms(5) by (auto simp: TryProcess_def claim_def status_of_def)
  then have "authTimeout TimerFired session s h = clearInFlight cid h"
    using assms(4) by (simp add: authTimeout_def)
  then obtain st0 where st0: "fmlookup (h_cids (authTimeout TimerFired session s h)) cid = Some st0"
    "cs_cancel st0 = None" "\<not> cs_promoted st0" "cs_expiry st0 = None"
    using assms(1-3) by (simp add: clearInFlight_lookup)
  let ?h1 = "if u \<noteq> '''' then adjust_cid cid (\<lambda>s. s\<lparr>cs_cognitoUsername := u\<rparr>)
    (authTimeout TimerFired session s h) else authTimeout TimerFired session s h"
  let ?st1 = "if u \<noteq> '''' then st0\<lparr>cs_cognitoUsername := u\<rparr> else st0"
  have st1: "fmlookup (h_cids ?h1) cid = Some ?st1" "cs_cancel ?st1 = None" "\<not> cs_promoted ?st1"
    "cs_expiry ?st1 = None"
    using st0 by simp_all
  from promoteSession_idle [OF st1(1,2)] have "MarkAuthenticated e cid u (authTimeout TimerFired session s h) = ?h1"
    "promoteSession e cid ?h1 = ?h1" for e
    by (simp_all add: MarkAuthenticated_def)
  with onEstablished_expiry [OF st1(1), of e] st1(3,4) assms(7,8) show ?thesis
    by (simp add: HandleEvent_def)
qed

end
