(* ===== verification/Callback.thy ===== *)
theory Callback
  imports GroupsParser Lifecycle
begin

text \<open>
  \<open>internal/callback/server.go\<close>: the HTTP endpoint the ALB forwards the browser to after the login.

  The server shares the session store, the decision sink and the metrics with the handler, and
  notifies it of a success, so its operations act on the handler's state and trace; its own state
  is the cache of ALB public keys. Three things are not in the repository and are parameters: the
  JWT library's \<open>ParseWithClaims\<close> (a function of token, key function and options), the HTTP fetch of a
  public key, and the identity provider's answer, which is the environment's \<open>e_check\<close>. A request
  is what \<open>net/http\<close> makes of it: the decoded \<open>state\<close> query parameter and the
  \<open>x-amzn-oidc-data\<close> header. Page rendering is reduced to the status code and the title.
\<close>

section \<open>State, requests and responses\<close>

record alb_claims = \<comment> \<open>\<open>auth.ALBClaims\<close>; \<open>Exp\<close> is never read and left out\<close>
  ac_Sub :: string
  ac_Email :: string
  ac_Iss :: string
  ac_CognitoUsername :: string

record jwt_claims = \<comment> \<open>\<open>albJWTClaims\<close>\<close>
  jc_alb :: alb_claims
  jc_Groups :: "string list"
  jc_GroupsClaimPresent :: bool

record jwt_header = \<comment> \<open>\<open>albJWTHeader\<close>\<close>
  jh_Kid :: string
  jh_Signer :: string

record request =
  rq_state :: string
  rq_oidcData :: string

datatype response = Resp (resp_status: nat) (resp_title: string)

record server =
  sv_cfg :: config
  sv_sink :: sink
  sv_tracker :: bool
  sv_identity :: bool
  sv_albARN :: string
  sv_keyCache :: "(string, string) fmap" \<comment> \<open>public keys, as the text they are fetched as\<close>
  sv_startTime :: gotime

text \<open>
  \<open>jwt.ParseWithClaims\<close> is a parameter. It is given the token, the key function, which the library
  calls with the token's signing method (its type and the \<open>alg\<close> header) and which returns the key or
  an error, and the options; without an error it returns the claims and the flag \<open>token.Valid\<close>.
\<close>

datatype signing_method = SigningMethodECDSA string | SigningMethodOther string

datatype parser_option = WithExpirationRequired | WithPaddingAllowed

record callback_env =
  ce_parse :: "string \<Rightarrow> (signing_method \<Rightarrow> string option) \<Rightarrow> parser_option list \<Rightarrow> ((string, json) fmap \<times> bool) option"
  ce_fetch :: "string \<Rightarrow> string option" \<comment> \<open>key id: the fetched key\<close>

section \<open>Tokens\<close>

definition decodeBase64URL :: "string \<Rightarrow> string option" where
  "decodeBase64URL s = DecodeString (TrimRight s (CHR ''=''))"

definition parseJWTHeader :: "string \<Rightarrow> jwt_header option" where
  "parseJWTHeader tokenStr =
     (case Split tokenStr (CHR ''.'') of
        [a, b, c] \<Rightarrow>
          (case decodeBase64URL a of
             None \<Rightarrow> None
           | Some headerBytes \<Rightarrow>
               (case struct_members headerBytes of
                  None \<Rightarrow> None
                | Some ms \<Rightarrow>
                    (case (string_field '''' (field_values ''kid'' ms), string_field '''' (field_values ''signer'' ms)) of
                       (Some kid, Some signer) \<Rightarrow> Some \<lparr>jh_Kid = kid, jh_Signer = signer\<rparr>
                     | _ \<Rightarrow> None)))
      | _ \<Rightarrow> None)"

text \<open>\<open>s, _ := raw[key].(string)\<close>.\<close>

definition claim_string :: "(string, json) fmap \<Rightarrow> string \<Rightarrow> string" where
  "claim_string raw key = (case fmlookup raw key of Some (JStr s) \<Rightarrow> s | _ \<Rightarrow> '''')"

definition extractALBClaims :: "(string, json) fmap \<Rightarrow> alb_claims option" where
  "extractALBClaims raw =
     (let email = claim_string raw ''email'';
          user = claim_string raw ''cognito:username'';
          user = (if user = '''' then claim_string raw ''username'' else user)
      in if email = '''' then None
         else Some \<lparr>ac_Sub = claim_string raw ''sub'', ac_Email = email, ac_Iss = claim_string raw ''iss'',
                    ac_CognitoUsername = user\<rparr>)"

definition extractGroupsFromRaw :: "(string, json) fmap \<Rightarrow> string \<Rightarrow> string list \<times> bool" where
  "extractGroupsFromRaw raw claimName =
     (if claimName = '''' then ([], False)
      else (case fmlookup raw claimName of
          None \<Rightarrow> ([], False)
        | Some v \<Rightarrow> (parseGroupsClaim v, True)))"

definition albKeyFunc :: "string \<Rightarrow> signing_method \<Rightarrow> string option" where
  "albKeyFunc pubKey method = (case method of SigningMethodECDSA alg \<Rightarrow> Some pubKey | SigningMethodOther alg \<Rightarrow> None)"

definition validateALBJWT ::
  "callback_env \<Rightarrow> string \<Rightarrow> string \<Rightarrow> string \<Rightarrow> string \<Rightarrow> string \<Rightarrow> bool \<Rightarrow> string \<Rightarrow> jwt_claims option" where
  "validateALBJWT ce tokenStr pubKey expectedARN signerField expectedIssuer extractGroups groupsClaim =
     (if signerField \<noteq> expectedARN then None
      else (case ce_parse ce tokenStr (albKeyFunc pubKey) [WithExpirationRequired, WithPaddingAllowed] of
          None \<Rightarrow> None
        | Some (mapClaims, valid) \<Rightarrow>
            if \<not> valid then None
            else (case extractALBClaims mapClaims of
               None \<Rightarrow> None
             | Some claims \<Rightarrow>
                 if expectedIssuer \<noteq> '''' \<and> ac_Iss claims \<noteq> expectedIssuer then None
                 else let (groups, present) =
                            (if extractGroups then extractGroupsFromRaw mapClaims groupsClaim else ([], False))
                      in Some \<lparr>jc_alb = claims, jc_Groups = groups, jc_GroupsClaimPresent = present\<rparr>)))"

definition parseJWTClaimsUnsafe :: "string \<Rightarrow> string \<Rightarrow> jwt_claims option" where
  "parseJWTClaimsUnsafe tokenStr groupsClaim =
     (case Split tokenStr (CHR ''.'') of
        [a, b, c] \<Rightarrow>
          (case decodeBase64URL b of
             None \<Rightarrow> None
           | Some claimsBytes \<Rightarrow>
               (case unmarshal_map claimsBytes of
                  None \<Rightarrow> None
                | Some raw \<Rightarrow>
                    (case extractALBClaims raw of
                       None \<Rightarrow> None
                     | Some claims \<Rightarrow>
                         let (groups, present) = extractGroupsFromRaw raw groupsClaim
                         in Some \<lparr>jc_alb = claims, jc_Groups = groups, jc_GroupsClaimPresent = present\<rparr>)))
      | _ \<Rightarrow> None)"

definition getOrFetchKey :: "callback_env \<Rightarrow> string \<Rightarrow> server \<Rightarrow> string option \<times> server" where
  "getOrFetchKey ce kid sv =
     (case fmlookup (sv_keyCache sv) kid of
        Some key \<Rightarrow> (Some key, sv)
      | None \<Rightarrow>
          (case ce_fetch ce kid of
             None \<Rightarrow> (None, sv)
           | Some key \<Rightarrow> (Some key, sv\<lparr>sv_keyCache := fmupd kid key (sv_keyCache sv)\<rparr>)))"

section \<open>Deciding\<close>

definition denySession :: "server \<Rightarrow> pending_session \<Rightarrow> string \<Rightarrow> string \<Rightarrow> handler \<Rightarrow> handler" where
  "denySession sv sess clientReason metricReason h =
     metric (AuthDenied metricReason)
       (sendOrLog (sv_sink sv) (deny (ps_CID sess) (ps_KID sess) clientReason)
         (h\<lparr>h_sessions := MarkFailed (ps_SessionID sess) (h_sessions h)\<rparr>))"

definition check_membership ::
  "environ \<Rightarrow> string \<Rightarrow> string \<Rightarrow> handler \<Rightarrow> (string + identity_result) \<times> handler" where
  "check_membership e user grp h =
     (let h1 = emit (OCheckUser user grp True) h in (e_check e (h_out h1), h1))"

definition checkGroup ::
  "environ \<Rightarrow> server \<Rightarrow> pending_session \<Rightarrow> jwt_claims \<Rightarrow> handler \<Rightarrow> bool option \<times> handler" where
  "checkGroup e sv sess claims h =
     (if GroupsSource (sv_cfg sv) = GroupsSourceJWTClaim then
        (Some (member_loop (ps_RequiredGroup sess) (jc_Groups claims)), h)
      else if \<not> sv_identity sv then (None, h)
      else (case check_membership e (ac_CognitoUsername (jc_alb claims)) (ps_RequiredGroup sess) h of
          (Inl err, h1) \<Rightarrow> (None, h1)
        | (Inr result, h1) \<Rightarrow>
            if \<not> ir_Enabled result then (None, h1) else (Some (ir_InGroup result), h1)))"

text \<open>What the token of a claimed session gives: the claims, a failure the browser may retry, or a
  failure that denies the session.\<close>

datatype token_result = Claims jwt_claims | KeyUnavailable | BadToken string string

definition read_token_claims ::
  "callback_env \<Rightarrow> string \<Rightarrow> jwt_header \<Rightarrow> server \<Rightarrow> token_result \<times> server" where
  "read_token_claims ce oidcData hdr sv =
     (if sv_albARN sv \<noteq> '''' then
        (case getOrFetchKey ce (jh_Kid hdr) sv of
           (None, sv1) \<Rightarrow> (KeyUnavailable, sv1)
         | (Some pubKey, sv1) \<Rightarrow>
             (case validateALBJWT ce oidcData pubKey (sv_albARN sv) (jh_Signer hdr)
                     (CognitoIssuerURL (sv_cfg sv)) (GroupsSource (sv_cfg sv) = GroupsSourceJWTClaim)
                     (GroupsClaim (sv_cfg sv)) of
                None \<Rightarrow> (BadToken ''jwt validation failed'' ''jwt_validation_failed'', sv1)
              | Some claims \<Rightarrow> (Claims claims, sv1)))
      else
        (case parseJWTClaimsUnsafe oidcData (GroupsClaim (sv_cfg sv)) of
           None \<Rightarrow> (BadToken ''invalid jwt claims'' ''invalid_jwt_claims'', sv)
         | Some claims \<Rightarrow> (Claims claims, sv)))"

text \<open>The CN cross-check: \<open>None\<close> when it passes, otherwise the reasons and the page title.\<close>

definition cn_check :: "(nat \<Rightarrow> nat) \<Rightarrow> pending_session \<Rightarrow> jwt_claims \<Rightarrow> (string \<times> string \<times> string) option" where
  "cn_check uc sess claims =
     (if ps_CNCrossCheck sess \<and> ps_CommonName sess \<noteq> '''' then
        (case (NormalizeIdentity uc (ac_Email (jc_alb claims)), NormalizeIdentity uc (ps_CommonName sess)) of
           (Inr email, Inr cn) \<Rightarrow>
             if email \<noteq> cn then Some (''cn mismatch'', ''cn_mismatch'', ''Certificate Mismatch'') else None
         | _ \<Rightarrow> Some (''invalid identity'', ''invalid_identity'', ''Authentication Failed''))
      else None)"

definition reject_session ::
  "server \<Rightarrow> pending_session \<Rightarrow> string \<Rightarrow> string \<Rightarrow> string \<Rightarrow> handler \<Rightarrow> response \<times> handler" where
  "reject_session sv sess clientReason why title h =
     (Resp 403 title, metric (CallbackRejected why) (denySession sv sess clientReason why h))"

text \<open>\<open>sendAllowDecision\<close> and what follows it: the session is promoted only when the command was
  accepted.\<close>

definition allow :: "string \<Rightarrow> string \<Rightarrow> decision" where
  "allow cid kid = mk_decision DecisionAllow cid kid"

definition grant_session ::
  "environ \<Rightarrow> server \<Rightarrow> pending_session \<Rightarrow> jwt_claims \<Rightarrow> handler \<Rightarrow> response \<times> handler" where
  "grant_session e sv sess claims h =
     (case send_decision e (sv_sink sv) (allow (ps_CID sess) (ps_KID sess)) h of
        (Some err, h1) \<Rightarrow>
          (Resp 503 ''Service Unavailable'',
           metric (CallbackRejected ''send_failed'')
             (h1\<lparr>h_sessions := MarkFailed (ps_SessionID sess) (h_sessions h1)\<rparr>))
      | (None, h1) \<Rightarrow>
          (let h2 = (if sv_tracker sv then
                       MarkAuthenticated e (ps_CID sess) (ac_CognitoUsername (jc_alb claims)) h1 else h1)
           in (Resp 200 ''Success'',
               metric AuthSuccess (h2\<lparr>h_sessions := MarkDone (ps_SessionID sess) (h_sessions h2)\<rparr>))))"

text \<open>Steps 7 to 9: the checks on the claims.\<close>

definition authorize_claims ::
  "environ \<Rightarrow> server \<Rightarrow> pending_session \<Rightarrow> jwt_claims \<Rightarrow> handler \<Rightarrow> response \<times> handler" where
  "authorize_claims e sv sess claims h =
     (case cn_check (e_uc e) sess claims of
        Some (reason, why, title) \<Rightarrow> reject_session sv sess reason why title h
      | None \<Rightarrow>
          if ps_RequiredGroup sess \<noteq> '''' then
            (case checkGroup e sv sess claims h of
               (None, h1) \<Rightarrow> reject_session sv sess ''group check error'' ''group_check_error'' ''Authorization Error'' h1
             | (Some False, h1) \<Rightarrow>
                 reject_session sv sess
                   (if GroupsSource (sv_cfg sv) = GroupsSourceJWTClaim \<and> \<not> jc_GroupsClaimPresent claims
                    then ''group claim not present'' else ''not in required group'')
                   ''group_denied'' ''Access Denied'' h1
             | (Some True, h1) \<Rightarrow> grant_session e sv sess claims h1)
          else grant_session e sv sess claims h)"

text \<open>Steps 3 to 9, for a session this request has claimed.\<close>

definition callback_decide ::
  "callback_env \<Rightarrow> environ \<Rightarrow> request \<Rightarrow> pending_session \<Rightarrow> server \<Rightarrow> handler \<Rightarrow>
   response \<times> server \<times> handler" where
  "callback_decide ce e rq sess sv h =
     (let refuse = (\<lambda>sv1 reason why. case reject_session sv sess reason why ''Authentication Failed'' h of
                      (r, h1) \<Rightarrow> (r, sv1, h1)) in
      if rq_oidcData rq = '''' then refuse sv ''missing oidc header'' ''missing_oidc_header''
      else (case parseJWTHeader (rq_oidcData rq) of
          None \<Rightarrow> refuse sv ''invalid jwt header'' ''invalid_jwt_header''
        | Some hdr \<Rightarrow>
            (case read_token_claims ce (rq_oidcData rq) hdr sv of
               (KeyUnavailable, sv1) \<Rightarrow>
                 (Resp 503 ''Service Unavailable'', sv1,
                  metric (CallbackRejected ''public_key_fetch_failed'')
                    (h\<lparr>h_sessions := MarkPending (ps_SessionID sess) (h_sessions h)\<rparr>))
             | (BadToken reason why, sv1) \<Rightarrow> refuse sv1 reason why
             | (Claims claims, sv1) \<Rightarrow>
                 (case authorize_claims e sv sess claims h of (r, h1) \<Rightarrow> (r, sv1, h1)))))"

text \<open>Steps 1 and 2: the state parameter, and the claim on the session.\<close>

definition trim_state :: "string \<Rightarrow> string" where
  "trim_state rawState = TrimSuffix (TrimSuffix rawState ''%27'') [CHR 0x27]"

definition reject_callback :: "nat \<Rightarrow> string \<Rightarrow> string \<Rightarrow> handler \<Rightarrow> response \<times> handler" where
  "reject_callback code title why h = (Resp code title, metric (CallbackRejected why) h)"

definition callback_claim ::
  "environ \<Rightarrow> request \<Rightarrow> handler \<Rightarrow> (response + pending_session) \<times> handler" where
  "callback_claim e rq h =
     (let h1 = metric CallbackReceived h; stateParam = trim_state (rq_state rq) in
      if stateParam = '''' then map_prod Inl id (reject_callback 400 ''Session Error'' ''missing_state'' h1)
      else (case DecodeState (time_now e h1) stateParam (Verify (h_signer h1)) of
          Inl err \<Rightarrow> map_prod Inl id (reject_callback 400 ''Session Error'' ''invalid_state'' h1)
        | Inr payload \<Rightarrow>
            (case TryProcess (sp_SID payload) (h_sessions h1) of
               (Inl ErrSessionNotFound, _) \<Rightarrow>
                 map_prod Inl id (reject_callback 404 ''Session Expired'' ''session_not_found'' h1)
             | (Inl (ErrSessionNotPending st), _) \<Rightarrow>
                 map_prod Inl id (reject_callback 409 ''Session Error'' ''session_not_pending'' h1)
             | (Inr sess, store) \<Rightarrow> (Inr sess, h1\<lparr>h_sessions := store\<rparr>))))"

definition handleCallback ::
  "callback_env \<Rightarrow> environ \<Rightarrow> request \<Rightarrow> server \<Rightarrow> handler \<Rightarrow> response \<times> server \<times> handler" where
  "handleCallback ce e rq sv h =
     (case callback_claim e rq h of
        (Inl r, h1) \<Rightarrow> (r, sv, h1)
      | (Inr sess, h1) \<Rightarrow> callback_decide ce e rq sess sv h1)"

section \<open>Health\<close>

definition handleHealthz :: "bool \<Rightarrow> gotime \<Rightarrow> server \<Rightarrow> handler \<Rightarrow> nat \<times> string" where
  "handleHealthz connected now sv h =
     (let field = (\<lambda>k v. CHR 0x22 # k @ [CHR 0x22, CHR '':''] @ v);
          status = (if connected then ''ok'' else ''degraded'')
      in (if connected then 200 else 503,
          ''{'' @ join '','' [field ''status'' (json_quote status),
             field ''mgmt_connected'' (if connected then ''true'' else ''false''),
             field ''uptime_seconds'' (itoa (duration_seconds (time_Since now (sv_startTime sv)))),
             field ''stored_sessions'' (itoa (int (Len (h_sessions h))))] @ ''}'' @ [CHR 0x0A]))"

section \<open>The state parameter\<close>

lemma blob_last:
  assumes "s \<noteq> []" and "\<And>c. c \<in> set s \<Longrightarrow> b64_symbol c \<or> c = CHR ''.''"
  shows "\<not> HasSuffix s [CHR 0x27]" and "\<not> HasSuffix s ''%27''"
proof -
  have n: "\<not> b64_symbol (CHR 0x27)" "\<not> b64_symbol (CHR ''%'')"
    by (simp_all add: b64_symbol_def b64_val_def byte_def)
  show "\<not> HasSuffix s [CHR 0x27]"
    using assms(2) [of "CHR 0x27"] n(1) by (auto simp: HasSuffix_iff)
  show "\<not> HasSuffix s ''%27''"
    using assms(2) [of "CHR ''%''"] n(2) by (auto simp: HasSuffix_iff)
qed

lemma trim_state_blob:
  "trim_state (EncodeState p (Sign k)) = EncodeState p (Sign k)"
  "trim_state (EncodeState p (Sign k) @ [CHR 0x27]) = EncodeState p (Sign k)"
  "trim_state (EncodeState p (Sign k) @ ''%27'') = EncodeState p (Sign k)"
proof -
  let ?s = "EncodeState p (Sign k)"
  have "?s \<noteq> []" by (simp add: EncodeState_def Let_def)
  note l = blob_last [OF this static.encode_symbols]
  have q: "\<not> HasSuffix (?s @ [CHR 0x27]) ''%27''" by (simp add: HasSuffix_def)
  show "trim_state ?s = ?s" "trim_state (?s @ [CHR 0x27]) = ?s" "trim_state (?s @ ''%27'') = ?s"
    using l q by (simp_all add: trim_state_def TrimSuffix_other)
qed

text \<open>
  The callback tolerates the artifacts that terminals and the ALB add to the URL. The state
  blob of any payload, followed by nothing, by an apostrophe or by its percent-encoding, is
  trimmed to the blob itself.
\<close>

theorem state_artifacts_trimmed:
  assumes "artifact \<in> set ['''', [CHR 0x27], ''%27'']"
  shows "trim_state (EncodeState p (Sign k) @ artifact) = EncodeState p (Sign k)"
  using assms trim_state_blob by auto

theorem state_artifacts_trimmed_witness:
  "trim_state (EncodeState \<lparr>sp_SID = ''s'', sp_IAT = 1, sp_EXP = 2\<rparr> (Sign \<lparr>signer_secret = ''k''\<rparr>) @ ''%27'') =
     EncodeState \<lparr>sp_SID = ''s'', sp_IAT = 1, sp_EXP = 2\<rparr> (Sign \<lparr>signer_secret = ''k''\<rparr>)"
  by (rule state_artifacts_trimmed) simp

section \<open>What a grant requires\<close>

text \<open>The new effects of an operation.\<close>

definition new_effects :: "handler \<Rightarrow> handler \<Rightarrow> effect list" where
  "new_effects h h' = drop (length (h_out h)) (h_out h')"

lemma harmless_no_grant: "harmless h h' \<Longrightarrow> x \<in> set (new_effects h h') \<Longrightarrow> \<not> grants x"
  by (auto simp: adds_def new_effects_def list_all_iff)

lemma harmless_reject: "harmless h h1 \<Longrightarrow> harmless h (snd (reject_session sv sess r w t h1))"
  by (auto simp: reject_session_def denySession_def intro!: adds_intros)

lemma harmless_checkGroup:
  "harmless h h1 \<Longrightarrow> harmless h (snd (checkGroup e sv sess cl h1))"
  by (auto simp: checkGroup_def check_membership_def Let_def intro!: adds_intros split: sum.splits)

lemma harmless_claim: "harmless h (snd (callback_claim e rq h))"
  by (auto simp: callback_claim_def reject_callback_def Let_def intro!: adds_intros
      split: sum.splits prod.splits session_error.splits)

text \<open>The checks on the token of a request. Behind an ALB the claims are those that the JWT library
  returned as valid for a key function that hands out the ALB's key for ECDSA methods and for no
  other method, with an expiry required.\<close>

definition ecdsa_only :: "string \<Rightarrow> (signing_method \<Rightarrow> string option) \<Rightarrow> bool" where
  "ecdsa_only key f \<longleftrightarrow> (\<forall>alg. f (SigningMethodECDSA alg) = Some key \<and> f (SigningMethodOther alg) = None)"

lemma albKeyFunc_ecdsa: "ecdsa_only key (albKeyFunc key)"
  by (simp add: ecdsa_only_def albKeyFunc_def)

definition token_ok :: "callback_env \<Rightarrow> server \<Rightarrow> string \<Rightarrow> jwt_claims \<Rightarrow> bool" where
  "token_ok ce sv tok cl \<longleftrightarrow>
     (if sv_albARN sv \<noteq> '''' then
        (\<exists>hdr key mc. parseJWTHeader tok = Some hdr \<and> jh_Signer hdr = sv_albARN sv \<and>
           (fmlookup (sv_keyCache sv) (jh_Kid hdr) = Some key \<or> ce_fetch ce (jh_Kid hdr) = Some key) \<and>
           (\<exists>f opts. ecdsa_only key f \<and> WithExpirationRequired \<in> set opts \<and> ce_parse ce tok f opts = Some (mc, True)) \<and>
           extractALBClaims mc = Some (jc_alb cl) \<and>
           (CognitoIssuerURL (sv_cfg sv) = '''' \<or> ac_Iss (jc_alb cl) = CognitoIssuerURL (sv_cfg sv)) \<and>
           (GroupsSource (sv_cfg sv) = GroupsSourceJWTClaim \<longrightarrow>
              (jc_Groups cl, jc_GroupsClaimPresent cl) = extractGroupsFromRaw mc (GroupsClaim (sv_cfg sv))))
      else parseJWTClaimsUnsafe tok (GroupsClaim (sv_cfg sv)) = Some cl)"

lemma read_token_claims_ok:
  assumes "read_token_claims ce tok hdr sv = (Claims cl, sv1)" and "parseJWTHeader tok = Some hdr"
  shows "token_ok ce sv tok cl"
proof (cases "sv_albARN sv = ''''")
  case True
  with assms show ?thesis by (auto simp: read_token_claims_def token_ok_def split: option.splits)
next
  case False
  then obtain key where key: "fst (getOrFetchKey ce (jh_Kid hdr) sv) = Some key"
    "validateALBJWT ce tok key (sv_albARN sv) (jh_Signer hdr) (CognitoIssuerURL (sv_cfg sv))
       (GroupsSource (sv_cfg sv) = GroupsSourceJWTClaim) (GroupsClaim (sv_cfg sv)) = Some cl"
    using assms(1) by (auto simp: read_token_claims_def split: prod.splits option.splits)
  have "fmlookup (sv_keyCache sv) (jh_Kid hdr) = Some key \<or> ce_fetch ce (jh_Kid hdr) = Some key"
    using key(1) by (auto simp: getOrFetchKey_def split: option.splits)
  moreover from key(2) obtain mc where mc: "jh_Signer hdr = sv_albARN sv" "extractALBClaims mc = Some (jc_alb cl)"
    "ce_parse ce tok (albKeyFunc key) [WithExpirationRequired, WithPaddingAllowed] = Some (mc, True)"
    "CognitoIssuerURL (sv_cfg sv) = '''' \<or> ac_Iss (jc_alb cl) = CognitoIssuerURL (sv_cfg sv)"
    "GroupsSource (sv_cfg sv) = GroupsSourceJWTClaim \<longrightarrow>
       (jc_Groups cl, jc_GroupsClaimPresent cl) = extractGroupsFromRaw mc (GroupsClaim (sv_cfg sv))"
    by (auto simp: validateALBJWT_def split: if_splits option.splits prod.splits)
  moreover from mc(3) have "\<exists>f opts. ecdsa_only key f \<and> WithExpirationRequired \<in> set opts \<and> ce_parse ce tok f opts = Some (mc, True)"
    using albKeyFunc_ecdsa [of key] by (metis list.set_intros(1))
  ultimately show ?thesis using assms(2) False unfolding token_ok_def by auto
qed

definition group_ok :: "environ \<Rightarrow> effect list \<Rightarrow> server \<Rightarrow> pending_session \<Rightarrow> jwt_claims \<Rightarrow> bool" where
  "group_ok e out sv sess cl \<longleftrightarrow>
     ps_RequiredGroup sess = '''' \<or>
     (if GroupsSource (sv_cfg sv) = GroupsSourceJWTClaim then ps_RequiredGroup sess \<in> set (jc_Groups cl)
      else \<exists>r. e_check e (out @ [OCheckUser (ac_CognitoUsername (jc_alb cl)) (ps_RequiredGroup sess) True]) = Inr r
             \<and> ir_Enabled r \<and> ir_InGroup r)"

definition cn_ok :: "environ \<Rightarrow> pending_session \<Rightarrow> jwt_claims \<Rightarrow> bool" where
  "cn_ok e sess cl \<longleftrightarrow>
     ps_CNCrossCheck sess \<longrightarrow> ps_CommonName sess \<noteq> '''' \<longrightarrow>
     (\<exists>i. NormalizeIdentity (e_uc e) (ac_Email (jc_alb cl)) = Inr i \<and>
          NormalizeIdentity (e_uc e) (ps_CommonName sess) = Inr i)"

lemma cn_check_ok: "cn_check (e_uc e) sess cl = None \<Longrightarrow> cn_ok e sess cl"
  by (auto simp: cn_check_def cn_ok_def split: if_splits sum.splits)

lemma checkGroup_ok:
  "fst (checkGroup e sv sess cl h) = Some True \<Longrightarrow> group_ok e (h_out h) sv sess cl"
  by (auto simp: checkGroup_def check_membership_def group_ok_def member_loop_iff Let_def
      split: if_splits sum.splits)

lemma authorize_cases:
  obtains (refused) "harmless h (snd (authorize_claims e sv sess cl h))"
  | (granted) h1 where "harmless h h1" "cn_ok e sess cl" "group_ok e (h_out h) sv sess cl"
      "authorize_claims e sv sess cl h = grant_session e sv sess cl h1"
proof (cases "cn_check (e_uc e) sess cl")
  case (Some r)
  then show ?thesis
    using refused harmless_reject [OF adds_refl] by (auto simp: authorize_claims_def split: prod.splits)
next
  case cn: None
  note ok = cn_check_ok [OF cn]
  show ?thesis
  proof (cases "ps_RequiredGroup sess = ''''")
    case True
    with cn ok granted [of h] show ?thesis by (simp add: authorize_claims_def group_ok_def adds_refl)
  next
    case False
    obtain r h1 where g: "checkGroup e sv sess cl h = (r, h1)" by (cases "checkGroup e sv sess cl h")
    then have h1: "harmless h h1" using harmless_checkGroup [OF adds_refl, of h e sv sess cl] by simp
    show ?thesis
    proof (cases "r = Some True")
      case True
      with g checkGroup_ok [of e sv sess cl h] have "group_ok e (h_out h) sv sess cl" by simp
      with True False cn g ok h1 granted [of h1] show ?thesis by (simp add: authorize_claims_def)
    next
      case no: False
      then consider "r = None" | "r = Some False" by (cases r) auto
      then show ?thesis
        by cases (use False cn g refused harmless_reject [OF h1] in \<open>simp_all add: authorize_claims_def\<close>)
    qed
  qed
qed

lemma decide_cases:
  obtains (refused) "harmless h (snd (snd (callback_decide ce e rq sess sv h)))"
  | (granted) cl h1 where "harmless h h1" "token_ok ce sv (rq_oidcData rq) cl" "cn_ok e sess cl"
      "group_ok e (h_out h) sv sess cl" "snd (snd (callback_decide ce e rq sess sv h)) = snd (grant_session e sv sess cl h1)"
      "fst (callback_decide ce e rq sess sv h) = fst (grant_session e sv sess cl h1)"
proof (cases "parseJWTHeader (rq_oidcData rq)")
  case None
  then show ?thesis
    by (intro refused) (simp add: callback_decide_def Let_def case_prod_beta harmless_reject adds_refl)
next
  case (Some hdr)
  obtain t sv1 where t: "read_token_claims ce (rq_oidcData rq) hdr sv = (t, sv1)"
    by (cases "read_token_claims ce (rq_oidcData rq) hdr sv")
  show ?thesis
  proof (cases "\<exists>cl. t = Claims cl \<and> rq_oidcData rq \<noteq> ''''")
    case True
    then obtain cl where cl: "t = Claims cl" "rq_oidcData rq \<noteq> ''''" by blast
    have d: "snd (snd (callback_decide ce e rq sess sv h)) = snd (authorize_claims e sv sess cl h)"
      "fst (callback_decide ce e rq sess sv h) = fst (authorize_claims e sv sess cl h)"
      using Some t cl by (simp_all add: callback_decide_def Let_def split: prod.splits)
    have "token_ok ce sv (rq_oidcData rq) cl" by (rule read_token_claims_ok [OF t [unfolded cl(1)] Some])
    then show ?thesis
      by (cases rule: authorize_cases [of h e sv sess cl]) (use d refused granted in auto)
  next
    case False
    have "harmless h (metric m (h\<lparr>h_sessions := st\<rparr>))" for m st by (intro adds_intros) simp
    with False Some t show ?thesis
      by (intro refused, cases t)
         (simp_all add: callback_decide_def Let_def case_prod_beta harmless_reject adds_refl)
  qed
qed

lemma grant_session_effects:
  "adds (\<lambda>x. \<not> grants x \<or> sent x = Some (allow (ps_CID sess) (ps_KID sess))) h (snd (grant_session e sv sess cl h))"
proof -
  let ?P = "\<lambda>x. \<not> grants x \<or> sent x = Some (allow (ps_CID sess) (ps_KID sess))"
  have "adds ?P h (snd (send_decision e (sv_sink sv) (allow (ps_CID sess) (ps_KID sess)) h))"
    by (simp add: send_decision_def Let_def adds_intros)
  moreover have "adds ?P h1 (MarkAuthenticated e c u h1)" for c u h1
    by (auto simp: MarkAuthenticated_def intro!: adds_intros)
  ultimately show ?thesis
    by (auto simp: grant_session_def Let_def intro!: adds_intros intro: adds_trans
        split: prod.splits option.splits)
qed

lemma claim_ok:
  assumes "callback_claim e rq h = (Inr sess, h1)"
  obtains p s0 where "DecodeState (e_now e (h_out h @ [OMetric CallbackReceived])) (trim_state (rq_state rq))
      (Verify (h_signer h)) = Inr p" "fmlookup (h_sessions h) (sp_SID p) = Some s0"
    "ps_Status s0 = SessionPending" "sess = s0\<lparr>ps_Status := SessionProcessing\<rparr>"
    "h1 = (metric CallbackReceived h)\<lparr>h_sessions := fmupd (sp_SID p) sess (h_sessions h)\<rparr>"
proof -
  from assms obtain p store where p: "DecodeState (e_now e (h_out h @ [OMetric CallbackReceived]))
      (trim_state (rq_state rq)) (Verify (h_signer h)) = Inr p"
    "TryProcess (sp_SID p) (h_sessions h) = (Inr sess, store)"
    "h1 = (metric CallbackReceived h)\<lparr>h_sessions := store\<rparr>"
    by (auto simp: callback_claim_def reject_callback_def Let_def metric_def time_now_def
        split: if_splits sum.splits prod.splits session_error.splits)
  then show ?thesis
    using that [OF p(1)]
    by (cases rule: claim_cases [of "h_sessions h" "sp_SID p" SessionProcessing]) (auto simp: TryProcess_def)
qed

text \<open>
  C2: access is granted only when every check has passed. If a callback sends a decision that
  grants access, then the decision is \<open>client-auth\<close> for the CID and KID of a stored session that
  was pending; the request's state parameter carries the daemon's own MAC, has not expired and
  names that session; with a configured ALB the token's signer is that ALB, the JWT library has
  verified the token under the key cached or fetched for its key id, and the issuer is the
  configured one; the email of the token is the certificate's common name up to case when the
  cross-check is on; and the required group, if any, is among the groups of the verified claim or
  confirmed for an enabled user by the identity provider.
\<close>

theorem callback_grant_requires:
  assumes "handleCallback ce e rq sv h = (r, sv', h')" and "x \<in> set (new_effects h h')" and "grants x"
  shows "\<exists>p s0 cl.
    sent x = Some (allow (ps_CID s0) (ps_KID s0)) \<and>
    DecodeState (e_now e (h_out h @ [OMetric CallbackReceived])) (trim_state (rq_state rq)) (Verify (h_signer h)) = Inr p \<and>
    fmlookup (h_sessions h) (sp_SID p) = Some s0 \<and> ps_Status s0 = SessionPending \<and>
    token_ok ce sv (rq_oidcData rq) cl \<and> cn_ok e s0 cl \<and> group_ok e (h_out h @ [OMetric CallbackReceived]) sv s0 cl"
proof -
  obtain c h1 where c: "callback_claim e rq h = (c, h1)" by (cases "callback_claim e rq h")
  have h1: "harmless h h1" using harmless_claim [of h e rq] c by simp
  show ?thesis
  proof (cases c)
    case (Inl resp)
    with c assms(1) h1 harmless_no_grant [OF _ assms(2)] assms(3) show ?thesis
      by (simp add: handleCallback_def)
  next
    case (Inr sess)
    from claim_ok [OF c [unfolded Inr]] obtain p s0 where p: "DecodeState
        (e_now e (h_out h @ [OMetric CallbackReceived])) (trim_state (rq_state rq)) (Verify (h_signer h)) = Inr p"
      "fmlookup (h_sessions h) (sp_SID p) = Some s0" "ps_Status s0 = SessionPending"
      "sess = s0\<lparr>ps_Status := SessionProcessing\<rparr>"
      "h1 = (metric CallbackReceived h)\<lparr>h_sessions := fmupd (sp_SID p) sess (h_sessions h)\<rparr>" by metis
    have h': "h' = snd (snd (callback_decide ce e rq sess sv h1))"
      using c Inr assms(1) by (simp add: handleCallback_def)
    show ?thesis
    proof (cases rule: decide_cases [of h1 ce e rq sess sv])
      case refused
      with h' h1 adds_trans harmless_no_grant [OF _ assms(2)] assms(3) show ?thesis by blast
    next
      case (granted cl h2)
      let ?P = "\<lambda>x. \<not> grants x \<or> sent x = Some (allow (ps_CID sess) (ps_KID sess))"
      have w: "adds ?P a b" if "harmless a b" for a b
        using that by (auto simp: adds_def list_all_iff)
      have "adds ?P h h'"
        using adds_trans [OF adds_trans [OF w [OF h1] w [OF granted(1)]] grant_session_effects]
        by (simp add: h' granted(5))
      with assms(2,3) have "sent x = Some (allow (ps_CID s0) (ps_KID s0))"
        by (auto simp: adds_def new_effects_def list_all_iff p(4))
      moreover have "cn_ok e s0 cl" "group_ok e (h_out h @ [OMetric CallbackReceived]) sv s0 cl"
        using granted(3,4) by (simp_all add: p(4,5) cn_ok_def group_ok_def metric_def split: if_splits)
      ultimately show ?thesis using p granted(2) by blast
    qed
  qed
qed

section \<open>A sample callback\<close>

definition sample_pending :: pending_session where
  "sample_pending = new_session sample_config sample_connect ''sid9'' (1700000000 * time_second)"

definition sample_waiting :: handler where
  "sample_waiting = sample_handler\<lparr>h_sessions := Put sample_pending fmempty\<rparr>"

definition sample_server :: server where
  "sample_server = \<lparr>sv_cfg = sample_config, sv_sink = Sink 0 True, sv_tracker = True, sv_identity = True,
     sv_albARN = ''a'', sv_keyCache = fmempty, sv_startTime = 0\<rparr>"

definition sample_callback_env :: callback_env where
  "sample_callback_env = \<lparr>ce_parse = (\<lambda>tok keyFunc opts.
       if keyFunc (SigningMethodECDSA ''ES256'') = Some ''PEM'' \<and> WithExpirationRequired \<in> set opts then
         Some (fmap_of_list
           [(''email'', JStr ''alice''), (''iss'', JStr ''https://issuer''), (''cognito:username'', JStr ''alice'')], True)
       else None),
     ce_fetch = (\<lambda>kid. Some ''PEM'')\<rparr>"

definition sample_checks :: environ where
  "sample_checks = sample_env\<lparr>e_check := (\<lambda>_. Inr \<lparr>ir_Exists = True, ir_Enabled = True, ir_InGroup = True,
     ir_CheckedAt = 0, ir_FailureCause = ''''\<rparr>)\<rparr>"

definition sample_payload :: state_payload where
  "sample_payload = \<lparr>sp_SID = ''sid9'', sp_IAT = 1700000000, sp_EXP = 1700000270\<rparr>"

definition sample_request :: request where
  "sample_request =
     \<lparr>rq_state = EncodeState sample_payload (Sign \<lparr>signer_secret = ''0123456789abcdef''\<rparr>),
      rq_oidcData = ''eyJzaWduZXIiOiJhIn0.e30.sig''\<rparr>"

lemma sample_header:
  "parseJWTHeader ''eyJzaWduZXIiOiJhIn0.e30.sig'' = Some \<lparr>jh_Kid = '''', jh_Signer = ''a''\<rparr>"
  by code_simp

lemma sample_email: "NormalizeIdentity id ''alice'' = Inr ''alice''"
  by code_simp

lemma sample_claim:
  "callback_claim sample_checks sample_request sample_waiting =
     (Inr (sample_pending\<lparr>ps_Status := SessionProcessing\<rparr>),
      (metric CallbackReceived sample_waiting)\<lparr>h_sessions :=
         fmupd ''sid9'' (sample_pending\<lparr>ps_Status := SessionProcessing\<rparr>) (h_sessions sample_waiting)\<rparr>)"
proof -
  have "payload_ok sample_payload"
    by (simp add: payload_ok_def sample_payload_def json_safe_def byte_def i64_max_def)
  moreover have "unix_seconds (1700000000 * time_second) \<le> sp_EXP sample_payload"
    by (simp add: unix_seconds_def i64_def time_second_def sample_payload_def)
  ultimately have "DecodeState (1700000000 * time_second)
      (EncodeState sample_payload (Sign \<lparr>signer_secret = ''0123456789abcdef''\<rparr>))
      (Verify \<lparr>signer_secret = ''0123456789abcdef''\<rparr>) = Inr sample_payload"
    by (rule static.decode_encode)
  moreover have "EncodeState sample_payload (Sign k) \<noteq> []" for k by (simp add: EncodeState_def Let_def)
  ultimately show ?thesis
    by (simp add: callback_claim_def sample_request_def trim_state_blob sample_checks_def sample_env_def
        time_now_def metric_def sample_waiting_def sample_handler_def NewHandler_def TryProcess_def claim_def
        Put_def sample_payload_def sample_pending_def new_session_def Let_def)
qed

lemma sample_granted:
  "\<exists>sv' h'. handleCallback sample_callback_env sample_checks sample_request sample_server sample_waiting =
       (Resp 200 ''Success'', sv', h') \<and>
     OSendAck (Sink 0 True) (allow ''9'' ''1'') \<in> set (new_effects sample_waiting h')"
proof -
  let ?sess = "sample_pending\<lparr>ps_Status := SessionProcessing\<rparr>"
  let ?h1 = "snd (callback_claim sample_checks sample_request sample_waiting)"
  let ?cl = "\<lparr>jc_alb = \<lparr>ac_Sub = '''', ac_Email = ''alice'', ac_Iss = ''https://issuer'', ac_CognitoUsername = ''alice''\<rparr>,
    jc_Groups = [], jc_GroupsClaimPresent = False\<rparr>"
  have pend: "ps_CNCrossCheck ?sess" "ps_CommonName ?sess = ''Alice''" "ps_RequiredGroup ?sess = ''vpn''"
    "ps_CID ?sess = ''9''" "ps_KID ?sess = ''1''"
    by (simp_all add: sample_pending_def new_session_def sample_config_def sample_connect_def CommonName_def getz_def)
  have "\<exists>sv1. read_token_claims sample_callback_env (rq_oidcData sample_request)
      \<lparr>jh_Kid = '''', jh_Signer = ''a''\<rparr> sample_server = (Claims ?cl, sv1)"
    by (simp add: read_token_claims_def sample_server_def getOrFetchKey_def sample_callback_env_def
        validateALBJWT_def albKeyFunc_def extractALBClaims_def claim_string_def sample_config_def GroupsSourceJWTClaim_def Let_def)
  then obtain sv1 where t: "read_token_claims sample_callback_env (rq_oidcData sample_request)
      \<lparr>jh_Kid = '''', jh_Signer = ''a''\<rparr> sample_server = (Claims ?cl, sv1)" by blast
  have cn: "cn_check (e_uc sample_checks) ?sess ?cl = None"
    using pend sample_identity sample_email by (simp add: cn_check_def sample_checks_def sample_env_def)
  let ?h2 = "emit (OCheckUser ''alice'' ''vpn'' True) ?h1"
  have g: "checkGroup sample_checks sample_server ?sess ?cl ?h1 = (Some True, ?h2)"
    using pend by (simp add: checkGroup_def sample_server_def sample_config_def GroupsSourceJWTClaim_def
        check_membership_def sample_checks_def Let_def)
  have a: "authorize_claims sample_checks sample_server ?sess ?cl ?h1 =
      grant_session sample_checks sample_server ?sess ?cl ?h2"
    using cn g pend by (simp add: authorize_claims_def)
  have "h_out sample_waiting = []" by (simp add: sample_waiting_def sample_handler_def NewHandler_def)
  moreover from this have out: "h_out ?h1 = [OMetric CallbackReceived]" by (simp add: sample_claim metric_def)
  have "fst (grant_session sample_checks sample_server ?sess ?cl ?h2) = Resp 200 ''Success'' \<and>
    h_out (snd (grant_session sample_checks sample_server ?sess ?cl ?h2)) =
      [OMetric CallbackReceived, OCheckUser ''alice'' ''vpn'' True, OSendAck (Sink 0 True) (allow ''9'' ''1''),
       OMetric AuthSuccess]"
    using pend out
    by (simp add: grant_session_def send_decision_def sample_server_def sample_checks_def sample_env_def
        MarkAuthenticated_def promoteSession_simps metric_def Let_def)
  moreover have "rq_oidcData sample_request = ''eyJzaWduZXIiOiJhIn0.e30.sig''"
    by (simp add: sample_request_def)
  ultimately show ?thesis
    using t a sample_header
    by (simp add: handleCallback_def sample_claim callback_decide_def case_prod_beta new_effects_def Let_def)
qed

theorem callback_grant_requires_witness:
  "\<exists>(p :: state_payload) s0. fmlookup (h_sessions sample_waiting) (sp_SID p) = Some s0 \<and> ps_Status s0 = SessionPending \<and>
     allow (ps_CID s0) (ps_KID s0) = allow ''9'' ''1''"
proof -
  obtain sv' h' where r: "handleCallback sample_callback_env sample_checks sample_request sample_server sample_waiting =
      (Resp 200 ''Success'', sv', h')" "OSendAck (Sink 0 True) (allow ''9'' ''1'') \<in> set (new_effects sample_waiting h')"
    using sample_granted by blast
  have "grants (OSendAck (Sink 0 True) (allow ''9'' ''1''))" by (simp add: grants_def allow_def mk_decision_def)
  from callback_grant_requires [OF r this] obtain p :: state_payload and s0 where
    "fmlookup (h_sessions sample_waiting) (sp_SID p) = Some s0" "ps_Status s0 = SessionPending"
    "sent (OSendAck (Sink 0 True) (allow ''9'' ''1'')) = Some (allow (ps_CID s0) (ps_KID s0))"
    by blast
  then show ?thesis by (intro exI [of _ p] exI [of _ s0] conjI) (simp_all only: sent.simps option.inject)
qed

end
