(* ===== verification/LambdaRouter.thy ===== *)
theory LambdaRouter
  imports Callback
begin

text \<open>
  \<open>lambda-router/main.go\<close>: the function behind the ALB that sends a callback on to the daemon of the
  VPN server named in the path. Regular expressions, dotted-decimal addresses, the CIDR test and
  query escaping are modelled from the standard library's documentation, and so is the redirect
  policy of the HTTP client. The transport and the syntax of URLs are parameters. The handler's
  result includes the requests it has made.
\<close>

unbundle bit_operations_syntax

section \<open>Addresses\<close>

text \<open>An IPv4 address is its four bytes; a network is an address and a mask.\<close>

type_synonym ip = "8 word list"

record ipnet =
  in_ip :: ip
  in_mask :: ip

text \<open>\<open>IPNet.Contains\<close> for the 4-byte form of an address.\<close>

definition Contains_ip :: "ipnet \<Rightarrow> ip \<Rightarrow> bool" where
  "Contains_ip n x \<longleftrightarrow> length x = length (in_ip n) \<and>
     list_all (\<lambda>(a, m, b). a AND m = b AND m) (zip (in_ip n) (zip (in_mask n) x))"

text \<open>\<open>ParseIP\<close> on a dotted address: decimal octets without leading zeros.\<close>

definition parse_octet :: "string \<Rightarrow> 8 word option" where
  "parse_octet s =
     (if s \<noteq> [] \<and> list_all is_digit s \<and> length s \<le> 3 \<and> (hd s = CHR ''0'' \<longrightarrow> length s = 1) \<and> digits_val s \<le> 255
      then Some (of_nat (digits_val s)) else None)"

definition ParseIP4 :: "string \<Rightarrow> ip option" where
  "ParseIP4 s =
     (case map parse_octet (Split s (CHR ''.'')) of
        [Some a, Some b, Some c, Some d] \<Rightarrow> Some [a, b, c, d]
      | _ \<Rightarrow> None)"

definition ip_string :: "ip \<Rightarrow> string" where
  "ip_string x = join ''.'' (map (\<lambda>b. nat_digits (unat b)) x)"

section \<open>The path\<close>

definition octet_text :: "string \<Rightarrow> bool" where
  "octet_text s \<longleftrightarrow> s \<noteq> [] \<and> length s \<le> 3 \<and> list_all is_digit s"

text \<open>\<open>pathRegex\<close>: the two groups of \<open>/callback/<ipv4>/(udp|tcp)\<close>.\<close>

definition match_path :: "string \<Rightarrow> (string \<times> string) option" where
  "match_path path =
     (if HasPrefix path ''/callback/'' then
        (case Split (TrimPrefix path ''/callback/'') (CHR ''/'') of
           [addr, proto] \<Rightarrow>
             if length (Split addr (CHR ''.'')) = 4 \<and> list_all octet_text (Split addr (CHR ''.'')) \<and>
                proto \<in> {''udp'', ''tcp''}
             then Some (addr, proto) else None
         | _ \<Rightarrow> None)
      else None)"

definition parsePath :: "string \<Rightarrow> (ip \<times> string) result" where
  "parsePath path =
     (case match_path path of
        None \<Rightarrow> Err ''path does not match /callback/<ip>/(udp|tcp)''
      | Some (addr, proto) \<Rightarrow>
          (case ParseIP4 addr of
             None \<Rightarrow> Err ''invalid IP address''
           | Some x \<Rightarrow> Ok (x, proto)))"

definition validateIP :: "ip \<Rightarrow> ipnet \<Rightarrow> string option" where
  "validateIP x cidr =
     (if length x \<noteq> 4 then Some ''not an IPv4 address''
      else if \<not> Contains_ip cidr x then Some ''IP is outside VPC CIDR''
      else None)"

section \<open>Query escaping\<close>

definition unreserved :: "char \<Rightarrow> bool" where
  "unreserved c \<longleftrightarrow> is_digit c \<or> (65 \<le> byte c \<and> byte c \<le> 90) \<or> (97 \<le> byte c \<and> byte c \<le> 122) \<or>
     c \<in> set ''-_.~''"

definition upper_hex :: "nat \<Rightarrow> char" where
  "upper_hex n = ''0123456789ABCDEF'' ! (n mod 16)"

definition escape_byte :: "char \<Rightarrow> string" where
  "escape_byte c =
     (if unreserved c then [c] else if c = CHR '' '' then ''+''
      else [CHR ''%'', upper_hex (byte c div 16), upper_hex (byte c mod 16)])"

definition QueryEscape :: "string \<Rightarrow> string" where
  "QueryEscape s = concat (map escape_byte s)"

definition unhex :: "char \<Rightarrow> nat option" where
  "unhex c =
     (if is_digit c then Some (byte c - 48)
      else if 65 \<le> byte c \<and> byte c \<le> 70 then Some (byte c - 55)
      else if 97 \<le> byte c \<and> byte c \<le> 102 then Some (byte c - 87) else None)"

text \<open>What \<open>net/url\<close> makes of an escaped value on the daemon's side.\<close>

fun QueryUnescape :: "string \<Rightarrow> string option" where
  "QueryUnescape [] = Some []"
| "QueryUnescape (c # s) =
     (if c = CHR ''%'' then
        (case s of
           a # b # rest \<Rightarrow>
             (case (unhex a, unhex b) of
                (Some x, Some y) \<Rightarrow> map_option ((#) (char_of (16 * x + y))) (QueryUnescape rest)
              | _ \<Rightarrow> None)
         | _ \<Rightarrow> None)
      else map_option ((#) (if c = CHR ''+'' then CHR '' '' else c)) (QueryUnescape s))"

section \<open>Configuration\<close>

definition allowedOIDCHeaders :: "string list" where
  "allowedOIDCHeaders = [''x-amzn-oidc-data'', ''x-amzn-oidc-accesstoken'', ''x-amzn-oidc-identity'']"

text \<open>\<open>json.Unmarshal\<close> into a slice of strings.\<close>

fun json_strings :: "json list \<Rightarrow> string list option" where
  "json_strings [] = Some []"
| "json_strings (JStr s # vs) = map_option ((#) s) (json_strings vs)"
| "json_strings (JNull # vs) = map_option ((#) '''') (json_strings vs)"
| "json_strings (_ # vs) = None"

definition unmarshal_strings :: "string \<Rightarrow> string list option" where
  "unmarshal_strings raw =
     (case json_parse raw of Some (JArr vs) \<Rightarrow> json_strings vs | Some JNull \<Rightarrow> Some [] | _ \<Rightarrow> None)"

fun check_headers :: "(nat \<Rightarrow> nat) \<Rightarrow> string list \<Rightarrow> string list \<Rightarrow> string list result" where
  "check_headers uc seen [] = Ok []"
| "check_headers uc seen (h # hs) =
     (let header = ToLower uc h in
      if header \<notin> set allowedOIDCHeaders then Err ''unsupported header''
      else if header \<in> set seen then Err ''duplicate header''
      else (case check_headers uc (header # seen) hs of
          Inl err \<Rightarrow> Err err
        | Inr rest \<Rightarrow> Ok (header # rest)))"

definition parseOIDCHeaders :: "(nat \<Rightarrow> nat) \<Rightarrow> string \<Rightarrow> string list result" where
  "parseOIDCHeaders uc raw =
     (case unmarshal_strings raw of
        None \<Rightarrow> Err ''not a valid JSON array''
      | Some headers \<Rightarrow>
          (case check_headers uc [] headers of
             Inl err \<Rightarrow> Err err
           | Inr hs \<Rightarrow> if ''x-amzn-oidc-data'' \<in> set hs then Ok hs else Err ''x-amzn-oidc-data is required''))"

record router =
  rt_vpcCIDR :: ipnet
  rt_portMap :: "(string, string) fmap"
  rt_timeout :: duration
  rt_connectTimeout :: duration
  rt_oidcHeaders :: "string list"

text \<open>\<open>configure\<close>, a panic being an error: the environment, which log levels are valid, and what
  \<open>net.ParseCIDR\<close> and \<open>time.ParseDuration\<close> make of a string are given.\<close>

definition env_or :: "(string, string) fmap \<Rightarrow> string \<Rightarrow> string \<Rightarrow> string" where
  "env_or env key def = (let v = getz env key in if v \<noteq> '''' then v else def)"

definition configure ::
  "(nat \<Rightarrow> nat) \<Rightarrow> (string \<Rightarrow> bool) \<Rightarrow> (string \<Rightarrow> ipnet option) \<Rightarrow> (string \<Rightarrow> duration option) \<Rightarrow>
   (string, string) fmap \<Rightarrow> router result" where
  "configure uc levelOk parseCIDR parseDuration env =
     (if \<not> levelOk (env_or env ''LOG_LEVEL'' ''info'') then Err ''LOG_LEVEL is not valid''
      else if getz env ''VPC_CIDR'' = '''' then Err ''VPC_CIDR environment variable is required''
      else (case parseCIDR (getz env ''VPC_CIDR'') of
        None \<Rightarrow> Err ''VPC_CIDR is not a valid CIDR''
      | Some cidr \<Rightarrow>
     (case parseDuration (env_or env ''UPSTREAM_TIMEOUT'' ''10s'') of
        None \<Rightarrow> Err ''UPSTREAM_TIMEOUT is not a valid duration''
      | Some timeout \<Rightarrow>
          if timeout \<le> 0 then Err ''UPSTREAM_TIMEOUT must be greater than zero''
          else (case parseDuration (env_or env ''UPSTREAM_CONNECT_TIMEOUT'' ''3s'') of
            None \<Rightarrow> Err ''UPSTREAM_CONNECT_TIMEOUT is not a valid duration''
          | Some connectTimeout \<Rightarrow>
              if connectTimeout \<le> 0 then Err ''UPSTREAM_CONNECT_TIMEOUT must be greater than zero''
              else if timeout \<le> connectTimeout then Err ''UPSTREAM_CONNECT_TIMEOUT must be less than UPSTREAM_TIMEOUT''
              else (case parseOIDCHeaders uc (env_or env ''OIDC_HEADERS'' (''['' @ json_quote ''x-amzn-oidc-data'' @ '']'')) of
                  Inl err \<Rightarrow> Err (''OIDC_HEADERS is invalid: '' @ err)
                | Inr hs \<Rightarrow>
                    Ok \<lparr>rt_vpcCIDR = cidr,
                        rt_portMap = fmap_of_list [(''udp'', env_or env ''DAEMON_PORT_UDP'' ''8080''),
                                                   (''tcp'', env_or env ''DAEMON_PORT_TCP'' ''8081'')],
                        rt_timeout = timeout, rt_connectTimeout = connectTimeout, rt_oidcHeaders = hs\<rparr>)))))"

section \<open>Requests\<close>

record alb_request =
  al_path :: string
  al_query :: "(string, string) fmap"
  al_headers :: "(string \<times> string) list" \<comment> \<open>in the order the map is iterated in\<close>

record upstream_request =
  up_ip :: ip
  up_port :: string
  up_query :: string
  up_headers :: "(string, string) fmap"

definition upstream_url :: "upstream_request \<Rightarrow> string" where
  "upstream_url u = ''http://'' @ ip_string (up_ip u) @ '':'' @ up_port u @ ''/callback/?state='' @ up_query u"

text \<open>How an upstream request can fail; \<open>classifyUpstreamError\<close> looks for the causes in this order.\<close>

record upstream_error =
  ue_connect :: bool \<comment> \<open>an \<open>upstreamConnectError\<close>\<close>
  ue_refused :: bool
  ue_timeout :: bool \<comment> \<open>a \<open>net.Error\<close> that is a timeout\<close>
  ue_deadline :: bool

definition classifyUpstreamError :: "upstream_error \<Rightarrow> string" where
  "classifyUpstreamError err =
     (if ue_connect err then
        (if ue_refused err then ''connection_refused''
         else if ue_timeout err then ''connect_timeout'' else ''network_error'')
      else if ue_deadline err then ''request_timeout''
      else if ue_timeout err then ''request_timeout''
      else ''network_error'')"

record lambda_response =
  lr_status :: nat
  lr_title :: string \<comment> \<open>of an error page; empty for a proxied response\<close>
  lr_headers :: "(string, string) fmap"
  lr_body :: string

text \<open>An error page: the template shows the message, and a page that cannot be rendered is the message
  as plain text; either way the answer is not to be cached.\<close>

definition errorPage :: "nat \<Rightarrow> string \<Rightarrow> string \<Rightarrow> lambda_response" where
  "errorPage code title message =
     \<lparr>lr_status = code, lr_title = title,
      lr_headers = fmap_of_list [(''content-type'', ''text/html; charset=utf-8''), (''cache-control'', ''no-store''),
                                 (''pragma'', ''no-cache'')],
      lr_body = message\<rparr>"

record upstream_reply =
  ur_status :: nat
  ur_headers :: "(string \<times> string list) list"
  ur_body :: "upstream_error + string" \<comment> \<open>what reading the body gives\<close>

text \<open>What the client is made of: whether a request can be built for a URL, the transport (with the
  dialler, the time limits and a proxy of the environment), the URL a location refers to from another
  one, and the \<open>Referer\<close> that \<open>net/http\<close> sends from one URL to the next, empty for none.\<close>

record http_client =
  hc_newRequest :: "string \<Rightarrow> upstream_error option"
  hc_roundTrip :: "string \<Rightarrow> (string, string) fmap \<Rightarrow> upstream_error + upstream_reply"
  hc_resolve :: "string \<Rightarrow> string \<Rightarrow> upstream_error + string"
  hc_referer :: "string \<Rightarrow> string \<Rightarrow> string"

type_synonym contact = "string \<times> (string, string) fmap"

text \<open>\<open>httpClient.Do\<close> on a GET request, with the default redirect policy: redirects are followed, with
  the headers of the first request, until ten requests have been made. The contacts made are part
  of the result.\<close>

definition redirect_status :: "nat \<Rightarrow> bool" where
  "redirect_status code \<longleftrightarrow> code \<in> {301, 302, 303, 307, 308}"

definition location :: "upstream_reply \<Rightarrow> string" where
  "location reply = (case map_of (ur_headers reply) ''Location'' of Some (v # vs) \<Rightarrow> v | _ \<Rightarrow> '''')"

definition with_referer :: "string \<Rightarrow> (string, string) fmap \<Rightarrow> (string, string) fmap" where
  "with_referer ref headers = (if ref = '''' then headers else fmupd ''Referer'' ref headers)"

definition too_many_redirects :: upstream_error where
  "too_many_redirects = \<lparr>ue_connect = False, ue_refused = False, ue_timeout = False, ue_deadline = False\<rparr>"

fun client_Do ::
  "http_client \<Rightarrow> (string, string) fmap \<Rightarrow> nat \<Rightarrow> contact \<Rightarrow> (upstream_error + upstream_reply) \<times> contact list" where
  "client_Do hc headers 0 c = (Inl too_many_redirects, [])"
| "client_Do hc headers (Suc n) (url, hdrs) =
     (case hc_roundTrip hc url hdrs of
        Inl err \<Rightarrow> (Inl err, [(url, hdrs)])
      | Inr reply \<Rightarrow>
          if \<not> redirect_status (ur_status reply) \<or> location reply = '''' then (Inr reply, [(url, hdrs)])
          else (case hc_resolve hc url (location reply) of
              Inl err \<Rightarrow> (Inl err, [(url, hdrs)])
            | Inr next_url \<Rightarrow>
                (case client_Do hc headers n (next_url, with_referer (hc_referer hc url next_url) headers) of
                   (r, cs) \<Rightarrow> (r, (url, hdrs) # cs))))"

text \<open>\<open>proxyToUpstream\<close>: of every response header the first value is kept.\<close>

definition first_values :: "(string \<times> string list) list \<Rightarrow> (string, string) fmap" where
  "first_values hs = foldl (\<lambda>m (k, vs). if vs = [] then m else fmupd k (hd vs) m) fmempty hs"

definition proxyToUpstream ::
  "http_client \<Rightarrow> string \<Rightarrow> (string, string) fmap \<Rightarrow> (upstream_error + lambda_response) \<times> contact list" where
  "proxyToUpstream hc url headers =
     (case hc_newRequest hc url of
        Some err \<Rightarrow> (Inl err, [])
      | None \<Rightarrow>
          (case client_Do hc headers 10 (url, headers) of
             (Inl err, cs) \<Rightarrow> (Inl err, cs)
           | (Inr reply, cs) \<Rightarrow>
               (case ur_body reply of
                  Inl err \<Rightarrow> (Inl err, cs)
                | Inr body \<Rightarrow>
                    (Inr \<lparr>lr_status = ur_status reply, lr_title = '''',
                          lr_headers = first_values (ur_headers reply), lr_body = body\<rparr>, cs))))"

definition lower_headers :: "(nat \<Rightarrow> nat) \<Rightarrow> (string \<times> string) list \<Rightarrow> (string, string) fmap" where
  "lower_headers uc hs = foldl (\<lambda>m (k, v). fmupd (ToLower uc k) v m) fmempty hs"

definition forward_headers :: "(nat \<Rightarrow> nat) \<Rightarrow> string list \<Rightarrow> (string, string) fmap \<Rightarrow> (string, string) fmap" where
  "forward_headers uc names lower =
     foldl (\<lambda>m h. case fmlookup lower (ToLower uc h) of None \<Rightarrow> m | Some v \<Rightarrow> fmupd h v m) fmempty names"

text \<open>Steps 1 to 5 of \<open>handler\<close>: the request to send on, or the page to answer with.\<close>

definition route :: "(nat \<Rightarrow> nat) \<Rightarrow> router \<Rightarrow> alb_request \<Rightarrow> lambda_response + upstream_request" where
  "route uc rt req =
     (case parsePath (al_path req) of
        Inl err \<Rightarrow> Inl (errorPage 400 ''Bad Request'' ''Invalid callback path.'')
      | Inr (x, proto) \<Rightarrow>
          (case validateIP x (rt_vpcCIDR rt) of
             Some err \<Rightarrow> Inl (errorPage 403 ''Forbidden'' ''Invalid target.'')
           | None \<Rightarrow>
               (let state = getz (al_query req) ''state'' in
                if state = '''' then Inl (errorPage 400 ''Bad Request'' ''Missing state parameter.'')
                else Inr \<lparr>up_ip = x, up_port = getz (rt_portMap rt) proto, up_query = QueryEscape state,
                          up_headers = forward_headers uc (rt_oidcHeaders rt) (lower_headers uc (al_headers req))\<rparr>)))"

definition handler_lambda ::
  "(nat \<Rightarrow> nat) \<Rightarrow> http_client \<Rightarrow> router \<Rightarrow> alb_request \<Rightarrow> lambda_response \<times> contact list" where
  "handler_lambda uc hc rt req =
     (case route uc rt req of
        Inl page \<Rightarrow> (page, [])
      | Inr u \<Rightarrow>
          (case proxyToUpstream hc (upstream_url u) (up_headers u) of
             (Inl err, cs) \<Rightarrow> (errorPage 503 ''Service Unavailable'' ''VPN connection is no longer available. Do not refresh this page. Disconnect the VPN client, connect again, and complete authentication using the new link.'', cs)
           | (Inr resp, cs) \<Rightarrow> (resp, cs)))"

section \<open>Texts and values\<close>

lemma nat_digits_canonical:
  assumes "s \<noteq> []" and "list_all is_digit s" and "hd s = CHR ''0'' \<longrightarrow> length s = 1"
  shows "nat_digits (digits_val s) = s"
  using assms
proof (induction s rule: rev_induct)
  case (snoc c t)
  have c: "is_digit c" using snoc.prems(2) by simp
  then have d: "digit_val c < 10" "char_of (48 + digit_val c) = c"
    by (auto simp: is_digit_def digit_val_def byte_def)
  show ?case
  proof (cases "t = []")
    case True
    with d show ?thesis by (simp add: digits_val_def nat_digits.simps)
  next
    case False
    then have h: "hd t \<noteq> CHR ''0''" "list_all is_digit t" using snoc.prems by auto
    with snoc.IH False have t: "nat_digits (digits_val t) = t" by simp
    have "digits_val t \<noteq> 0"
    proof
      assume "digits_val t = 0"
      with t have "t = nat_digits 0" by simp
      moreover have "nat_digits 0 = ''0''" by code_simp
      ultimately show False using h(1) by simp
    qed
    then have "\<not> 10 * digits_val t + digit_val c < 10" by simp
    with t d show ?thesis by (subst nat_digits.simps) (simp add: digits_val_snoc)
  qed
qed simp

lemma parse_octet_text: "parse_octet s = Some b \<Longrightarrow> nat_digits (unat b) = s"
  using nat_digits_canonical [of s] by (auto simp: parse_octet_def unat_of_nat split: if_splits)

lemma join_Split: "join [c] (Split s c) = s"
proof (induction s)
  case (Cons x xs)
  then show ?case
    by (cases "Split xs c"; cases "tl (Split xs c)") (auto simp: Split_ne split: if_splits)
qed simp

lemma ParseIP4_text:
  assumes "ParseIP4 s = Some x"
  shows "ip_string x = s" and "length x = 4"
proof -
  obtain p q r t where split: "Split s (CHR ''.'') = [p, q, r, t]"
    and x: "map Some x = map parse_octet [p, q, r, t]"
    using assms by (auto simp: ParseIP4_def split: list.splits option.splits)
  then obtain a b c d where "x = [a, b, c, d]" "parse_octet p = Some a" "parse_octet q = Some b"
    "parse_octet r = Some c" "parse_octet t = Some d" by auto
  then show "ip_string x = s" "length x = 4"
    using parse_octet_text join_Split [of "CHR ''.''" s] split by (auto simp: ip_string_def)
qed

lemma parsePath_text:
  assumes "parsePath path = Ok (x, proto)"
  shows "path = ''/callback/'' @ ip_string x @ ''/'' @ proto" and "proto \<in> {''udp'', ''tcp''}" and "length x = 4"
proof -
  from assms obtain addr where m: "match_path path = Some (addr, proto)" "ParseIP4 addr = Some x"
    by (auto simp: parsePath_def split: option.splits)
  then have sp: "HasPrefix path ''/callback/''" "Split (TrimPrefix path ''/callback/'') (CHR ''/'') = [addr, proto]"
    and pr: "proto \<in> {''udp'', ''tcp''}"
    by (auto simp: match_path_def simp del: HasPrefix.simps split: if_splits list.splits)
  obtain rest where "path = ''/callback/'' @ rest" using sp(1) unfolding HasPrefix_iff by blast
  moreover from this have "rest = join ''/'' [addr, proto]"
    using sp(2) join_Split [of "CHR ''/''" rest] by (simp add: TrimPrefix_def)
  ultimately show "path = ''/callback/'' @ ip_string x @ ''/'' @ proto" using ParseIP4_text(1) [OF m(2)] by simp
  show "proto \<in> {''udp'', ''tcp''}" by (rule pr)
  show "length x = 4" by (rule ParseIP4_text(2) [OF m(2)])
qed

lemma hex_upper: "n < 16 \<Longrightarrow> unhex (upper_hex n) = Some n"
proof -
  have "list_all (\<lambda>n. unhex (upper_hex n) = Some n) [0..<16]" by code_simp
  then show "n < 16 \<Longrightarrow> unhex (upper_hex n) = Some n" by (simp only: list_all_iff set_upt) simp
qed

lemma QueryUnescape_Escape: "QueryUnescape (QueryEscape s) = Some s"
proof (induction s)
  case (Cons c s)
  have "unreserved c \<Longrightarrow> c \<noteq> CHR ''%'' \<and> c \<noteq> CHR ''+''"
    by (auto simp: unreserved_def is_digit_def byte_def)
  moreover have "char_of (16 * (byte c div 16) + byte c mod 16) = c" "byte c div 16 < 16"
    by (simp_all add: byte_def less_mult_imp_div_less)
  ultimately show ?case using Cons by (auto simp: QueryEscape_def escape_byte_def hex_upper)
qed (simp add: QueryEscape_def)

section \<open>Where requests go\<close>

lemma octet_roundtrip:
  fixes b :: "8 word"
  shows "parse_octet (nat_digits (unat b)) = Some b"
proof -
  have b: "unat b < 256" using unsigned_less [of b] by simp
  then have "length (nat_digits (unat b)) \<le> 3" using nat_digits_length [of "unat b" 2] by simp
  moreover have "unat b = 0" if "hd (nat_digits (unat b)) = CHR ''0''"
    using that nat_digits_zero [of "unat b" "[]"] by (cases "nat_digits (unat b)") (simp_all add: HasPrefix_iff)
  moreover have "nat_digits 0 = ''0''" by code_simp
  ultimately have "hd (nat_digits (unat b)) = CHR ''0'' \<longrightarrow> length (nat_digits (unat b)) = 1"
    and "length (nat_digits (unat b)) \<le> 3" by auto
  then show ?thesis using nat_digits_all [of "unat b"] b by (simp add: parse_octet_def)
qed

lemma octet_chars:
  fixes b :: "8 word"
  shows "octet_text (nat_digits (unat b))" and "CHR ''.'' \<notin> set (nat_digits (unat b))" and "CHR ''/'' \<notin> set (nat_digits (unat b))"
proof -
  have "\<not> is_digit (CHR ''.'')" "\<not> is_digit (CHR ''/'')" by (simp_all add: is_digit_def byte_def)
  with nat_digits_all [of "unat b"] show "CHR ''.'' \<notin> set (nat_digits (unat b))" "CHR ''/'' \<notin> set (nat_digits (unat b))"
    by (auto simp: list_all_iff)
  show "octet_text (nat_digits (unat b))"
    using octet_roundtrip [of b] by (auto simp: parse_octet_def octet_text_def split: if_splits)
qed

lemma parsePath_complete:
  assumes "length x = 4" and "proto \<in> {''udp'', ''tcp''}"
  shows "parsePath (''/callback/'' @ ip_string x @ ''/'' @ proto) = Ok (x, proto)"
proof -
  let ?ds = "map (\<lambda>b. nat_digits (unat b)) x"
  have ne: "?ds \<noteq> []" using assms(1) by auto
  have sd: "Split (ip_string x) (CHR ''.'') = ?ds"
    unfolding ip_string_def using ne octet_chars(2) by (intro Split_join) auto
  have "CHR ''/'' \<notin> set (join ''.'' ds)" if "\<And>d. d \<in> set ds \<Longrightarrow> CHR ''/'' \<notin> set d" for ds
    using that by (induction ds rule: induct_list012) auto
  from this [of ?ds] have "CHR ''/'' \<notin> set (ip_string x)" unfolding ip_string_def using octet_chars(3) by auto
  moreover have "CHR ''/'' \<notin> set proto" using assms(2) by auto
  ultimately have "Split (join ''/'' [ip_string x, proto]) (CHR ''/'') = [ip_string x, proto]"
    by (intro Split_join) auto
  moreover have "list_all octet_text ?ds" using octet_chars(1) by (simp add: list_all_iff)
  moreover have "TrimPrefix (''/callback/'' @ join ''/'' [ip_string x, proto]) ''/callback/'' = join ''/'' [ip_string x, proto]"
    "HasPrefix (''/callback/'' @ join ''/'' [ip_string x, proto]) ''/callback/''"
    by (simp_all only: TrimPrefix_append HasPrefix_append)
  ultimately have "match_path (''/callback/'' @ join ''/'' [ip_string x, proto]) = Some (ip_string x, proto)"
    using assms sd unfolding match_path_def by (simp del: HasPrefix.simps)
  moreover obtain a b c d where "x = [a, b, c, d]" using assms(1) by (auto simp: numeral_eq_Suc length_Suc_conv)
  with sd have "ParseIP4 (ip_string x) = Some x" unfolding ParseIP4_def by (simp only: list.map octet_roundtrip list.case option.case)
  ultimately show ?thesis by (simp add: parsePath_def)
qed

lemma lower_headers_lookup:
  "fmlookup (lower_headers uc hs) k = map_of (rev (map (\<lambda>(a, v). (ToLower uc a, v)) hs)) k"
  by (induction hs rule: rev_induct) (auto simp: lower_headers_def)

lemma forward_headers_lookup:
  "fmlookup (forward_headers uc names lower) h = (if h \<in> set names then fmlookup lower (ToLower uc h) else None)"
  by (induction names rule: rev_induct) (auto simp: forward_headers_def split: option.splits)

text \<open>The headers a request carries on: those that are configured and present, up to case, each with
  a value the request has for it.\<close>

definition passes_on :: "(nat \<Rightarrow> nat) \<Rightarrow> router \<Rightarrow> alb_request \<Rightarrow> (string, string) fmap \<Rightarrow> bool" where
  "passes_on uc rt req hdrs \<longleftrightarrow>
     fset (fmdom hdrs) = {h \<in> set (rt_oidcHeaders rt). \<exists>k v. (k, v) \<in> set (al_headers req) \<and> ToLower uc k = ToLower uc h} \<and>
     (\<forall>h v. fmlookup hdrs h = Some v \<longrightarrow> (\<exists>k. (k, v) \<in> set (al_headers req) \<and> ToLower uc k = ToLower uc h))"

lemma forwarded_pass_on:
  "passes_on uc rt req (forward_headers uc (rt_oidcHeaders rt) (lower_headers uc (al_headers req)))"
proof -
  let ?m = "map_of (rev (map (\<lambda>(a, v). (ToLower uc a, v)) (al_headers req)))"
  have dom: "?m k \<noteq> None \<longleftrightarrow> (\<exists>a v. (a, v) \<in> set (al_headers req) \<and> ToLower uc a = k)" for k
    by (auto simp: map_of_eq_None_iff image_iff) force+
  have val: "\<exists>a. (a, v) \<in> set (al_headers req) \<and> ToLower uc a = k" if "?m k = Some v" for k v
    using map_of_SomeD [OF that] by auto
  show ?thesis
    unfolding passes_on_def
  proof (intro conjI set_eqI allI impI)
    show "h \<in> fset (fmdom (forward_headers uc (rt_oidcHeaders rt) (lower_headers uc (al_headers req)))) \<longleftrightarrow>
        h \<in> {h \<in> set (rt_oidcHeaders rt). \<exists>k v. (k, v) \<in> set (al_headers req) \<and> ToLower uc k = ToLower uc h}" for h
      using dom [of "ToLower uc h"] by (simp add: fmlookup_dom_iff forward_headers_lookup lower_headers_lookup)
  qed (use val in \<open>auto simp: forward_headers_lookup lower_headers_lookup split: if_splits\<close>)
qed

text \<open>A contact follows another when the answer to the first is a redirect to it.\<close>

definition redirected :: "http_client \<Rightarrow> contact \<Rightarrow> contact \<Rightarrow> bool" where
  "redirected hc c c' \<longleftrightarrow>
     (case hc_roundTrip hc (fst c) (snd c) of
        Inl err \<Rightarrow> False
      | Inr reply \<Rightarrow> redirect_status (ur_status reply) \<and> location reply \<noteq> '''' \<and>
          hc_resolve hc (fst c) (location reply) = Inr (fst c'))"

lemma client_Do_contacts:
  "client_Do hc headers n c = (r, cs) \<Longrightarrow>
     (n = 0 \<or> cs \<noteq> [] \<and> hd cs = c) \<and> successively (redirected hc) cs \<and> length cs \<le> n \<and>
     (\<forall>reply. r = Inr reply \<longrightarrow> cs \<noteq> [] \<and> hc_roundTrip hc (fst (last cs)) (snd (last cs)) = Inr reply)"
proof (induction hc headers n c arbitrary: r cs rule: client_Do.induct)
  case (2 hc headers n url hdrs)
  show ?case
  proof (cases "\<exists>reply u. hc_roundTrip hc url hdrs = Inr reply \<and> redirect_status (ur_status reply) \<and>
      location reply \<noteq> '''' \<and> hc_resolve hc url (location reply) = Inr u")
    case True
    then obtain reply u where t: "hc_roundTrip hc url hdrs = Inr reply" "redirect_status (ur_status reply)"
      "location reply \<noteq> ''''" "hc_resolve hc url (location reply) = Inr u" by blast
    let ?c = "(u, with_referer (hc_referer hc url u) headers)"
    obtain cs' where d: "client_Do hc headers n ?c = (r, cs')" "cs = (url, hdrs) # cs'"
      using "2.prems" t by (auto split: prod.splits)
    from 2(1) [OF t(1) _ t(4) d(1)] t have ih: "(n = 0 \<or> cs' \<noteq> [] \<and> hd cs' = ?c) \<and> successively (redirected hc) cs' \<and>
      length cs' \<le> n \<and> (\<forall>reply. r = Inr reply \<longrightarrow> cs' \<noteq> [] \<and> hc_roundTrip hc (fst (last cs')) (snd (last cs')) = Inr reply)"
      by blast
    have "redirected hc (url, hdrs) ?c" using t by (simp add: redirected_def)
    with ih d(2) show ?thesis by (cases cs') auto
  next
    case False
    then have "cs = [(url, hdrs)]" "\<And>reply. r = Inr reply \<Longrightarrow> hc_roundTrip hc url hdrs = Inr reply"
      using "2.prems" by (auto split: sum.splits if_splits prod.splits)
    then show ?thesis by auto
  qed
qed simp

text \<open>The path names an address of the VPC, in its canonical form, and a protocol.\<close>

definition names_server :: "router \<Rightarrow> alb_request \<Rightarrow> ip \<Rightarrow> string \<Rightarrow> bool" where
  "names_server rt req x proto \<longleftrightarrow>
     al_path req = ''/callback/'' @ ip_string x @ ''/'' @ proto \<and> length x = 4 \<and> proto \<in> {''udp'', ''tcp''} \<and>
     Contains_ip (rt_vpcCIDR rt) x"

lemma route_accepts:
  assumes "route uc rt req = Inr u"
  shows "\<exists>x proto. names_server rt req x proto \<and> getz (al_query req) ''state'' \<noteq> '''' \<and>
    upstream_url u = ''http://'' @ ip_string x @ '':'' @ getz (rt_portMap rt) proto @ ''/callback/?state='' @ up_query u \<and>
    QueryUnescape (up_query u) = Some (getz (al_query req) ''state'') \<and> passes_on uc rt req (up_headers u)"
proof -
  from assms obtain x proto where p: "parsePath (al_path req) = Ok (x, proto)" "validateIP x (rt_vpcCIDR rt) = None"
    "getz (al_query req) ''state'' \<noteq> ''''"
    and u: "u = \<lparr>up_ip = x, up_port = getz (rt_portMap rt) proto, up_query = QueryEscape (getz (al_query req) ''state''),
      up_headers = forward_headers uc (rt_oidcHeaders rt) (lower_headers uc (al_headers req))\<rparr>"
    by (auto simp: route_def Let_def split: sum.splits option.splits if_splits)
  have "Contains_ip (rt_vpcCIDR rt) x" using p(2) by (simp add: validateIP_def split: if_splits)
  then show ?thesis
    using parsePath_text [OF p(1)] p(3) QueryUnescape_Escape forwarded_pass_on u
    by (intro exI [of _ x] exI [of _ proto]) (simp add: upstream_url_def names_server_def)
qed

lemma route_refuses:
  assumes "route uc rt req = Inl page"
  shows "lr_status page \<in> {400, 403}"
    and "\<not> ((\<exists>x proto. names_server rt req x proto) \<and> getz (al_query req) ''state'' \<noteq> '''')"
proof -
  show "lr_status page \<in> {400, 403}"
    using assms by (auto simp: route_def errorPage_def Let_def split: sum.splits option.splits if_splits)
  show "\<not> ((\<exists>x proto. names_server rt req x proto) \<and> getz (al_query req) ''state'' \<noteq> '''')"
  proof (rule notI, elim conjE exE)
    fix x proto
    assume a: "names_server rt req x proto" "getz (al_query req) ''state'' \<noteq> ''''"
    then have "parsePath (al_path req) = Ok (x, proto)"
      using parsePath_complete [of x proto] by (simp add: names_server_def)
    with a assms show False by (simp add: route_def validateIP_def names_server_def Let_def)
  qed
qed

lemma forwarded_contacts:
  assumes "route uc rt req = Inr u" and "handler_lambda uc hc rt req = (resp, contacts)"
  shows "if hc_newRequest hc (upstream_url u) = None
    then contacts \<noteq> [] \<and> hd contacts = (upstream_url u, up_headers u) \<and> successively (redirected hc) contacts \<and>
      length contacts \<le> 10 \<and>
      (lr_status resp = 503 \<or>
       (\<exists>reply. hc_roundTrip hc (fst (last contacts)) (snd (last contacts)) = Inr reply \<and>
          lr_status resp = ur_status reply \<and> ur_body reply = Inr (lr_body resp)))
    else contacts = [] \<and> lr_status resp = 503"
proof (cases "hc_newRequest hc (upstream_url u)")
  case None
  obtain r cs where d: "client_Do hc (up_headers u) 10 (upstream_url u, up_headers u) = (r, cs)"
    by (cases "client_Do hc (up_headers u) 10 (upstream_url u, up_headers u)")
  have "cs = contacts" "lr_status resp = 503 \<or> (\<exists>reply. r = Inr reply \<and> lr_status resp = ur_status reply \<and> ur_body reply = Inr (lr_body resp))"
    using assms None d
    by (auto simp: handler_lambda_def proxyToUpstream_def errorPage_def split: sum.splits prod.splits)
  with client_Do_contacts [OF d] None show ?thesis by auto
next
  case (Some err)
  with assms show ?thesis by (auto simp: handler_lambda_def proxyToUpstream_def errorPage_def)
qed


text \<open>
  The address check bounds the first contact only. When the contacted server answers with a redirect
  to any URL, that URL is requested next, whatever its host, with the same token headers and with
  the referer that \<open>net/http\<close> derives from the first URL, which holds the state.
\<close>

theorem redirect_carries_token:
  assumes "route uc rt req = Inr u" and "hc_newRequest hc (upstream_url u) = None"
    and "hc_roundTrip hc (upstream_url u) (up_headers u) = Inr reply" and "redirect_status (ur_status reply)"
    and "location reply \<noteq> ''''" and "hc_resolve hc (upstream_url u) (location reply) = Inr elsewhere"
  shows "\<exists>rest. snd (handler_lambda uc hc rt req) =
    (upstream_url u, up_headers u) #
    (elsewhere, with_referer (hc_referer hc (upstream_url u) elsewhere) (up_headers u)) # rest"
proof -
  let ?c = "(elsewhere, with_referer (hc_referer hc (upstream_url u) elsewhere) (up_headers u))"
  obtain r cs where d: "client_Do hc (up_headers u) 9 ?c = (r, cs)" by (cases "client_Do hc (up_headers u) 9 ?c")
  then have "client_Do hc (up_headers u) (Suc 9) (upstream_url u, up_headers u) = (r, (upstream_url u, up_headers u) # cs)"
    using assms(3-6) by (simp only: client_Do.simps sum.case prod.case simp_thms if_False)
  moreover have "cs \<noteq> [] \<and> hd cs = ?c" using client_Do_contacts [OF d] by simp
  ultimately show ?thesis
    using assms(1,2) by (cases cs) (auto simp: handler_lambda_def proxyToUpstream_def split: sum.splits)
qed

lemma check_headers_ok:
  "check_headers uc seen hs = Ok out \<Longrightarrow>
     set out \<subseteq> set allowedOIDCHeaders \<and> distinct out \<and> set out \<inter> set seen = {}"
proof (induction hs arbitrary: seen out)
  case (Cons h hs)
  then obtain rest where "check_headers uc (ToLower uc h # seen) hs = Ok rest" "out = ToLower uc h # rest"
    "ToLower uc h \<in> set allowedOIDCHeaders" "ToLower uc h \<notin> set seen"
    by (auto simp: Let_def split: if_splits sum.splits)
  with Cons.IH [OF this(1)] show ?case by auto
qed simp

text \<open>
  A configured router has sane settings: whatever the environment, if the router starts, the
  connect timeout is positive and smaller than the request timeout, both protocols have a port,
  and the headers it forwards are distinct, known, and include the token the daemon needs.
\<close>

theorem configured_router_ok:
  assumes "configure uc levelOk parseCIDR parseDuration env = Ok rt"
  shows "0 < rt_connectTimeout rt \<and> rt_connectTimeout rt < rt_timeout rt \<and>
    getz (rt_portMap rt) ''udp'' \<noteq> '''' \<and> getz (rt_portMap rt) ''tcp'' \<noteq> '''' \<and>
    distinct (rt_oidcHeaders rt) \<and> set (rt_oidcHeaders rt) \<subseteq> set allowedOIDCHeaders \<and>
    ''x-amzn-oidc-data'' \<in> set (rt_oidcHeaders rt)"
proof -
  from assms obtain raw hs where h: "parseOIDCHeaders uc raw = Ok hs" "rt_oidcHeaders rt = hs"
    and t: "0 < rt_connectTimeout rt" "rt_connectTimeout rt < rt_timeout rt"
    and p: "rt_portMap rt = fmap_of_list [(''udp'', env_or env ''DAEMON_PORT_UDP'' ''8080''),
      (''tcp'', env_or env ''DAEMON_PORT_TCP'' ''8081'')]"
    by (auto simp: configure_def split: if_splits option.splits sum.splits)
  from h obtain raws where "check_headers uc [] raws = Ok hs" "''x-amzn-oidc-data'' \<in> set hs"
    by (auto simp: parseOIDCHeaders_def split: option.splits sum.splits if_splits)
  with check_headers_ok h(2) t p show ?thesis by (auto simp: getz_def env_or_def Let_def)
qed

theorem configured_router_ok_witness:
  "\<exists>rt. configure id (\<lambda>_. True) (\<lambda>_. Some \<lparr>in_ip = [10, 0, 0, 0], in_mask = [255, 0, 0, 0]\<rparr>)
       (\<lambda>s. if s = ''10s'' then Some (10 * time_second) else Some (3 * time_second))
       (fmap_of_list [(''VPC_CIDR'', ''10.0.0.0/8'')]) = Ok rt \<and>
     rt_connectTimeout rt < rt_timeout rt \<and> ''x-amzn-oidc-data'' \<in> set (rt_oidcHeaders rt)"
proof -
  have "parseOIDCHeaders id (''['' @ json_quote ''x-amzn-oidc-data'' @ '']'') = Ok [''x-amzn-oidc-data'']"
    by code_simp
  then have "\<exists>rt. configure id (\<lambda>_. True) (\<lambda>_. Some \<lparr>in_ip = [10, 0, 0, 0], in_mask = [255, 0, 0, 0]\<rparr>)
       (\<lambda>s. if s = ''10s'' then Some (10 * time_second) else Some (3 * time_second))
       (fmap_of_list [(''VPC_CIDR'', ''10.0.0.0/8'')]) = Ok rt"
    by (simp add: configure_def env_or_def getz_def Let_def time_second_def)
  with configured_router_ok show ?thesis by blast
qed

end
