(* ===== verification/GoFlags.thy ===== *)
theory GoFlags
  imports GoStrings
begin

text \<open>
  The parts of the standard library that read settings: \<open>time.ParseDuration\<close> with its
  floating-point fractions, \<open>strconv.ParseInt\<close> in base 0, \<open>strconv.ParseBool\<close>, the \<open>%d\<close> verb of
  \<open>fmt.Sscanf\<close>, and the command-line scanner of the \<open>flag\<close> package.
\<close>

section \<open>Floating point\<close>

text \<open>The nearest \<open>float64\<close> of a positive fraction, ties to even, as a fraction again. The exponents
  that occur are far from the ends of the range.\<close>

fun bit_length :: "nat \<Rightarrow> nat" where
  "bit_length n = (if n = 0 then 0 else Suc (bit_length (n div 2)))"

declare bit_length.simps [simp del]

definition round_even :: "nat \<Rightarrow> nat \<Rightarrow> nat" where
  "round_even n d =
     (let q = n div d; r = n mod d in
      if 2 * r < d \<or> (2 * r = d \<and> even q) then q else Suc q)"

definition float64 :: "nat \<Rightarrow> nat \<Rightarrow> nat \<times> nat" where
  "float64 n d =
     (if n = 0 then (0, 1)
      else
        (let e = int (bit_length n) - int (bit_length d) - 53;
             (n1, d1) = (if 0 \<le> e then (n, d * 2 ^ nat e) else (n * 2 ^ nat (- e), d));
             (e2, d2) = (if 2 ^ 53 * d1 \<le> n1 then (e + 1, 2 * d1) else (e, d1));
             m = round_even n1 d2
         in if 0 \<le> e2 then (m * 2 ^ nat e2, 1) else (m, 2 ^ nat (- e2))))"

text \<open>\<open>uint64(float64(f) * (float64(unit) / scale))\<close>.\<close>

definition fraction_units :: "nat \<Rightarrow> nat \<Rightarrow> nat \<Rightarrow> nat" where
  "fraction_units f unit scale =
     (let (fn, fd) = float64 f 1;
          (qn, qd) = float64 unit scale;
          (pn, pd) = float64 (fn * qn) (fd * qd)
      in pn div pd)"

section \<open>Durations\<close>

definition duration_units :: "(string \<times> nat) list" where
  "duration_units =
     [(''ns'', 1), (''us'', 10 ^ 3), ([CHR 0xC2, CHR 0xB5, CHR ''s''], 10 ^ 3),
      ([CHR 0xCE, CHR 0xBC, CHR ''s''], 10 ^ 3), (''ms'', 10 ^ 6), (''s'', 10 ^ 9),
      (''m'', 60 * 10 ^ 9), (''h'', 3600 * 10 ^ 9)]"

fun leadingInt :: "nat \<Rightarrow> string \<Rightarrow> (nat \<times> string) option" where
  "leadingInt x [] = Some (x, [])"
| "leadingInt x (c # s) =
     (if \<not> is_digit c then Some (x, c # s)
      else if 2 ^ 63 div 10 < x then None
      else let y = 10 * x + digit_val c in if 2 ^ 63 < y then None else leadingInt y s)"

fun leadingFraction :: "nat \<Rightarrow> nat \<Rightarrow> bool \<Rightarrow> string \<Rightarrow> nat \<times> nat \<times> string" where
  "leadingFraction x scale overflow [] = (x, scale, [])"
| "leadingFraction x scale overflow (c # s) =
     (if \<not> is_digit c then (x, scale, c # s)
      else if overflow \<or> (2 ^ 63 - 1) div 10 < x then leadingFraction x scale True s
      else let y = 10 * x + digit_val c in
           if 2 ^ 63 < y then leadingFraction x scale True s
           else leadingFraction y (scale * 10) False s)"

datatype duration_error = InvalidDurationText | MissingUnit | UnknownUnit string

definition is_numeric :: "char \<Rightarrow> bool" where
  "is_numeric c \<longleftrightarrow> c = CHR ''.'' \<or> is_digit c"

text \<open>The digits before and after the period, the scale of the latter, and the text after them.\<close>

definition duration_number :: "string \<Rightarrow> (nat \<times> nat \<times> nat \<times> string) option" where
  "duration_number s =
     (case leadingInt 0 s of
        None \<Rightarrow> None
      | Some (v, s1) \<Rightarrow>
          (let pre = (length s \<noteq> length s1) in
           if HasPrefix s1 ''.'' then
             (let (f, scale, s2) = leadingFraction 0 1 False (drop 1 s1);
                  post = (length (drop 1 s1) \<noteq> length s2)
              in if \<not> pre \<and> \<not> post then None else Some (v, f, scale, s2))
           else if \<not> pre then None else Some (v, 0, 1, s1)))"

text \<open>One number with its unit: its nanoseconds and the text after it.\<close>

definition duration_part :: "string \<Rightarrow> duration_error + nat \<times> string" where
  "duration_part s =
     (if s = [] \<or> \<not> is_numeric (hd s) then Inl InvalidDurationText
      else (case duration_number s of
          None \<Rightarrow> Inl InvalidDurationText
        | Some (v, f, scale, s2) \<Rightarrow>
            (let u = takeWhile (\<lambda>c. \<not> is_numeric c) s2; rest = dropWhile (\<lambda>c. \<not> is_numeric c) s2 in
             if u = [] then Inl MissingUnit
             else (case map_of duration_units u of
                 None \<Rightarrow> Inl (UnknownUnit u)
               | Some unit \<Rightarrow>
                   if 2 ^ 63 div unit < v then Inl InvalidDurationText
                   else (let w = v * unit + (if 0 < f then fraction_units f unit scale else 0) in
                     if 2 ^ 63 < w then Inl InvalidDurationText else Inr (w, rest))))))"

lemma leadingInt_length: "leadingInt x s = Some (v, t) \<Longrightarrow> length t \<le> length s"
  by (induction x s rule: leadingInt.induct) (auto simp: Let_def split: if_splits)

lemma leadingFraction_length: "leadingFraction x sc ov s = (f, sc', t) \<Longrightarrow> length t \<le> length s"
  by (induction x sc ov s rule: leadingFraction.induct) (auto simp: Let_def split: if_splits)

lemma duration_number_length: "duration_number s = Some (v, f, sc, t) \<Longrightarrow> length t \<le> length s"
  by (fastforce simp: duration_number_def Let_def dest!: leadingInt_length leadingFraction_length
      split: option.splits if_splits prod.splits)

lemma duration_part_shorter:
  assumes "duration_part s = Inr (w, rest)"
  shows "length rest < length s"
proof -
  obtain v f sc t where n: "duration_number s = Some (v, f, sc, t)"
    and r: "rest = dropWhile (\<lambda>c. \<not> is_numeric c) t" "takeWhile (\<lambda>c. \<not> is_numeric c) t \<noteq> []"
    using assms by (auto simp: duration_part_def Let_def split: option.splits if_splits)
  have "length t = length (takeWhile (\<lambda>c. \<not> is_numeric c) t) + length rest"
    unfolding r(1) by (metis length_append takeWhile_dropWhile_id)
  then show ?thesis using r(2) duration_number_length [OF n] by (cases "takeWhile (\<lambda>c. \<not> is_numeric c) t") auto
qed

text \<open>The loop over the parts; the sum is an unsigned 64-bit integer.\<close>

function duration_parts :: "nat \<Rightarrow> string \<Rightarrow> duration_error + nat" where
  "duration_parts d s =
     (if s = [] then Inr d
      else (case duration_part s of
          Inl err \<Rightarrow> Inl err
        | Inr (v, rest) \<Rightarrow>
            (let d' = (d + v) mod 2 ^ 64 in
             if 2 ^ 63 < d' then Inl InvalidDurationText else duration_parts d' rest)))"
  by pat_completeness auto
termination
  by (relation "measure (length \<circ> snd)") (auto dest: duration_part_shorter)

declare duration_parts.simps [simp del]

definition ParseDuration :: "string \<Rightarrow> duration_error + duration" where
  "ParseDuration s =
     (let neg = HasPrefix s ''-'';
          t = (if neg \<or> HasPrefix s ''+'' then drop 1 s else s)
      in if t = ''0'' then Inr 0
         else if t = [] then Inl InvalidDurationText
         else (case duration_parts 0 t of
             Inl err \<Rightarrow> Inl err
           | Inr d \<Rightarrow>
               if neg then Inr (i64 (- i64 (int d)))
               else if 2 ^ 63 - 1 < d then Inl InvalidDurationText else Inr (int d)))"

section \<open>Integers and booleans\<close>

definition lower_digit :: "char \<Rightarrow> nat option" where
  "lower_digit c =
     (if is_digit c then Some (byte c - 48)
      else if 97 \<le> lower_byte (byte c) \<and> lower_byte (byte c) \<le> 122 then Some (lower_byte (byte c) - 87)
      else None)"

text \<open>\<open>underscoreOK\<close>: what has been seen last is \<open>^\<close> at the start, \<open>0\<close> a digit, \<open>_\<close> an underscore or
  \<open>!\<close> anything else.\<close>

fun underscores_ok :: "bool \<Rightarrow> char \<Rightarrow> string \<Rightarrow> bool" where
  "underscores_ok hex saw [] = (saw \<noteq> CHR ''_'')"
| "underscores_ok hex saw (c # s) =
     (if is_digit c \<or> (hex \<and> 97 \<le> lower_byte (byte c) \<and> lower_byte (byte c) \<le> 102)
      then underscores_ok hex (CHR ''0'') s
      else if c = CHR ''_'' then saw = CHR ''0'' \<and> underscores_ok hex (CHR ''_'') s
      else saw \<noteq> CHR ''_'' \<and> underscores_ok hex (CHR ''!'') s)"

definition base_prefix :: "string \<Rightarrow> nat option" where
  "base_prefix s =
     (if 2 \<le> length s \<and> s ! 0 = CHR ''0'' then
        map_of [(98, 2), (111, 8), (120, 16)] (lower_byte (byte (s ! 1)))
      else None)"

definition underscoreOK :: "string \<Rightarrow> bool" where
  "underscoreOK s =
     (let t = (if HasPrefix s ''-'' \<or> HasPrefix s ''+'' then drop 1 s else s) in
      case base_prefix t of
        Some b \<Rightarrow> underscores_ok (b = 16) (CHR ''0'') (drop 2 t)
      | None \<Rightarrow> underscores_ok False (CHR ''^'') t)"

fun base_digits :: "nat \<Rightarrow> nat \<Rightarrow> string \<Rightarrow> nat option" where
  "base_digits b n [] = Some n"
| "base_digits b n (c # s) =
     (if c = CHR ''_'' then base_digits b n s
      else (case lower_digit c of
          None \<Rightarrow> None
        | Some d \<Rightarrow> if b \<le> d \<or> 2 ^ 64 \<le> b * n + d then None else base_digits b (b * n + d) s))"

definition ParseUint0 :: "string \<Rightarrow> nat option" where
  "ParseUint0 s =
     (if s = [] then None
      else
        (let (b, t) = (case base_prefix s of
               Some b \<Rightarrow> if 3 \<le> length s then (b, drop 2 s) else (8, drop 1 s)
             | None \<Rightarrow> if s ! 0 = CHR ''0'' then (8, drop 1 s) else (10, s))
         in (case base_digits b 0 t of
               None \<Rightarrow> None
             | Some n \<Rightarrow> if CHR ''_'' \<in> set t \<and> \<not> underscoreOK s then None else Some n)))"

text \<open>\<open>strconv.ParseInt(s, 0, 64)\<close>.\<close>

definition ParseInt0 :: "string \<Rightarrow> int option" where
  "ParseInt0 s =
     (let neg = HasPrefix s ''-'';
          t = (if neg \<or> HasPrefix s ''+'' then drop 1 s else s)
      in case ParseUint0 t of
           None \<Rightarrow> None
         | Some n \<Rightarrow> let i = (if neg then - int n else int n) in if in_i64 i then Some i else None)"

definition ParseBool :: "string \<Rightarrow> bool option" where
  "ParseBool s =
     (if s \<in> set [''1'', ''t'', ''T'', ''true'', ''TRUE'', ''True''] then Some True
      else if s \<in> set [''0'', ''f'', ''F'', ''false'', ''FALSE'', ''False''] then Some False
      else None)"

text \<open>\<open>fmt.Sscanf(v, "%d", &n)\<close> on text without leading space: an optional sign and the digits after it
  are read, and whatever follows them is left.\<close>

definition Sscanf_d :: "string \<Rightarrow> int option" where
  "Sscanf_d v =
     (let sgn = (if HasPrefix v ''-'' \<or> HasPrefix v ''+'' then take 1 v else []);
          ds = takeWhile is_digit (drop (length sgn) v)
      in if ds = [] then None else ParseInt (sgn @ ds))"

section \<open>Command-line flags\<close>

text \<open>A declared flag with the assignment to its variable, on a state of settings.\<close>

datatype 'c flag_value =
    StringFlag "string \<Rightarrow> 'c \<Rightarrow> 'c"
  | BoolFlag "bool \<Rightarrow> 'c \<Rightarrow> 'c"
  | DurationFlag "duration \<Rightarrow> 'c \<Rightarrow> 'c"
  | IntFlag "int \<Rightarrow> 'c \<Rightarrow> 'c"

datatype flag_error =
    BadFlagSyntax string
  | UndefinedFlag string
  | HelpRequested
  | InvalidFlagValue string string
  | FlagNeedsArgument string

fun set_flag :: "'c flag_value \<Rightarrow> string \<Rightarrow> 'c \<Rightarrow> 'c option" where
  "set_flag (StringFlag f) v c = Some (f v c)"
| "set_flag (BoolFlag f) v c = map_option (\<lambda>b. f b c) (ParseBool v)"
| "set_flag (DurationFlag f) v c = (case ParseDuration v of Inl _ \<Rightarrow> None | Inr d \<Rightarrow> Some (f d c))"
| "set_flag (IntFlag f) v c = map_option (\<lambda>i. f i c) (ParseInt0 v)"

fun is_bool_flag :: "'c flag_value \<Rightarrow> bool" where
  "is_bool_flag (BoolFlag _) = True"
| "is_bool_flag _ = False"

text \<open>The name and the value of \<open>name=value\<close>; the equals sign cannot be first.\<close>

definition cut_flag :: "string \<Rightarrow> string \<times> string option" where
  "cut_flag name =
     (case IndexByte (drop 1 name) (CHR ''='') of
        None \<Rightarrow> (name, None)
      | Some i \<Rightarrow> (take (Suc i) name, Some (drop (Suc (Suc i)) name)))"

text \<open>\<open>flag.Parse\<close>: flags are taken until an argument that is not one, or \<open>--\<close>.\<close>

function parse_args ::
  "(string \<times> 'c flag_value) list \<Rightarrow> string list \<Rightarrow> 'c \<Rightarrow> flag_error + 'c" where
  "parse_args formal [] c = Inr c"
| "parse_args formal (s # args) c =
     (if length s < 2 \<or> s ! 0 \<noteq> CHR ''-'' then Inr c
      else if s = ''--'' then Inr c
      else
        (let arg = drop (if s ! 1 = CHR ''-'' then 2 else 1) s in
         if arg = [] \<or> hd arg = CHR ''-'' \<or> hd arg = CHR ''='' then Inl (BadFlagSyntax s)
         else
           (case cut_flag arg of (name, val) \<Rightarrow>
              (case map_of formal name of
                 None \<Rightarrow> if name = ''help'' \<or> name = ''h'' then Inl HelpRequested else Inl (UndefinedFlag name)
               | Some fl \<Rightarrow>
                   (case val of
                      Some v \<Rightarrow>
                        (case set_flag fl v c of
                           None \<Rightarrow> Inl (InvalidFlagValue name v)
                         | Some c' \<Rightarrow> parse_args formal args c')
                    | None \<Rightarrow>
                        if is_bool_flag fl then
                          (case set_flag fl ''true'' c of
                             None \<Rightarrow> Inl (InvalidFlagValue name ''true'')
                           | Some c' \<Rightarrow> parse_args formal args c')
                        else
                          (case args of
                             [] \<Rightarrow> Inl (FlagNeedsArgument name)
                           | v # rest \<Rightarrow>
                               (case set_flag fl v c of
                                  None \<Rightarrow> Inl (InvalidFlagValue name v)
                                | Some c' \<Rightarrow> parse_args formal rest c')))))))"
  by pat_completeness auto
termination
  by (relation "measure (\<lambda>(formal, args, c). length args)") auto

section \<open>Durations that are written in whole units\<close>

lemma leadingInt_digits:
  assumes "list_all is_digit ds" and "foldl (\<lambda>n c. 10 * n + digit_val c) x ds \<le> 2 ^ 63"
    and "u = [] \<or> \<not> is_digit (hd u)"
  shows "leadingInt x (ds @ u) = Some (foldl (\<lambda>n c. 10 * n + digit_val c) x ds, u)"
  using assms(1,2)
proof (induction ds arbitrary: x)
  case Nil
  then show ?case using assms(3) by (cases u) auto
next
  case (Cons c ds)
  have mono: "x \<le> foldl (\<lambda>n c. 10 * n + digit_val c) x es" for x :: nat and es
  proof (induction es arbitrary: x)
    case (Cons e es)
    show ?case using Cons [of "10 * x + digit_val e"] by simp
  qed simp
  let ?y = "10 * x + digit_val c"
  have y: "?y \<le> 2 ^ 63" using Cons.prems(2) mono [of ?y ds] by simp
  then have "\<not> 2 ^ 63 div 10 < x" by simp
  with y Cons show ?case by simp
qed

lemma duration_whole:
  assumes "map_of duration_units u = Some unit" and "n * unit < 2 ^ 63"
  shows "ParseDuration (nat_digits n @ u) = Inr (int (n * unit))"
proof -
  have u: "u \<noteq> []" "list_all (\<lambda>c. \<not> is_numeric c) u" "0 < unit"
    using assms(1)
    by (auto simp: duration_units_def is_numeric_def is_digit_def byte_def split: if_splits)
  let ?s = "nat_digits n @ u"
  have d: "list_all is_digit (nat_digits n)" by (rule nat_digits_all)
  have fold: "foldl (\<lambda>n c. 10 * n + digit_val c) 0 (nat_digits n) = n"
    using digits_val_nat_digits [of n] by (simp add: digits_val_def)
  have "n \<le> n * unit" using u(3) by (cases unit) simp_all
  then have n63: "n \<le> 2 ^ 63" using assms(2) by linarith
  have li: "leadingInt 0 ?s = Some (n, u)"
    using leadingInt_digits [OF d, of 0 u] fold n63 u(1,2) by (cases u) (simp_all add: is_numeric_def)
  obtain c r where "nat_digits n = c # r" "is_digit c" using d by (cases "nat_digits n") auto
  then have sg: "\<not> HasPrefix ?s ''-''" "\<not> HasPrefix ?s ''+''" "is_numeric (hd ?s)" "?s \<noteq> []"
    using not_digit_sign by (auto simp: is_numeric_def)
  have s0: "?s \<noteq> ''0''" using u(1) by (cases "nat_digits n"; cases u) auto
  have tw: "takeWhile (\<lambda>c. \<not> is_numeric c) u = u" "dropWhile (\<lambda>c. \<not> is_numeric c) u = []"
    using u(2) by (simp_all add: list_all_iff)
  have "duration_number ?s = Some (n, 0, 1, u)"
    using li u(1,2) by (cases u) (auto simp: duration_number_def is_numeric_def)
  moreover have "\<not> 2 ^ 63 div unit < n" "\<not> 2 ^ 63 < n * unit"
    using less_eq_div_iff_mult_less_eq [OF u(3)] assms(2) by (simp_all only: not_less less_imp_le)
  ultimately have "duration_part ?s = Inr (n * unit, [])"
    using sg u(1) tw assms(1)
    by (simp only: duration_part_def Let_def option.case prod.case if_False less_irrefl add_0_right simp_thms)
  then have "duration_parts 0 ?s = Inr (n * unit)"
    using sg(4) assms(2) by (subst duration_parts.simps, simp, subst duration_parts.simps, simp)
  then show ?thesis using sg s0 assms(2) by (simp add: ParseDuration_def Let_def)
qed

end
