(* ===== verification/Settings.thy ===== *)
theory Settings
  imports Config GoFlags
begin

text \<open>
  The rest of \<open>internal/config/config.go\<close>: the readers of durations and integers, \<open>Parse\<close>, and the
  start-up notices.

  \<open>Parse\<close> declares one flag per setting, with a default that comes from an environment variable when
  it is set, then reads the command line. The declarations are a list in the order of the source; a
  declaration assigns the default to its setting and may add to the collected errors.
\<close>

section \<open>Reading the environment\<close>

type_synonym env = "string \<Rightarrow> string option" \<comment> \<open>\<open>os.LookupEnv\<close>\<close>

definition Getenv :: "env \<Rightarrow> string \<Rightarrow> string" where
  "Getenv env key = (case env key of None \<Rightarrow> '''' | Some v \<Rightarrow> v)"

definition getDurationOrCollect ::
  "(string \<Rightarrow> string) \<Rightarrow> string \<Rightarrow> duration \<Rightarrow> env_error list \<Rightarrow> duration \<times> env_error list" where
  "getDurationOrCollect env key fallback errs =
     (let v = TrimSpace (env key) in
      if v = '''' then (fallback, errs)
      else (case ParseDuration v of
          Inl err \<Rightarrow> (fallback, errs @ [InvalidDuration key v])
        | Inr d \<Rightarrow> (d, errs)))"

definition getIntOrCollect ::
  "(string \<Rightarrow> string) \<Rightarrow> string \<Rightarrow> int \<Rightarrow> env_error list \<Rightarrow> int \<times> env_error list" where
  "getIntOrCollect env key fallback errs =
     (let v = TrimSpace (env key) in
      if v = '''' then (fallback, errs)
      else (case Sscanf_d v of
          None \<Rightarrow> (fallback, errs @ [InvalidInt key v])
        | Some n \<Rightarrow> (n, errs)))"

section \<open>Declarations\<close>

datatype decl =
    StringVar string string string "string \<Rightarrow> config \<Rightarrow> config"
      \<comment> \<open>flag, variable, fallback, assignment\<close>
  | BoolVar string string bool "bool \<Rightarrow> config \<Rightarrow> config"
  | DurationVar string string duration "duration \<Rightarrow> config \<Rightarrow> config"
  | IntVar string string int "int \<Rightarrow> config \<Rightarrow> config"
  | PlainBoolVar string bool "bool \<Rightarrow> config \<Rightarrow> config"

definition declarations :: "decl list" where
  "declarations =
     [StringVar ''management-socket'' ''VPN_AUTH_MANAGEMENT_SOCKET'' ''/run/openvpn/management.sock'' (\<lambda>v c. c\<lparr>ManagementSocket := v\<rparr>),
      StringVar ''management-password-file'' ''VPN_AUTH_MANAGEMENT_PASSWORD_FILE'' ''/etc/openvpn/management-pw'' (\<lambda>v c. c\<lparr>ManagementPasswordFile := v\<rparr>),
      StringVar ''hmac-secret'' ''VPN_AUTH_HMAC_SECRET'' '''' (\<lambda>v c. c\<lparr>HMACSecret := v\<rparr>),
      StringVar ''hmac-secret-secret-id'' ''VPN_AUTH_HMAC_SECRET_SECRET_ID'' '''' (\<lambda>v c. c\<lparr>HMACSecretSecretID := v\<rparr>),
      StringVar ''required-group'' ''VPN_AUTH_REQUIRED_GROUP'' '''' (\<lambda>v c. c\<lparr>RequiredGroup := v\<rparr>),
      BoolVar ''cn-cross-check'' ''VPN_AUTH_CN_CROSS_CHECK'' True (\<lambda>v c. c\<lparr>CNCrossCheck := v\<rparr>),
      DurationVar ''hand-window'' ''VPN_AUTH_HAND_WINDOW'' (300 * time_second) (\<lambda>v c. c\<lparr>HandWindow := v\<rparr>),
      DurationVar ''reconnect-max-interval'' ''VPN_AUTH_RECONNECT_MAX_INTERVAL'' (5 * time_second) (\<lambda>v c. c\<lparr>ReconnectMaxInterval := v\<rparr>),
      DurationVar ''shutdown-grace-period'' ''VPN_AUTH_SHUTDOWN_GRACE_PERIOD'' (300 * time_second) (\<lambda>v c. c\<lparr>ShutdownGracePeriod := v\<rparr>),
      BoolVar ''check-required-group-on-reauth'' ''VPN_AUTH_CHECK_REQUIRED_GROUP_ON_REAUTH'' False (\<lambda>v c. c\<lparr>CheckRequiredGroupOnReauth := v\<rparr>),
      BoolVar ''reauth-cache'' ''VPN_AUTH_REAUTH_CACHE'' False (\<lambda>v c. c\<lparr>ReauthCache := v\<rparr>),
      DurationVar ''reauth-timeout'' ''VPN_AUTH_REAUTH_TIMEOUT'' (5 * time_second) (\<lambda>v c. c\<lparr>ReauthTimeout := v\<rparr>),
      DurationVar ''reneg-interval'' ''VPN_AUTH_RENEG_INTERVAL'' (3600 * time_second) (\<lambda>v c. c\<lparr>RenegInterval := v\<rparr>),
      StringVar ''instance-id'' ''VPN_AUTH_INSTANCE_ID'' ''local-dev'' (\<lambda>v c. c\<lparr>InstanceID := v\<rparr>),
      DurationVar ''auth-timeout'' ''VPN_AUTH_AUTH_TIMEOUT'' (270 * time_second) (\<lambda>v c. c\<lparr>AuthTimeout := v\<rparr>),
      IntVar ''callback-port'' ''VPN_AUTH_CALLBACK_PORT'' 8080 (\<lambda>v c. c\<lparr>CallbackPort := v\<rparr>),
      StringVar ''callback-url'' ''VPN_AUTH_CALLBACK_URL'' '''' (\<lambda>v c. c\<lparr>CallbackURL := v\<rparr>),
      StringVar ''alb-arn'' ''VPN_AUTH_ALB_ARN'' '''' (\<lambda>v c. c\<lparr>ALBARN := v\<rparr>),
      BoolVar ''cognito-skip-reauth'' ''VPN_AUTH_COGNITO_SKIP_REAUTH'' False (\<lambda>v c. c\<lparr>CognitoSkipReauth := v\<rparr>),
      StringVar ''groups-source'' ''VPN_AUTH_GROUPS_SOURCE'' GroupsSourceCognitoAPI (\<lambda>v c. c\<lparr>GroupsSource := v\<rparr>),
      StringVar ''groups-claim'' ''VPN_AUTH_GROUPS_CLAIM'' '''' (\<lambda>v c. c\<lparr>GroupsClaim := v\<rparr>),
      StringVar ''cognito-issuer-url'' ''VPN_AUTH_COGNITO_ISSUER_URL'' '''' (\<lambda>v c. c\<lparr>CognitoIssuerURL := v\<rparr>),
      StringVar ''cognito-user-pool-id'' ''VPN_AUTH_COGNITO_USER_POOL_ID'' '''' (\<lambda>v c. c\<lparr>CognitoUserPoolID := v\<rparr>),
      StringVar ''alb-public-key-base-url'' ''VPN_AUTH_ALB_PUBLIC_KEY_BASE_URL'' '''' (\<lambda>v c. c\<lparr>ALBPublicKeyBaseURL := v\<rparr>),
      StringVar ''aws-region'' ''AWS_REGION'' ''eu-west-1'' (\<lambda>v c. c\<lparr>AWSRegion := v\<rparr>),
      BoolVar ''emf-metrics'' ''VPN_AUTH_EMF_METRICS'' False (\<lambda>v c. c\<lparr>EMFMetrics := v\<rparr>),
      DurationVar ''emf-interval'' ''VPN_AUTH_EMF_INTERVAL'' (10 * time_second) (\<lambda>v c. c\<lparr>EMFInterval := v\<rparr>),
      StringVar ''log-format'' ''VPN_AUTH_LOG_FORMAT'' ''text'' (\<lambda>v c. c\<lparr>LogFormat := v\<rparr>),
      BoolVar ''management-raw-log'' ''VPN_AUTH_MANAGEMENT_RAW_LOG'' False (\<lambda>v c. c\<lparr>ManagementRawLog := v\<rparr>),
      DurationVar ''max-session-duration'' ''VPN_AUTH_MAX_SESSION_DURATION'' 0 (\<lambda>v c. c\<lparr>MaxSessionDuration := v\<rparr>),
      StringVar ''templates-dir'' ''VPN_AUTH_TEMPLATES_DIR'' '''' (\<lambda>v c. c\<lparr>TemplatesDir := v\<rparr>),
      StringVar ''server-name'' ''VPN_AUTH_SERVER_NAME'' '''' (\<lambda>v c. c\<lparr>ServerName := v\<rparr>),
      PlainBoolVar ''version'' False (\<lambda>v c. c\<lparr>ShowVersion := v\<rparr>),
      BoolVar ''oidc-debug-claims'' ''VPN_AUTH_OIDC_DEBUG_CLAIMS'' False (\<lambda>v c. c\<lparr>OIDCDebugClaims := v\<rparr>)]"

text \<open>What a declaration does: it computes the default, assigns it, and registers the flag.\<close>

fun declare_var ::
  "(nat \<Rightarrow> nat) \<Rightarrow> (string \<Rightarrow> string) \<Rightarrow> config \<times> env_error list \<Rightarrow> decl \<Rightarrow> config \<times> env_error list" where
  "declare_var uc env (c, errs) (StringVar name key fallback f) = (f (getenv env key fallback) c, errs)"
| "declare_var uc env (c, errs) (BoolVar name key fallback f) =
     (case getBoolOrCollect uc env key fallback errs of (v, errs') \<Rightarrow> (f v c, errs'))"
| "declare_var uc env (c, errs) (DurationVar name key fallback f) =
     (case getDurationOrCollect env key fallback errs of (v, errs') \<Rightarrow> (f v c, errs'))"
| "declare_var uc env (c, errs) (IntVar name key fallback f) =
     (case getIntOrCollect env key fallback errs of (v, errs') \<Rightarrow> (f v c, errs'))"
| "declare_var uc env (c, errs) (PlainBoolVar name fallback f) = (f fallback c, errs)"

fun flag_of :: "decl \<Rightarrow> string \<times> config flag_value" where
  "flag_of (StringVar name key fallback f) = (name, StringFlag f)"
| "flag_of (BoolVar name key fallback f) = (name, BoolFlag f)"
| "flag_of (DurationVar name key fallback f) = (name, DurationFlag f)"
| "flag_of (IntVar name key fallback f) = (name, IntFlag f)"
| "flag_of (PlainBoolVar name fallback f) = (name, BoolFlag f)"

definition zero_config :: config where
  "zero_config =
     \<lparr>ManagementSocket = '''', ManagementPasswordFile = '''', HMACSecret = '''', HMACSecretSecretID = '''',
      RequiredGroup = '''', CNCrossCheck = False, HandWindow = 0, ReconnectMaxInterval = 0,
      ShutdownGracePeriod = 0, CheckRequiredGroupOnReauth = False, ReauthCache = False, ReauthTimeout = 0,
      RenegInterval = 0, InstanceID = '''', AuthTimeout = 0, CallbackPort = 0, CallbackURL = '''', ALBARN = '''',
      CognitoSkipReauth = False, GroupsSource = '''', GroupsClaim = '''', CognitoIssuerURL = '''',
      CognitoUserPoolID = '''', ALBPublicKeyBaseURL = '''', AWSRegion = '''', EMFMetrics = False,
      EMFInterval = 0, LogFormat = '''', ManagementRawLog = False, MaxSessionDuration = 0,
      TemplatesDir = '''', ServerName = '''', ShowVersion = False, OIDCDebugClaims = False\<rparr>"

datatype parse_result =
    Parsed config
  | EnvErrors "env_error list"
  | ConfigProblems "config_problem list"
  | FlagExit nat \<comment> \<open>the \<open>flag\<close> package ends the process: 0 for help, 2 for an error\<close>

definition removed_variable :: string where
  "removed_variable = ''VPN_AUTH_COGNITO_GROUPS_FROM_CLAIMS''"

definition env_defaults :: "(nat \<Rightarrow> nat) \<Rightarrow> env \<Rightarrow> config \<times> env_error list" where
  "env_defaults uc env =
     (let envErrors = (if env removed_variable \<noteq> None then [RemovedVariable removed_variable] else [])
      in foldl (declare_var uc (Getenv env)) (zero_config, envErrors) declarations)"

definition Parse_config :: "(nat \<Rightarrow> nat) \<Rightarrow> env \<Rightarrow> string list \<Rightarrow> parse_result" where
  "Parse_config uc env args =
     (case env_defaults uc env of (cfg, envErrors) \<Rightarrow>
        (case parse_args (map flag_of declarations) args cfg of
           Inl HelpRequested \<Rightarrow> FlagExit 0
         | Inl _ \<Rightarrow> FlagExit 2
         | Inr cfg \<Rightarrow>
             if ShowVersion cfg then Parsed cfg
             else if envErrors \<noteq> [] then EnvErrors envErrors
             else (case Validate cfg of
                 Inl problems \<Rightarrow> ConfigProblems problems
               | Inr _ \<Rightarrow> Parsed cfg)))"

section \<open>Start-up notices\<close>

datatype startup_notice =
    GroupsSourceConfigured string string bool bool \<comment> \<open>source, claim, re-authentication check, claim ignored\<close>
  | RawLoggingEnabled
  | OIDCDebugEnabled

definition LogStartupNotices :: "config \<Rightarrow> startup_notice list" where
  "LogStartupNotices c =
     [GroupsSourceConfigured (GroupsSource c) (GroupsClaim c) (CheckRequiredGroupOnReauth c)
        (GroupsSource c = GroupsSourceCognitoAPI \<and> GroupsClaim c \<noteq> '''')]
     @ (if ManagementRawLog c then [RawLoggingEnabled] else [])
     @ (if OIDCDebugClaims c then [OIDCDebugEnabled] else [])"

section \<open>Malformed variables\<close>

text \<open>The error a declaration collects from the environment, if any.\<close>

fun decl_errors :: "(nat \<Rightarrow> nat) \<Rightarrow> (string \<Rightarrow> string) \<Rightarrow> decl \<Rightarrow> env_error list" where
  "decl_errors uc env (BoolVar name key fallback f) =
     (let v = TrimSpace (env key) in
      if v = '''' \<or> ToLower uc v \<in> set [''1'', ''true'', ''yes'', ''on'', ''0'', ''false'', ''no'', ''off''] then []
      else [InvalidBool key v])"
| "decl_errors uc env (DurationVar name key fallback f) =
     (let v = TrimSpace (env key) in
      if v = '''' \<or> (\<exists>d. ParseDuration v = Inr d) then [] else [InvalidDuration key v])"
| "decl_errors uc env (IntVar name key fallback f) =
     (let v = TrimSpace (env key) in if v = '''' \<or> Sscanf_d v \<noteq> None then [] else [InvalidInt key v])"
| "decl_errors uc env _ = []"

definition all_env_errors :: "(nat \<Rightarrow> nat) \<Rightarrow> env \<Rightarrow> env_error list" where
  "all_env_errors uc env =
     (if env removed_variable \<noteq> None then [RemovedVariable removed_variable] else [])
     @ concat (map (decl_errors uc (Getenv env)) declarations)"

lemma declare_errors: "snd (declare_var uc env (c, errs) d) = errs @ decl_errors uc env d"
  by (cases d)
     (auto simp: getBoolOrCollect_def getDurationOrCollect_def getIntOrCollect_def Let_def
        split: sum.splits option.splits)

lemma declare_all_errors:
  "snd (foldl (declare_var uc env) s ds) = snd s @ concat (map (decl_errors uc env) ds)"
proof (induction ds arbitrary: s)
  case (Cons d ds)
  then show ?case using declare_errors [of uc env "fst s" "snd s" d] by simp
qed simp

lemma env_defaults_errors: "snd (env_defaults uc env) = all_env_errors uc env"
  by (simp add: env_defaults_def all_env_errors_def declare_all_errors)

lemma parse_cases:
  "case Parse_config uc env args of
     Parsed c \<Rightarrow> ShowVersion c \<or> (all_env_errors uc env = [] \<and> Validate c = Inr ())
   | EnvErrors es \<Rightarrow> es \<noteq> [] \<and> es = all_env_errors uc env
   | ConfigProblems ps \<Rightarrow> all_env_errors uc env = [] \<and> (\<exists>c. \<not> ShowVersion c \<and> Validate c = Inl ps)
   | FlagExit n \<Rightarrow> n = 0 \<or> n = 2"
proof -
  obtain cfg errs where d: "env_defaults uc env = (cfg, errs)" by (cases "env_defaults uc env")
  then have errs: "errs = all_env_errors uc env" using env_defaults_errors [of uc env] by simp
  show ?thesis
  proof (cases "parse_args (map flag_of declarations) args cfg")
    case (Inl err)
    then show ?thesis using d by (cases err) (simp_all add: Parse_config_def)
  next
    case (Inr c)
    show ?thesis
    proof (cases "ShowVersion c \<or> errs \<noteq> []")
      case True
      then show ?thesis using Inr d errs by (cases "ShowVersion c") (simp_all add: Parse_config_def)
    next
      case False
      then have p: "Parse_config uc env args = (case Validate c of Inl problems \<Rightarrow> ConfigProblems problems
          | Inr _ \<Rightarrow> Parsed c)" using Inr d by (simp add: Parse_config_def)
      show ?thesis
      proof (cases "Validate c")
        case (Inl ps)
        then have "\<exists>c. \<not> ShowVersion c \<and> Validate c = Inl ps" using False by (intro exI [of _ c]) simp
        then show ?thesis using p Inl False errs by simp
      next
        case (Inr u)
        then show ?thesis using p False errs by simp
      qed
    qed
  qed
qed

lemma parse_outcomes_ok:
  assumes "Parse_config uc env args = Parsed c" and "\<not> ShowVersion c"
  shows "all_env_errors uc env = []" and "Validate c = Inr ()"
  using parse_cases [of uc env args] assms by simp_all

text \<open>
  C30: The daemon starts only on settings it has understood completely. Every outcome of parsing is
  one of four: accepted settings, which are either a request for the version or pass validation
  with no malformed variable in the environment, not even one that a flag overrides; the list of
  all malformed variables, in the order of the settings, with the removed variable first; the
  problems validation found, in an environment without malformed variables; or the exit status of
  the flag package.
\<close>

theorem parse_outcomes:
  "case Parse_config uc env args of
     Parsed c \<Rightarrow> ShowVersion c \<or> (all_env_errors uc env = [] \<and> Validate c = Inr ())
   | EnvErrors es \<Rightarrow> es \<noteq> [] \<and> es = all_env_errors uc env
   | ConfigProblems ps \<Rightarrow> all_env_errors uc env = [] \<and> (\<exists>c. \<not> ShowVersion c \<and> Validate c = Inl ps)
   | FlagExit n \<Rightarrow> n = 0 \<or> n = 2"
  by (rule parse_cases)

lemma valid_production:
  assumes "Validate c = Inr ()" and "ALBARN c \<noteq> ''''"
  shows "production_ready c"
  using assms
  by (auto simp: Validate_ok problems_of_def default_groups_source_def production_ready_def split: if_splits)

section \<open>Precedence\<close>

text \<open>The settings that are strings: flag, variable, fallback and field.\<close>

definition string_settings :: "(string \<times> string \<times> string \<times> (config \<Rightarrow> string)) list" where
  "string_settings =
     [(''management-socket'', ''VPN_AUTH_MANAGEMENT_SOCKET'', ''/run/openvpn/management.sock'', ManagementSocket),
      (''management-password-file'', ''VPN_AUTH_MANAGEMENT_PASSWORD_FILE'', ''/etc/openvpn/management-pw'', ManagementPasswordFile),
      (''hmac-secret'', ''VPN_AUTH_HMAC_SECRET'', '''', HMACSecret),
      (''hmac-secret-secret-id'', ''VPN_AUTH_HMAC_SECRET_SECRET_ID'', '''', HMACSecretSecretID),
      (''required-group'', ''VPN_AUTH_REQUIRED_GROUP'', '''', RequiredGroup),
      (''instance-id'', ''VPN_AUTH_INSTANCE_ID'', ''local-dev'', InstanceID),
      (''callback-url'', ''VPN_AUTH_CALLBACK_URL'', '''', CallbackURL),
      (''alb-arn'', ''VPN_AUTH_ALB_ARN'', '''', ALBARN),
      (''groups-source'', ''VPN_AUTH_GROUPS_SOURCE'', ''cognito-api'', GroupsSource),
      (''groups-claim'', ''VPN_AUTH_GROUPS_CLAIM'', '''', GroupsClaim),
      (''cognito-issuer-url'', ''VPN_AUTH_COGNITO_ISSUER_URL'', '''', CognitoIssuerURL),
      (''cognito-user-pool-id'', ''VPN_AUTH_COGNITO_USER_POOL_ID'', '''', CognitoUserPoolID),
      (''alb-public-key-base-url'', ''VPN_AUTH_ALB_PUBLIC_KEY_BASE_URL'', '''', ALBPublicKeyBaseURL),
      (''aws-region'', ''AWS_REGION'', ''eu-west-1'', AWSRegion),
      (''log-format'', ''VPN_AUTH_LOG_FORMAT'', ''text'', LogFormat),
      (''templates-dir'', ''VPN_AUTH_TEMPLATES_DIR'', '''', TemplatesDir),
      (''server-name'', ''VPN_AUTH_SERVER_NAME'', '''', ServerName)]"

definition string_names :: "string list" where
  "string_names = map fst string_settings"

lemma declared_default:
  assumes "(name, key, fallback, get) \<in> set string_settings"
  shows "get (fst (foldl (declare_var uc env) (c, errs) declarations)) = getenv env key fallback"
  using assms unfolding string_settings_def set_simps
  by (elim insertE emptyE) (simp_all add: declarations_def case_prod_beta GroupsSourceCognitoAPI_def)

lemma default_setting:
  assumes "(name, key, fallback, get) \<in> set string_settings"
  shows "get (fst (env_defaults uc env)) = getenv (Getenv env) key fallback"
  unfolding env_defaults_def Let_def by (rule declared_default [OF assms])

text \<open>The assignment of a string flag.\<close>

fun string_setter :: "config flag_value option \<Rightarrow> string \<Rightarrow> config \<Rightarrow> config" where
  "string_setter (Some (StringFlag f)) = f"
| "string_setter _ = (\<lambda>v c. c)"

definition assign :: "string \<Rightarrow> string \<Rightarrow> config \<Rightarrow> config" where
  "assign n v c = string_setter (map_of (map flag_of declarations) n) v c"

lemma string_flags:
  "n \<in> set string_names \<Longrightarrow>
     (\<exists>f. map_of (map flag_of declarations) n = Some (StringFlag f)) \<and>
     n \<noteq> [] \<and> hd n \<noteq> CHR ''-'' \<and> hd n \<noteq> CHR ''='' \<and> CHR ''='' \<notin> set n"
  unfolding string_names_def string_settings_def list.map fst_conv set_simps
  by (elim insertE emptyE) (simp_all add: declarations_def)

lemma assign_simps:
  "assign ''management-socket'' v c = c\<lparr>ManagementSocket := v\<rparr>"
  "assign ''management-password-file'' v c = c\<lparr>ManagementPasswordFile := v\<rparr>"
  "assign ''hmac-secret'' v c = c\<lparr>HMACSecret := v\<rparr>"
  "assign ''hmac-secret-secret-id'' v c = c\<lparr>HMACSecretSecretID := v\<rparr>"
  "assign ''required-group'' v c = c\<lparr>RequiredGroup := v\<rparr>"
  "assign ''instance-id'' v c = c\<lparr>InstanceID := v\<rparr>"
  "assign ''callback-url'' v c = c\<lparr>CallbackURL := v\<rparr>"
  "assign ''alb-arn'' v c = c\<lparr>ALBARN := v\<rparr>"
  "assign ''groups-source'' v c = c\<lparr>GroupsSource := v\<rparr>"
  "assign ''groups-claim'' v c = c\<lparr>GroupsClaim := v\<rparr>"
  "assign ''cognito-issuer-url'' v c = c\<lparr>CognitoIssuerURL := v\<rparr>"
  "assign ''cognito-user-pool-id'' v c = c\<lparr>CognitoUserPoolID := v\<rparr>"
  "assign ''alb-public-key-base-url'' v c = c\<lparr>ALBPublicKeyBaseURL := v\<rparr>"
  "assign ''aws-region'' v c = c\<lparr>AWSRegion := v\<rparr>"
  "assign ''log-format'' v c = c\<lparr>LogFormat := v\<rparr>"
  "assign ''templates-dir'' v c = c\<lparr>TemplatesDir := v\<rparr>"
  "assign ''server-name'' v c = c\<lparr>ServerName := v\<rparr>"
  by (simp_all add: assign_def declarations_def)

lemma get_assign:
  assumes "(name, key, fallback, get) \<in> set string_settings" and "n \<in> set string_names"
  shows "get (assign n v c) = (if n = name then v else get c)"
  using assms unfolding string_names_def string_settings_def list.map fst_conv set_simps
  by (elim insertE emptyE) (simp_all add: assign_simps)

definition flag_text :: "string \<times> string \<Rightarrow> string" where
  "flag_text nv = ''--'' @ fst nv @ ''='' @ snd nv"

lemma parse_assignment:
  assumes "n \<in> set string_names"
  shows "parse_args (map flag_of declarations) (flag_text (n, v) # args) c =
         parse_args (map flag_of declarations) args (assign n v c)"
proof -
  obtain f where f: "map_of (map flag_of declarations) n = Some (StringFlag f)"
    and n: "n \<noteq> []" "hd n \<noteq> CHR ''-''" "hd n \<noteq> CHR ''=''" "CHR ''='' \<notin> set n"
    using string_flags [OF assms] by blast
  have cut: "cut_flag (n @ ''='' @ v) = (n, Some v)"
    using n(1,4) by (cases n) (simp_all add: cut_flag_def)
  have arg: "\<not> (length (flag_text (n, v)) < 2 \<or> flag_text (n, v) ! 0 \<noteq> CHR ''-'')"
    "flag_text (n, v) \<noteq> ''--''" "drop (if flag_text (n, v) ! 1 = CHR ''-'' then 2 else 1) (flag_text (n, v)) = n @ ''='' @ v"
    "\<not> (n @ ''='' @ v = [] \<or> hd (n @ ''='' @ v) = CHR ''-'' \<or> hd (n @ ''='' @ v) = CHR ''='')"
    using n(1-3) by (simp_all add: flag_text_def)
  show ?thesis
    unfolding parse_args.simps(2) arg(3) Let_def cut
    by (simp only: arg if_False prod.case f option.case set_flag.simps assign_def string_setter.simps)
qed

lemma parse_assignments:
  "fst ` set nvs \<subseteq> set string_names \<Longrightarrow>
     parse_args (map flag_of declarations) (map flag_text nvs) c =
       Inr (foldl (\<lambda>c (n, v). assign n v c) c nvs)"
proof (induction nvs arbitrary: c)
  case (Cons nv nvs)
  then show ?case using parse_assignment [of "fst nv" "snd nv"] by (cases nv) auto
qed simp

lemma get_assignments:
  assumes "(name, key, fallback, get) \<in> set string_settings" and "fst ` set nvs \<subseteq> set string_names"
  shows "get (foldl (\<lambda>c (n, v). assign n v c) c nvs) =
         (case map_of (rev nvs) name of Some v \<Rightarrow> v | None \<Rightarrow> get c)"
  using assms(2)
proof (induction nvs rule: rev_induct)
  case (snoc nv nvs)
  then show ?case using get_assign [OF assms(1), of "fst nv"] by (cases nv) auto
qed simp

text \<open>
  C36: The command line wins over the environment, and the environment over the built-in default. For
  any assignments of string settings on the command line and any environment in which the daemon
  accepts its settings, each string setting has the value of its last flag; without a flag it has
  the value of its environment variable when that is not empty, and its fallback otherwise.
\<close>

theorem settings_precedence:
  assumes "Parse_config uc env (map flag_text nvs) = Parsed c"
    and "fst ` set nvs \<subseteq> set string_names"
    and "(name, key, fallback, get) \<in> set string_settings"
  shows "get c = (case map_of (rev nvs) name of
                    Some v \<Rightarrow> v
                  | None \<Rightarrow> (if Getenv env key \<noteq> '''' then Getenv env key else fallback))"
proof -
  obtain cfg errs where d: "env_defaults uc env = (cfg, errs)" by (cases "env_defaults uc env")
  have "c = foldl (\<lambda>c (n, v). assign n v c) cfg nvs"
    using assms(1) d parse_assignments [OF assms(2), of cfg]
    by (simp add: Parse_config_def split: if_splits sum.splits unit.splits)
  then have "c = foldl (\<lambda>c (n, v). assign n v c) (fst (env_defaults uc env)) nvs" using d by simp
  then show ?thesis
    using get_assignments [OF assms(3,2)] default_setting [OF assms(3)]
    by (simp add: getenv_def Let_def split: option.split)
qed

section \<open>Examples\<close>

text \<open>An environment as in the deployment's unit file, and a command line that overrides the URL.\<close>

definition sample_environment :: env where
  "sample_environment =
     [''VPN_AUTH_CALLBACK_URL'' \<mapsto> ''https://old.example/cb'', ''VPN_AUTH_INSTANCE_ID'' \<mapsto> ''i-7'']"

lemma TrimSpace_Nil [simp]: "TrimSpace '''' = ''''"
  using TrimSpace_all_plain [of "''''"] by simp

definition sample_settings :: config where
  "sample_settings = zero_config
     \<lparr>ManagementSocket := ''/run/openvpn/management.sock'', ManagementPasswordFile := ''/etc/openvpn/management-pw'',
      CNCrossCheck := True, HandWindow := 300 * time_second, ReconnectMaxInterval := 5 * time_second,
      ShutdownGracePeriod := 300 * time_second, ReauthTimeout := 5 * time_second,
      RenegInterval := 3600 * time_second, InstanceID := ''i-7'', AuthTimeout := 270 * time_second,
      CallbackPort := 8080, CallbackURL := ''https://old.example/cb'', GroupsSource := ''cognito-api'',
      AWSRegion := ''eu-west-1'', EMFInterval := 10 * time_second, LogFormat := ''text''\<rparr>"

lemma sample_defaults: "env_defaults id sample_environment = (sample_settings, [])"
  by (simp add: env_defaults_def declarations_def sample_settings_def zero_config_def sample_environment_def Getenv_def
      getenv_def getBoolOrCollect_def getDurationOrCollect_def getIntOrCollect_def removed_variable_def
      GroupsSourceCognitoAPI_def)

lemma sample_valid: "Validate (sample_settings\<lparr>CallbackURL := ''https://new.example/cb''\<rparr>) = Inr ()"
  by (simp add: Validate_def default_groups_source_def problems_of_def problem_if_def sample_settings_def
      zero_config_def isValidGroupsSource_def validGroupsSources_def GroupsSourceCognitoAPI_def
      GroupsSourceJWTClaim_def time_second_def)

lemma sample_parsed:
  "Parse_config id sample_environment (map flag_text [(''callback-url'', ''https://new.example/cb'')]) =
     Parsed (sample_settings\<lparr>CallbackURL := ''https://new.example/cb''\<rparr>)"
proof -
  let ?nvs = "[(''callback-url'', ''https://new.example/cb'')]"
  have "fst ` set ?nvs \<subseteq> set string_names" by (simp add: string_names_def string_settings_def)
  from parse_assignments [OF this, of sample_settings]
  have "parse_args (map flag_of declarations) (map flag_text ?nvs) sample_settings
      = Inr (sample_settings\<lparr>CallbackURL := ''https://new.example/cb''\<rparr>)"
    by (simp only: foldl.simps prod.case assign_simps)
  moreover have "\<not> ShowVersion (sample_settings\<lparr>CallbackURL := ''https://new.example/cb''\<rparr>)"
    by (simp add: sample_settings_def zero_config_def)
  ultimately show ?thesis
    by (simp only: Parse_config_def sample_defaults prod.case sum.case sample_valid if_False not_False_eq_True simp_thms)
qed

theorem settings_precedence_witness:
  "InstanceID (sample_settings\<lparr>CallbackURL := ''https://new.example/cb''\<rparr>) =
     (case map_of (rev [(''callback-url'', ''https://new.example/cb'')]) ''instance-id'' of
        Some v \<Rightarrow> v
      | None \<Rightarrow> (if Getenv sample_environment ''VPN_AUTH_INSTANCE_ID'' \<noteq> ''''
                 then Getenv sample_environment ''VPN_AUTH_INSTANCE_ID'' else ''local-dev''))"
  by (rule settings_precedence [OF sample_parsed]) (simp_all add: string_names_def string_settings_def)

text \<open>The integer reader accepts text after the digits of a variable, which the flag of the same
  setting refuses.\<close>

lemma port_variable_lenient:
  "getIntOrCollect (\<lambda>_. ''8080abc'') ''VPN_AUTH_CALLBACK_PORT'' 1 [] = (8080, [])"
  "set_flag (IntFlag f) ''8080abc'' c = None"
proof -
  have "TrimSpace ''8080abc'' = ''8080abc''"
    by (rule TrimSpace_all_plain) (auto simp: plain_char_def ascii_spaces_def)
  moreover have "Sscanf_d ''8080abc'' = Some 8080"
    by (simp add: Sscanf_d_def ParseInt_def is_digit_def byte_def digits_val_def digit_val_def in_i64_def
        i64_min_def i64_max_def)
  ultimately show "getIntOrCollect (\<lambda>_. ''8080abc'') ''VPN_AUTH_CALLBACK_PORT'' 1 [] = (8080, [])"
    by (simp add: getIntOrCollect_def)
  show "set_flag (IntFlag f) ''8080abc'' c = None"
    by (simp add: ParseInt0_def ParseUint0_def base_prefix_def lower_digit_def is_digit_def byte_def lower_byte_def)
qed

end
