(* ===== verification/Pages.thy ===== *)
theory Pages
  imports Callback
begin

text \<open>
  \<open>internal/callback/render.go\<close>: the HTML pages the browser ends on. The template engine and the file
  system are parameters: what parsing gives, what executing a template gives, what \<open>os.Stat\<close> says.
\<close>

section \<open>Data\<close>

record successData =
  sd_Email :: string
  sd_SessionID :: string
  sd_Hostname :: string
  sd_ServerName :: string

record errorData =
  ed_Title :: string
  ed_Message :: string
  ed_StatusCode :: int
  ed_SessionID :: string
  ed_Hostname :: string
  ed_ServerName :: string

datatype page_data = SuccessPage successData | ErrorPage errorData

record templates = \<comment> \<open>\<open>*template.Template\<close>: the defined names and the result of executing one\<close>
  tm_names :: "string list"
  tm_execute :: "string \<Rightarrow> page_data \<Rightarrow> string result"

record http_page =
  hp_status :: int
  hp_header :: "(string, string) fmap"
  hp_body :: string

datatype stat_result = StatDir | StatFile | StatNotExist string | StatFailed string

record template_source =
  ts_stat :: "string \<Rightarrow> stat_result"
  ts_parseFiles :: "string list \<Rightarrow> templates result"
  ts_embedded :: "templates result"

definition requiredTemplates :: "string list" where
  "requiredTemplates = [''success.html'', ''error.html'']"

section \<open>Paths\<close>

text \<open>\<open>path/filepath.Clean\<close> and \<open>Join\<close> of two elements on Unix, on the components of a path; the
  components kept so far are in reverse.\<close>

fun clean_components :: "bool \<Rightarrow> string list \<Rightarrow> string list \<Rightarrow> string list" where
  "clean_components rooted kept [] = rev kept"
| "clean_components rooted kept (c # cs) =
     (if c = '''' \<or> c = ''.'' then clean_components rooted kept cs
      else if c = ''..'' then
        (case kept of
           k # ks \<Rightarrow> if k = ''..'' then clean_components rooted (c # kept) cs else clean_components rooted ks cs
         | [] \<Rightarrow> if rooted then clean_components rooted kept cs else clean_components rooted [c] cs)
      else clean_components rooted (c # kept) cs)"

definition filepath_Clean :: "string \<Rightarrow> string" where
  "filepath_Clean p =
     (let rooted = HasPrefix p ''/'';
          out = join ''/'' (clean_components rooted [] (Split p (CHR ''/'')))
      in if rooted then CHR ''/'' # out else if out = '''' then ''.'' else out)"

definition filepath_Join :: "string \<Rightarrow> string \<Rightarrow> string" where
  "filepath_Join dir name =
     (if dir = '''' then (if name = '''' then '''' else filepath_Clean name)
      else filepath_Clean (if name = '''' then dir else dir @ ''/'' @ name))"

section \<open>Loading\<close>

text \<open>The check that the required files exist: the missing names and the paths found.\<close>

fun stat_required ::
  "(string \<Rightarrow> stat_result) \<Rightarrow> string \<Rightarrow> string list \<Rightarrow> string list \<Rightarrow> string list \<Rightarrow> (string list \<times> string list) result" where
  "stat_required stat dir missing paths [] = Ok (missing, paths)"
| "stat_required stat dir missing paths (name # names) =
     (let p = filepath_Join dir name in
      case stat p of
        StatNotExist _ \<Rightarrow> stat_required stat dir (missing @ [name]) paths names
      | StatFailed err \<Rightarrow> Err (''templates-dir: '' @ name @ '': '' @ err)
      | _ \<Rightarrow> stat_required stat dir missing (paths @ [p]) names)"

definition load_override :: "template_source \<Rightarrow> string \<Rightarrow> templates result" where
  "load_override src dir =
     (case ts_stat src dir of
        StatNotExist err \<Rightarrow> Err (''templates-dir: '' @ err)
      | StatFailed err \<Rightarrow> Err (''templates-dir: '' @ err)
      | StatFile \<Rightarrow> Err (''templates-dir: not a directory: '' @ dir)
      | StatDir \<Rightarrow>
          (case stat_required (ts_stat src) dir [] [] requiredTemplates of
             Inl err \<Rightarrow> Err err
           | Inr (missing, paths) \<Rightarrow>
               if missing \<noteq> [] then
                 Err (''templates-dir: missing required templates: ['' @ join '' '' missing @ '']'')
               else (case ts_parseFiles src paths of
                   Inl err \<Rightarrow> Err (''parse templates: '' @ err)
                 | Inr t \<Rightarrow> Ok t)))"

fun check_required :: "templates \<Rightarrow> string list \<Rightarrow> templates result" where
  "check_required t [] = Ok t"
| "check_required t (name # names) =
     (if name \<notin> set (tm_names t) then Err (''missing required template: '' @ name) else check_required t names)"

definition loadTemplates :: "template_source \<Rightarrow> string \<Rightarrow> templates result" where
  "loadTemplates src overrideDir =
     (case (if overrideDir \<noteq> '''' then load_override src overrideDir
            else (case ts_embedded src of Inl err \<Rightarrow> Err (''parse templates: '' @ err) | Inr t \<Rightarrow> Ok t)) of
        Inl err \<Rightarrow> Err err
      | Inr t \<Rightarrow> check_required t requiredTemplates)"

section \<open>Rendering\<close>

definition setCommonHeaders :: "string \<Rightarrow> (string, string) fmap \<Rightarrow> (string, string) fmap" where
  "setCommonHeaders contentType h =
     fmupd ''X-Content-Type-Options'' ''nosniff''
       (fmupd ''Cache-Control'' ''no-store'' (fmupd ''Content-Type'' contentType h))"

record page_server =
  pg_tmpl :: templates
  pg_hostname :: string
  pg_serverName :: string

definition renderSuccess :: "page_server \<Rightarrow> string \<Rightarrow> string \<Rightarrow> (string, string) fmap \<Rightarrow> http_page" where
  "renderSuccess s email sessionID hdr =
     (let data = SuccessPage \<lparr>sd_Email = email, sd_SessionID = sessionID, sd_Hostname = pg_hostname s,
                              sd_ServerName = pg_serverName s\<rparr> in
      case tm_execute (pg_tmpl s) ''success.html'' data of
        Inl err \<Rightarrow>
          \<lparr>hp_status = 200, hp_header = setCommonHeaders ''text/plain; charset=utf-8'' hdr,
           hp_body = ''authenticated'' @ [CHR 0x0A]\<rparr>
      | Inr buf \<Rightarrow>
          \<lparr>hp_status = 200, hp_header = setCommonHeaders ''text/html; charset=utf-8'' hdr, hp_body = buf\<rparr>)"

definition renderError ::
  "page_server \<Rightarrow> int \<Rightarrow> string \<Rightarrow> string \<Rightarrow> string \<Rightarrow> (string, string) fmap \<Rightarrow> http_page" where
  "renderError s status title message sessionID hdr =
     (let data = ErrorPage \<lparr>ed_Title = title, ed_Message = message, ed_StatusCode = status,
                            ed_SessionID = sessionID, ed_Hostname = pg_hostname s, ed_ServerName = pg_serverName s\<rparr> in
      case tm_execute (pg_tmpl s) ''error.html'' data of
        Inl err \<Rightarrow>
          \<lparr>hp_status = status, hp_header = setCommonHeaders ''text/plain; charset=utf-8'' hdr,
           hp_body = message @ [CHR 0x0A]\<rparr>
      | Inr buf \<Rightarrow>
          \<lparr>hp_status = status, hp_header = setCommonHeaders ''text/html; charset=utf-8'' hdr, hp_body = buf\<rparr>)"

section \<open>What the browser gets\<close>

definition safe_page :: "http_page \<Rightarrow> bool" where
  "safe_page p \<longleftrightarrow>
     fmlookup (hp_header p) ''Cache-Control'' = Some ''no-store'' \<and>
     fmlookup (hp_header p) ''X-Content-Type-Options'' = Some ''nosniff'' \<and>
     fmlookup (hp_header p) ''Content-Type'' \<in>
       {Some ''text/plain; charset=utf-8'', Some ''text/html; charset=utf-8''}"

lemma check_required_Ok: "check_required t names = Ok u \<Longrightarrow> u = t \<and> set names \<subseteq> set (tm_names t)"
  by (induction t names rule: check_required.induct) (auto split: if_splits)

lemma stat_required_Ok:
  "stat_required stat dir missing paths names = Ok (m, ps) \<Longrightarrow>
     m = missing @ filter (\<lambda>n. \<exists>e. stat (filepath_Join dir n) = StatNotExist e) names \<and>
     ps = paths @ map (filepath_Join dir) (filter (\<lambda>n. \<nexists>e. stat (filepath_Join dir n) = StatNotExist e) names)"
  by (induction stat dir missing paths names rule: stat_required.induct)
     (auto simp: Let_def split: stat_result.splits)

lemma load_override_Ok:
  assumes "load_override src dir = Ok t"
  shows "ts_stat src dir = StatDir"
    and "\<forall>n \<in> set requiredTemplates. \<nexists>e. ts_stat src (filepath_Join dir n) = StatNotExist e"
    and "ts_parseFiles src (map (filepath_Join dir) requiredTemplates) = Ok t"
proof -
  obtain ps where d: "ts_stat src dir = StatDir"
    and ps: "stat_required (ts_stat src) dir [] [] requiredTemplates = Ok ([], ps)" "ts_parseFiles src ps = Ok t"
    using assms by (auto simp: load_override_def split: stat_result.splits sum.splits if_splits)
  have none: "filter (\<lambda>n. \<exists>e. ts_stat src (filepath_Join dir n) = StatNotExist e) requiredTemplates = []"
    and "ps = map (filepath_Join dir)
        (filter (\<lambda>n. \<nexists>e. ts_stat src (filepath_Join dir n) = StatNotExist e) requiredTemplates)"
    using stat_required_Ok [OF ps(1)] by auto
  moreover from none
  show all: "\<forall>n \<in> set requiredTemplates. \<nexists>e. ts_stat src (filepath_Join dir n) = StatNotExist e"
    by (simp add: filter_empty_conv)
  ultimately show "ts_parseFiles src (map (filepath_Join dir) requiredTemplates) = Ok t"
    using ps(2) by (simp add: filter_id_conv)
  show "ts_stat src dir = StatDir" by (rule d)
qed

lemma safe_render:
  "safe_page (renderSuccess s email sid hdr)" "hp_status (renderSuccess s email sid hdr) = 200"
  "safe_page (renderError s status title msg sid hdr)" "hp_status (renderError s status title msg sid hdr) = status"
  by (simp_all add: safe_page_def renderSuccess_def renderError_def setCommonHeaders_def Let_def split: sum.split)

lemma loadTemplates_Ok:
  assumes "loadTemplates src dir = Ok t"
  shows "set requiredTemplates \<subseteq> set (tm_names t) \<and>
         (if dir = '''' then ts_embedded src = Ok t
          else ts_stat src dir = StatDir \<and>
            (\<forall>n \<in> set requiredTemplates. \<nexists>e. ts_stat src (filepath_Join dir n) = StatNotExist e) \<and>
            ts_parseFiles src (map (filepath_Join dir) requiredTemplates) = Ok t)"
proof -
  obtain u where u: "(if dir \<noteq> '''' then load_override src dir
      else (case ts_embedded src of Inl err \<Rightarrow> Err (''parse templates: '' @ err) | Inr t \<Rightarrow> Ok t)) = Ok u"
    and "check_required u requiredTemplates = Ok t"
    using assms by (auto simp: loadTemplates_def split: sum.splits)
  then have "u = t" "set requiredTemplates \<subseteq> set (tm_names t)"
    using check_required_Ok by blast+
  with u show ?thesis using load_override_Ok [of src dir t]
    by (auto split: if_splits sum.splits)
qed

lemma loadTemplates_complete: "loadTemplates src dir = Ok t \<Longrightarrow> set requiredTemplates \<subseteq> set (tm_names t)"
  using loadTemplates_Ok by blast

text \<open>
  A server that starts can render every page. Loading succeeds only with a set of templates that
  defines both required pages. From an override directory it succeeds only if the directory exists,
  is a directory and holds both files, and then exactly these two files are parsed; from the
  built-in set no file is looked at. Whatever is loaded, both pages are served uncacheable and
  protected from content sniffing, with the status of the outcome, as HTML when the template
  executes and as plain text with the message when it does not.
\<close>

theorem loaded_pages_complete:
  assumes "loadTemplates src dir = Ok t" and "pg_tmpl s = t"
  shows "set requiredTemplates \<subseteq> set (tm_names t) \<and>
         (if dir = '''' then ts_embedded src = Ok t
          else ts_stat src dir = StatDir \<and>
            (\<forall>n \<in> set requiredTemplates. \<nexists>e. ts_stat src (filepath_Join dir n) = StatNotExist e) \<and>
            ts_parseFiles src (map (filepath_Join dir) requiredTemplates) = Ok t) \<and>
         safe_page (renderSuccess s email sid hdr) \<and> hp_status (renderSuccess s email sid hdr) = 200 \<and>
         safe_page (renderError s status title msg sid hdr) \<and>
         hp_status (renderError s status title msg sid hdr) = status"
  using loadTemplates_Ok [OF assms(1)] safe_render assms(2) by simp

definition sample_templates :: templates where
  "sample_templates = \<lparr>tm_names = requiredTemplates, tm_execute = (\<lambda>n d. Ok n)\<rparr>"

definition sample_source :: template_source where
  "sample_source =
     \<lparr>ts_stat = (\<lambda>p. if p = ''/etc/pages'' then StatDir
                     else if p \<in> {''/etc/pages/success.html'', ''/etc/pages/error.html''} then StatFile
                     else StatNotExist ''no such file''),
      ts_parseFiles = (\<lambda>ps. Ok sample_templates), ts_embedded = Err ''unused''\<rparr>"

lemma sample_join:
  "filepath_Join ''/etc/pages/'' ''success.html'' = ''/etc/pages/success.html''"
  "filepath_Join ''/etc/pages'' ''success.html'' = ''/etc/pages/success.html''"
  "filepath_Join ''/etc/pages'' ''error.html'' = ''/etc/pages/error.html''"
  "filepath_Join ''/srv/../etc//pages/.'' ''error.html'' = ''/etc/pages/error.html''"
  by code_simp+

theorem loaded_pages_complete_witness:
  "\<exists>s. set requiredTemplates \<subseteq> set (tm_names sample_templates) \<and>
     (if ''/etc/pages'' = '''' then ts_embedded sample_source = Ok sample_templates
      else ts_stat sample_source ''/etc/pages'' = StatDir \<and>
        (\<forall>n \<in> set requiredTemplates. \<nexists>e. ts_stat sample_source (filepath_Join ''/etc/pages'' n) = StatNotExist e) \<and>
        ts_parseFiles sample_source (map (filepath_Join ''/etc/pages'') requiredTemplates) = Ok sample_templates) \<and>
     safe_page (renderSuccess s ''a@b.c'' ''sid'' fmempty) \<and> hp_status (renderSuccess s ''a@b.c'' ''sid'' fmempty) = 200 \<and>
     safe_page (renderError s 403 ''t'' ''m'' ''sid'' fmempty) \<and>
     hp_status (renderError s 403 ''t'' ''m'' ''sid'' fmempty) = 403"
proof (intro exI, rule loaded_pages_complete)
  show "loadTemplates sample_source ''/etc/pages'' = Ok sample_templates"
    by (simp add: loadTemplates_def load_override_def sample_source_def requiredTemplates_def sample_join
        sample_templates_def)
  show "pg_tmpl \<lparr>pg_tmpl = sample_templates, pg_hostname = ''h'', pg_serverName = ''n''\<rparr> = sample_templates"
    by simp
qed

end
