(* ===== verification/JsonText.thy ===== *)
theory JsonText
  imports Json "HOL-Library.List_Lexorder" "HOL-Library.Char_ord"
begin

text \<open>
  The text of JSON values: what \<open>json.Marshal\<close> and \<open>json.Encoder\<close> write for the maps, slices,
  strings and integers the program builds, and what \<open>json.Unmarshal\<close> leaves in a
  \<open>json.RawMessage\<close>. The lemmas relate both to the reader of theory Json: the written text of a
  value is read back as that value, and the raw text of an object's member is read as the
  member's value.
\<close>

section \<open>Go maps\<close>

text \<open>A \<open>map[string]any\<close> as an association list in the order of its keys, which is the order the
  encoder writes them in.\<close>

fun put :: "string \<Rightarrow> 'v \<Rightarrow> (string \<times> 'v) list \<Rightarrow> (string \<times> 'v) list" where
  "put k v [] = [(k, v)]"
| "put k v ((a, w) # m) =
     (if k < a then (k, v) # (a, w) # m else if k = a then (k, v) # m else (a, w) # put k v m)"

definition gomap :: "(string \<times> 'v) list \<Rightarrow> (string \<times> 'v) list" where
  "gomap kvs = foldl (\<lambda>m (k, v). put k v m) [] kvs"

abbreviation by_key :: "(string \<times> 'v) list \<Rightarrow> bool" where
  "by_key m \<equiv> sorted_wrt (<) (map fst m)"

lemma set_put_keys: "fst ` set (put k v m) = insert k (fst ` set m)"
  by (induction k v m rule: put.induct) auto

lemma by_key_put: "by_key m \<Longrightarrow> by_key (put k v m)"
proof (induction k v m rule: put.induct)
  case (2 k v a w m)
  have "fst ` set (put k v m) = insert k (fst ` set m)" by (rule set_put_keys)
  then have "\<forall>x \<in> set (map fst (put k v m)). x = k \<or> x \<in> fst ` set m" by auto
  with 2 show ?case by (fastforce simp: not_less_iff_gr_or_eq)
qed simp

lemma map_of_put: "map_of (put k v m) = (map_of m)(k \<mapsto> v)"
  by (induction k v m rule: put.induct) (auto simp: fun_eq_iff)

lemma by_key_distinct: "by_key m \<Longrightarrow> distinct (map fst m)"
  using strict_sorted_iff by auto

lemma gomap_snoc: "gomap (kvs @ [(k, v)]) = put k v (gomap kvs)"
  by (simp add: gomap_def)

lemma by_key_gomap: "by_key (gomap kvs)"
proof (induction kvs rule: rev_induct)
  case (snoc kv kvs)
  then show ?case by (cases kv) (simp add: gomap_snoc by_key_put)
qed (simp add: gomap_def)

lemma map_of_gomap: "map_of (gomap kvs) = map_of (rev kvs)"
proof (induction kvs rule: rev_induct)
  case (snoc kv kvs)
  then show ?case by (cases kv) (simp add: gomap_snoc map_of_put)
qed (simp add: gomap_def)

section \<open>Writing\<close>

fun encode_json :: "json \<Rightarrow> string" where
  "encode_json JNull = ''null''"
| "encode_json (JBool b) = (if b then ''true'' else ''false'')"
| "encode_json (JNum n) = n"
| "encode_json (JStr s) = json_quote s"
| "encode_json (JArr vs) = ''['' @ join '','' (map encode_json vs) @ '']''"
| "encode_json (JObj ms) =
     ''{'' @ join '','' (map (\<lambda>(k, v). json_quote k @ '':'' @ encode_json v) ms) @ ''}''"

text \<open>The values the round trip covers: ASCII strings, and integers as numbers.\<close>

definition int_text :: "string \<Rightarrow> bool" where
  "int_text n \<longleftrightarrow> (\<exists>i. 0 \<le> i \<and> n = itoa i)"

fun plain_json :: "json \<Rightarrow> bool" where
  "plain_json (JNum n) = int_text n"
| "plain_json (JStr s) = ascii s"
| "plain_json (JArr vs) = list_all plain_json vs"
| "plain_json (JObj ms) = list_all (\<lambda>(k, v). ascii k \<and> plain_json v) ms"
| "plain_json _ = True"

fun nesting :: "json \<Rightarrow> nat" where
  "nesting (JArr vs) = Suc (Max (set (0 # map nesting vs)))"
| "nesting (JObj ms) = Suc (Max (set (0 # map (\<lambda>(k, v). nesting v) ms)))"
| "nesting _ = 0"

section \<open>Reading back what was written\<close>

subsection \<open>Strings\<close>

lemma hex_digit_val: "n < 16 \<Longrightarrow> is_hex (hex_digit n) \<and> hex_val (hex_digit n) = n"
  by (auto simp: hex_digit_def is_hex_def hex_val_def is_digit_def byte_def)

lemma escape_cases:
  assumes "byte c < 128"
  obtains (safe) "json_safe c" "escape_char c = [c]"
  | (short) e where "escape_char c = [CHR 0x5C, e]" "unescape e = c" "e \<noteq> CHR ''u''"
      "e \<in> set [CHR 0x22, CHR 0x5C, CHR ''/'', CHR ''b'', CHR ''f'', CHR ''n'', CHR ''r'', CHR ''t'']"
  | (hex) a b where "escape_char c = [CHR 0x5C, CHR ''u'', CHR ''0'', CHR ''0'', a, b]"
      "list_all is_hex [CHR ''0'', CHR ''0'', a, b]" "hex4 [CHR ''0'', CHR ''0'', a, b] = byte c"
proof (cases "json_safe c")
  case True
  then show ?thesis using safe by (simp add: escape_char_def)
next
  case False
  show ?thesis
  proof (cases "c \<in> set [CHR 0x22, CHR 0x5C, CHR 0x08, CHR 0x0C, CHR 0x0A, CHR 0x0D, CHR 0x09]")
    case True
    then show ?thesis using False
      by (auto simp: escape_char_def unescape_def intro: short)
  next
    case c: False
    have d: "byte c div 16 < 16" "byte c mod 16 < 16" using assms by auto
    note h = hex_digit_val [OF d(1)] hex_digit_val [OF d(2)]
    have z: "is_hex (CHR ''0'')" "hex_val (CHR ''0'') = 0"
      by (simp_all add: is_hex_def hex_val_def is_digit_def byte_def)
    show ?thesis
      by (rule hex [of "hex_digit (byte c div 16)" "hex_digit (byte c mod 16)"])
         (use c False h z in \<open>simp_all add: escape_char_def hex4_def\<close>)
  qed
qed

lemma scan_string_escape:
  "byte c < 128 \<Longrightarrow>
     scan_string (escape_char c @ s) = map_option (\<lambda>(r, u). (escape_char c @ r, u)) (scan_string s)"
  by (erule escape_cases) (auto simp: json_safe_def split: option.splits)

lemma unquote_escape:
  assumes "byte c < 128"
  shows "unquote (escape_char c @ s) = c # unquote s"
  using assms
proof (cases rule: escape_cases)
  case safe
  then show ?thesis using assms by (simp add: json_safe_def) (subst unquote.simps, simp)
next
  case (short e)
  then have "getu4 (CHR 0x5C # e # s) = None" by (simp add: getu4_def)
  with short show ?thesis by simp (subst unquote.simps, simp)
next
  case (hex a b)
  have "getu4 (escape_char c @ s) = Some (byte c)" using hex by (simp add: getu4_def)
  moreover have "\<not> 0xD800 \<le> byte c" using assms by simp
  moreover have "encode_rune (byte c) = [c]" using assms by (simp add: encode_rune_def byte_def)
  ultimately show ?thesis using hex
    by (subst unquote.simps) simp
qed

lemma escape_ascii: "ascii s \<Longrightarrow> escape_string s = concat (map escape_char s)"
proof (induction s)
  case (Cons c s)
  then show ?case by (subst escape_string.simps) (simp add: ascii_def)
qed (subst escape_string.simps, simp)

lemma scan_string_ascii:
  "ascii s \<Longrightarrow> scan_string (escape_string s @ CHR 0x22 # rest) = Some (escape_string s, rest)"
  unfolding escape_ascii
  by (induction s) (simp_all add: ascii_def scan_string_escape)

lemma unquote_ascii: "ascii s \<Longrightarrow> unquote (escape_string s) = s"
  unfolding escape_ascii
proof (induction s)
  case Nil
  show ?case by (subst unquote.simps) simp
qed (simp add: ascii_def unquote_escape)

lemma tokens_quoted:
  assumes "ascii s"
  shows "tokens (json_quote s @ rest) = map_option (\<lambda>ts. TStr s # ts) (tokens rest)"
proof (rule tokens_Cons)
  show "next_token (json_quote s @ rest) = Some (TStr s, rest)"
    using assms
    by (simp add: json_quote_def next_token_def punctuation_def scan_string_ascii unquote_ascii)
qed (simp_all add: json_quote_def is_json_space_def)

subsection \<open>Values\<close>

fun commas :: "token list list \<Rightarrow> token list" where
  "commas [] = []"
| "commas [ts] = ts"
| "commas (ts # us # tss) = ts @ TComma # commas (us # tss)"

fun json_tokens :: "json \<Rightarrow> token list" where
  "json_tokens JNull = [TNull]"
| "json_tokens (JBool b) = [if b then TTrue else TFalse]"
| "json_tokens (JNum n) = [TNum n]"
| "json_tokens (JStr s) = [TStr s]"
| "json_tokens (JArr vs) = TLBrack # commas (map json_tokens vs) @ [TRBrack]"
| "json_tokens (JObj ms) = TLBrace # commas (map (\<lambda>(k, v). TStr k # TColon # json_tokens v) ms) @ [TRBrace]"

text \<open>Text that scans to given tokens, whatever follows it: a number has to be followed by something
  that ends it.\<close>

definition scans :: "string \<Rightarrow> token list \<Rightarrow> bool" where
  "scans s ts \<longleftrightarrow>
     (\<forall>rest. number_end rest \<longrightarrow> tokens (s @ rest) = map_option (\<lambda>us. ts @ us) (tokens rest))"

lemma scans_Nil: "scans [] []"
  by (simp add: scans_def option.map_ident)

lemma scans_punctuation:
  assumes "punctuation c = Some t" and "scans s ts"
  shows "scans (c # s) (t # ts)"
  using assms by (simp add: scans_def tokens_punctuation option.map_comp comp_def)

lemma scans_before:
  assumes "scans s ts" and "punctuation c = Some t" and "scans u us"
  shows "scans (s @ c # u) (ts @ t # us)"
proof -
  have "number_end (c # r)" for r
    using assms(2) by (auto simp: number_end_def punctuation_def is_digit_def byte_def split: if_splits)
  then show ?thesis
    using assms
    by (simp add: scans_def tokens_punctuation option.map_comp comp_def)
qed

lemma scans_token:
  "(\<And>rest. number_end rest \<Longrightarrow> tokens (s @ rest) = map_option (\<lambda>ts. t # ts) (tokens rest)) \<Longrightarrow> scans s [t]"
  by (simp add: scans_def)

lemma tokens_literal:
  assumes "scan_literal (s @ rest) = Some (t, rest)" and "s \<in> {''null'', ''true'', ''false''}"
  shows "tokens (s @ rest) = map_option (\<lambda>ts. t # ts) (tokens rest)"
  using assms
  by (intro tokens_Cons) (auto simp: next_token_def punctuation_def is_json_space_def is_digit_def byte_def)

lemmas punctuations = punctuation_def

lemma scans_join:
  assumes "list_all2 (\<lambda>s ts. scans s ts) ss tss" and "punctuation c = Some t"
  shows "scans (join '','' ss @ [c]) (commas tss @ [t])"
  using assms(1)
proof (induction ss tss rule: list_all2_induct)
  case Nil
  show ?case using scans_punctuation [OF assms(2) scans_Nil] by simp
next
  case (Cons s ss ts tss)
  show ?case
  proof (cases ss)
    case Nil
    then have "tss = []" using Cons.hyps(2) by simp
    with Nil show ?thesis using scans_before [OF Cons.hyps(1) assms(2) scans_Nil] by simp
  next
    case (Cons s' ss')
    then obtain ts' tss' where "tss = ts' # tss'" using Cons.hyps(2) by (cases tss) auto
    with Cons show ?thesis
      using scans_before [OF Cons.hyps(1) _ Cons.IH, of "CHR '',''" TComma] by (simp add: punctuation_def)
  qed
qed

lemma scans_encode: "plain_json v \<Longrightarrow> scans (encode_json v) (json_tokens v)"
proof (induction v)
  case (JNum n)
  then obtain i where "0 \<le> i" "n = itoa i" by (auto simp: int_text_def)
  then show ?case using tokens_itoa by (simp add: scans_def)
next
  case (JStr s)
  then show ?case using tokens_quoted by (simp add: scans_def)
next
  case (JArr vs)
  then have "list_all2 scans (map encode_json vs) (map json_tokens vs)"
    by (simp add: list_all2_map1 list_all2_map2 list_all2_same list_all_iff)
  from scans_punctuation [OF _ scans_join [OF this]] show ?case
    by (simp add: punctuation_def)
next
  case (JObj ms)
  have "scans (json_quote k @ '':'' @ encode_json v) (TStr k # TColon # json_tokens v)"
    if "(k, v) \<in> set ms" for k v
  proof -
    have "ascii k" "plain_json v" using JObj.prems that by (auto simp: list_all_iff)
    then have "scans (json_quote k) [TStr k]" "scans (encode_json v) (json_tokens v)"
      using tokens_quoted JObj.IH [OF that] by (auto simp: scans_def)
    from scans_before [OF this(1) _ this(2), of "CHR '':''" TColon] show ?thesis
      by (simp add: punctuation_def)
  qed
  then have "list_all2 scans (map (\<lambda>(k, v). json_quote k @ '':'' @ encode_json v) ms)
      (map (\<lambda>(k, v). TStr k # TColon # json_tokens v) ms)"
    by (auto simp: list_all2_map1 list_all2_map2 list_all2_same)
  from scans_punctuation [OF _ scans_join [OF this]] show ?case
    by (simp add: punctuation_def)
qed (auto intro!: scans_token tokens_literal simp: scan_literal_def)

lemma nesting_member:
  "v \<in> set vs \<Longrightarrow> nesting v < nesting (JArr vs)"
  "(k, v) \<in> set ms \<Longrightarrow> nesting v < nesting (JObj ms)"
proof -
  show "nesting v < nesting (JArr vs)" if "v \<in> set vs"
    using that by (auto simp: less_Suc_eq_le intro!: Max_ge)
  show "nesting v < nesting (JObj ms)" if "(k, v) \<in> set ms"
    using that by (auto simp: less_Suc_eq_le image_iff intro!: Max_ge bexI)
qed

lemma json_tokens_start:
  "read_tokens fs WantValueOrEnd (json_tokens v @ ts) = read_tokens fs WantValue (json_tokens v @ ts)"
  by (cases v) auto

lemma read_array:
  assumes "\<And>v fs ts. v \<in> set vs \<Longrightarrow> length fs \<le> n \<Longrightarrow>
      read_tokens fs WantValue (json_tokens v @ ts) = read_tokens fs (Have v) ts"
    and "length fs < n" and "n \<le> max_nesting" and "vs \<noteq> []"
  shows "read_tokens (FArr acc # fs) WantValue (commas (map json_tokens vs) @ TRBrack # ts)
       = read_tokens fs (Have (JArr (rev acc @ vs))) ts"
  using assms(1,4)
proof (induction vs arbitrary: acc)
  case (Cons v vs)
  have v: "read_tokens (FArr acc # fs) WantValue (json_tokens v @ us)
      = read_tokens (FArr acc # fs) (Have v) us" for us
    using assms(2) by (intro Cons.prems(1)) simp_all
  show ?case
  proof (cases vs)
    case Nil
    then show ?thesis using v [of "TRBrack # ts"] assms(2,3) by (simp add: depth_def)
  next
    case (Cons w ws)
    then have "read_tokens (FArr (v # acc) # fs) WantValue (commas (map json_tokens vs) @ TRBrack # ts)
        = read_tokens fs (Have (JArr (rev (v # acc) @ vs))) ts"
      by (intro Cons.IH Cons.prems(1)) simp_all
    with Cons show ?thesis
      using v [of "TComma # commas (map json_tokens vs) @ TRBrack # ts"] assms(2,3)
      by (simp add: depth_def)
  qed
qed simp

lemma read_object:
  assumes "\<And>m fs ts. m \<in> set ms \<Longrightarrow> length fs \<le> n \<Longrightarrow>
      read_tokens fs WantValue (json_tokens (snd m) @ ts) = read_tokens fs (Have (snd m)) ts"
    and "length fs < n" and "n \<le> max_nesting" and "ms \<noteq> []"
    and "st = (if acc = [] then WantKeyOrEnd else WantKey acc)"
  shows "read_tokens fs st (commas (map (\<lambda>(k, v). TStr k # TColon # json_tokens v) ms) @ TRBrace # ts)
       = read_tokens fs (Have (JObj (rev acc @ ms))) ts"
  using assms(1,4,5)
proof (induction ms arbitrary: acc st)
  case (Cons kv ms)
  obtain k v where kv: "kv = (k, v)" by (cases kv)
  have v: "read_tokens (FObj acc k # fs) WantValue (json_tokens v @ us)
      = read_tokens (FObj acc k # fs) (Have v) us" for us
    using Cons.prems(1) [of kv "FObj acc k # fs"] assms(2) kv by simp
  have start: "read_tokens fs st (TStr k # TColon # us) = read_tokens (FObj acc k # fs) WantValue us" for us
    using Cons.prems(3) assms(2,3) by (simp add: depth_def)
  show ?case
  proof (cases ms)
    case Nil
    then show ?thesis using v [of "TRBrace # ts"] start kv assms(2,3) by (simp add: depth_def)
  next
    case (Cons w ws)
    then have "read_tokens fs (WantKey (kv # acc))
          (commas (map (\<lambda>(k, v). TStr k # TColon # json_tokens v) ms) @ TRBrace # ts)
        = read_tokens fs (Have (JObj (rev (kv # acc) @ ms))) ts"
      by (intro Cons.IH Cons.prems(1)) simp_all
    with Cons show ?thesis
      using v [of "TComma # commas (map (\<lambda>(k, v). TStr k # TColon # json_tokens v) ms) @ TRBrace # ts"]
        start kv assms(2,3)
      by (simp add: depth_def)
  qed
qed simp

lemma read_json_tokens:
  "length fs + nesting v \<le> max_nesting \<Longrightarrow>
     read_tokens fs WantValue (json_tokens v @ ts) = read_tokens fs (Have v) ts"
proof (induction v arbitrary: fs ts)
  case (JArr vs)
  let ?n = "max_nesting - (nesting (JArr vs) - 1)"
  have lt: "length fs < ?n" using JArr.prems by simp
  have elem: "read_tokens gs WantValue (json_tokens v @ us) = read_tokens gs (Have v) us"
    if "v \<in> set vs" "length gs \<le> ?n" for v gs us
    using that nesting_member(1) [OF that(1)] JArr.prems by (intro JArr.IH) auto
  show ?case
  proof (cases vs)
    case Nil
    then show ?thesis using JArr.prems by (simp add: depth_def)
  next
    case (Cons w ws)
    have "read_tokens (FArr [] # fs) WantValueOrEnd (commas (map json_tokens vs) @ TRBrack # ts)
        = read_tokens (FArr [] # fs) WantValue (commas (map json_tokens vs) @ TRBrack # ts)"
      using Cons json_tokens_start by (cases ws) simp_all
    moreover have "read_tokens (FArr [] # fs) WantValue (commas (map json_tokens vs) @ TRBrack # ts)
        = read_tokens fs (Have (JArr vs)) ts"
      using read_array [where vs = vs and n = ?n and acc = "[]"] elem lt Cons by simp
    ultimately show ?thesis using JArr.prems by (simp add: depth_def)
  qed
next
  case (JObj ms)
  let ?n = "max_nesting - (nesting (JObj ms) - 1)"
  have lt: "length fs < ?n" using JObj.prems by simp
  have elem: "read_tokens gs WantValue (json_tokens v @ us) = read_tokens gs (Have v) us"
    if "(k, v) \<in> set ms" "length gs \<le> ?n" for k v gs us
    using that nesting_member(2) [OF that(1)] JObj.prems by (intro JObj.IH) auto
  show ?case
  proof (cases "ms = []")
    case True
    then show ?thesis using JObj.prems by (simp add: depth_def)
  next
    case False
    have "read_tokens fs WantKeyOrEnd
        (commas (map (\<lambda>(k, v). TStr k # TColon # json_tokens v) ms) @ TRBrace # ts)
        = read_tokens fs (Have (JObj ms)) ts"
      using read_object [where ms = ms and n = ?n and acc = "[]"] elem lt False by (simp add: split_paired_all)
    then show ?thesis using JObj.prems by (simp add: depth_def)
  qed
qed (simp_all add: depth_def)

theorem json_roundtrip:
  assumes "plain_json v" and "nesting v \<le> max_nesting"
  shows "json_parse (encode_json v) = Some v"
proof -
  have "tokens (encode_json v @ []) = map_option (\<lambda>us. json_tokens v @ us) (tokens [])"
    using scans_encode [OF assms(1)] by (simp only: scans_def number_end_def simp_thms)
  then have "tokens (encode_json v) = Some (json_tokens v)" by (simp add: tokens.simps [of "[]"])
  then show ?thesis using read_json_tokens [of "[]" v "[]"] assms(2) by (simp add: json_parse_def)
qed

subsection \<open>Values built as Go maps\<close>

lemma set_put: "set (put k v m) \<subseteq> insert (k, v) (set m)"
  by (induction k v m rule: put.induct) auto

lemma set_gomap: "set (gomap kvs) \<subseteq> set kvs"
proof (induction kvs rule: rev_induct)
  case (snoc kv kvs)
  then show ?case using set_put [of "fst kv" "snd kv" "gomap kvs"] by (cases kv) (auto simp: gomap_snoc)
qed (simp add: gomap_def)

lemma nesting_obj: "(\<And>k v. (k, v) \<in> set ms \<Longrightarrow> nesting v \<le> n) \<Longrightarrow> nesting (JObj ms) \<le> Suc n"
  by auto

lemma nesting_arr: "(\<And>v. v \<in> set vs \<Longrightarrow> nesting v \<le> n) \<Longrightarrow> nesting (JArr vs) \<le> Suc n"
  by auto

text \<open>Values that are read back, nested at most \<open>n\<close> deep.\<close>

definition fits :: "nat \<Rightarrow> json \<Rightarrow> bool" where
  "fits n v \<longleftrightarrow> plain_json v \<and> nesting v \<le> n"

lemma fits_scalar [simp]:
  "fits n (JStr s) = ascii s" "fits n (JNum t) = int_text t" "fits n (JBool b)" "fits n JNull"
  by (auto simp: fits_def)

lemma fits_JArr: "list_all (fits n) vs \<Longrightarrow> fits (Suc n) (JArr vs)"
  using nesting_arr [of vs n] by (auto simp: fits_def list_all_iff simp del: nesting.simps)

lemma fits_JObj: "list_all (\<lambda>(k, v). ascii k \<and> fits n v) ms \<Longrightarrow> fits (Suc n) (JObj ms)"
  using nesting_obj [of ms n] by (fastforce simp: fits_def list_all_iff simp del: nesting.simps)

lemma fits_gomap: "list_all (\<lambda>(k, v). ascii k \<and> fits n v) kvs \<Longrightarrow> fits (Suc n) (JObj (gomap kvs))"
  using set_gomap [of kvs] by (intro fits_JObj) (auto simp: list_all_iff)

lemma fits_members: "fits (Suc n) (JObj m) \<Longrightarrow> list_all (\<lambda>(k, v). ascii k \<and> fits n v) m"
  using nesting_member(2) [of _ _ m] by (fastforce simp: fits_def list_all_iff simp del: nesting.simps)

lemma fits_put:
  assumes "ascii k" and "fits n v" and "fits (Suc n) (JObj m)"
  shows "fits (Suc n) (JObj (put k v m))"
  using assms fits_members [OF assms(3)] set_put [of k v m]
  by (intro fits_JObj) (auto simp: list_all_iff)

lemma fits_mono: "fits n v \<Longrightarrow> n \<le> m \<Longrightarrow> fits m v"
  by (simp add: fits_def)

lemma fits_roundtrip: "fits max_nesting v \<Longrightarrow> json_parse (encode_json v) = Some v"
  by (simp add: fits_def json_roundtrip)

text \<open>The text of a value has no line break.\<close>

lemma escape_one_line: "byte c < 128 \<Longrightarrow> CHR 0x0A \<notin> set (escape_char c)"
  by (elim escape_cases) (auto simp: json_safe_def is_hex_def is_digit_def byte_def)

lemma quote_one_line: "ascii s \<Longrightarrow> CHR 0x0A \<notin> set (json_quote s)"
  using escape_one_line by (auto simp: json_quote_def escape_ascii ascii_def list_all_iff)

lemma join_one_line: "c \<notin> set sep \<Longrightarrow> (\<And>s. s \<in> set ss \<Longrightarrow> c \<notin> set s) \<Longrightarrow> c \<notin> set (join sep ss)"
  by (induction sep ss rule: join.induct) auto

lemma itoa_one_line: "CHR 0x0A \<notin> set (itoa i)"
proof -
  have "CHR 0x0A \<notin> set (nat_digits n)" for n
    using nat_digits_all [of n] by (auto simp: list_all_iff is_digit_def byte_def)
  then show ?thesis by (simp add: itoa_def)
qed

lemma encode_one_line: "plain_json v \<Longrightarrow> CHR 0x0A \<notin> set (encode_json v)"
proof (induction v)
  case (JArr vs)
  then show ?case using join_one_line [of "CHR 0x0A" "'',''" "map encode_json vs"]
    by (auto simp: list_all_iff)
next
  case (JObj ms)
  then have "CHR 0x0A \<notin> set (json_quote k @ '':'' @ encode_json v)" if "(k, v) \<in> set ms" for k v
    using that quote_one_line [of k] JObj.IH [OF that] by (auto simp: list_all_iff)
  then have "CHR 0x0A \<notin> set (join '','' (map (\<lambda>(k, v). json_quote k @ '':'' @ encode_json v) ms))"
    by (intro join_one_line) fastforce+
  then show ?case by simp
qed (auto simp: int_text_def itoa_one_line quote_one_line)

section \<open>Raw members\<close>

text \<open>The tokens of a text, each with the text from its first byte on and the text after it.\<close>

type_synonym span = "token \<times> string \<times> string"

function spans :: "string \<Rightarrow> span list option" where
  "spans s =
     (let t = dropWhile is_json_space s in
      if t = [] then Some []
      else (case next_token t of
              None \<Rightarrow> None
            | Some (tok, u) \<Rightarrow> map_option (\<lambda>ts. (tok, t, u) # ts) (spans u)))"
  by pat_completeness auto
termination
  by (relation "measure length")
     (auto dest!: next_token_shorter intro: order_less_le_trans simp: length_dropWhile_le)

declare spans.simps [simp del]

text \<open>\<open>d.skip()\<close>: reads one value and returns the text after it and the tokens left.\<close>

fun skip_tokens :: "frame list \<Rightarrow> rstate \<Rightarrow> span list \<Rightarrow> (string \<times> span list) option" where
  "skip_tokens fs st [] = None"
| "skip_tokens fs st ((t, a, u) # ts) =
     (case read_token fs st t of
        None \<Rightarrow> None
      | Some ([], Have v) \<Rightarrow> Some (u, ts)
      | Some (fs', st') \<Rightarrow> skip_tokens fs' st' ts)"

lemma skip_tokens_shorter: "skip_tokens fs st ts = Some (u, rest) \<Longrightarrow> length rest < length ts"
  by (induction fs st ts rule: skip_tokens.induct)
     (fastforce split: option.splits list.splits rstate.splits prod.splits)+

text \<open>The members of an object whose opening brace has been read, with the bytes of each value.\<close>

function raw_members :: "span list \<Rightarrow> (string \<times> string) list option" where
  "raw_members ts =
     (case ts of
        (TStr k, _) # (TColon, _) # (t, a, u) # more \<Rightarrow>
          (case skip_tokens [] WantValue ((t, a, u) # more) of
             None \<Rightarrow> None
           | Some (after, rest) \<Rightarrow>
               (let raw = take (length a - length after) a in
                case rest of
                  (TComma, _) # rest' \<Rightarrow> map_option (\<lambda>ms. (k, raw) # ms) (raw_members rest')
                | [(TRBrace, _)] \<Rightarrow> Some [(k, raw)]
                | _ \<Rightarrow> None))
      | _ \<Rightarrow> None)"
  by pat_completeness auto
termination
  by (relation "measure length") (auto dest!: skip_tokens_shorter)

declare raw_members.simps [simp del]

text \<open>\<open>json.Unmarshal\<close> into a \<open>map[string]json.RawMessage\<close>: the members in their order.\<close>

definition unmarshal_raw :: "string \<Rightarrow> (string \<times> string) list option" where
  "unmarshal_raw s =
     (case json_parse s of
        Some JNull \<Rightarrow> Some []
      | Some (JObj []) \<Rightarrow> Some []
      | Some (JObj _) \<Rightarrow> (case spans s of Some (_ # ts) \<Rightarrow> raw_members ts | _ \<Rightarrow> None)
      | _ \<Rightarrow> None)"

subsection \<open>Scanning a truncated text\<close>

lemma takeWhile_trunc:
  "takeWhile P (p @ z @ y) = p \<Longrightarrow> takeWhile P (p @ z) = p \<and> dropWhile P (p @ z) = z"
  by (induction p) (auto split: if_splits, (cases z; auto split: if_splits)+)

lemma HasPrefix1_trunc: "HasPrefix (z @ y) [c] = False \<Longrightarrow> HasPrefix z [c] = False"
  by (cases z) auto

lemma scan_string_split:
  "scan_string s = Some (r, u) \<Longrightarrow>
     s = r @ CHR 0x22 # u \<and> (\<forall>v. scan_string (r @ CHR 0x22 # v) = Some (r, v))"
proof (induction s arbitrary: r rule: scan_string.induct)
  case (2 c s)
  show ?case
  proof (cases "c = CHR 0x5C")
    case False
    then show ?thesis using 2 by (auto split: if_splits)
  next
    case c: True
    then obtain e t where s: "s = e # t" using 2(4) by (auto split: list.splits)
    show ?thesis
    proof (cases "e = CHR ''u''")
      case False
      then show ?thesis using 2(1) [OF _ c s] 2(4) c s by (auto split: if_splits)
    next
      case e: True
      obtain h1 h2 h3 h4 v where t: "t = h1 # h2 # h3 # h4 # v"
        using 2(4) c s e by (auto split: list.splits)
      then show ?thesis using 2(2) [OF _ c s _ e t] 2(4) c s e by (auto split: if_splits)
    qed
  qed
qed simp

lemma scan_int_trunc:
  "scan_int (p @ z @ y) = Some (p, z @ y) \<Longrightarrow> scan_int (p @ z) = Some (p, z)"
  using takeWhile_trunc [of is_digit p z y]
  by (cases p) (auto simp: scan_int_def split: if_splits)

lemma scan_frac_trunc:
  assumes "scan_frac (p @ z @ y) = Some (p, z @ y)"
  shows "scan_frac (p @ z) = Some (p, z)"
proof (cases p)
  case Nil
  then show ?thesis using assms HasPrefix1_trunc [of z y] by (auto simp: scan_frac_def split: if_splits)
next
  case (Cons c q)
  then show ?thesis using assms takeWhile_trunc [of is_digit q z y]
    by (auto simp: scan_frac_def split: if_splits)
qed

lemma scan_exp_trunc:
  assumes "scan_exp (p @ z @ y) = Some (p, z @ y)"
  shows "scan_exp (p @ z) = Some (p, z)"
proof (cases p)
  case Nil
  then show ?thesis using assms HasPrefix1_trunc [of z y]
    by (auto simp: scan_exp_def Let_def split: if_splits)
next
  case (Cons c q)
  then have c: "c = CHR ''e'' \<or> c = CHR ''E''"
    using assms by (auto simp: scan_exp_def Let_def split: if_splits)
  define sg where "sg = (HasPrefix (q @ z @ y) ''+'' \<or> HasPrefix (q @ z @ y) ''-'')"
  show ?thesis
  proof (cases sg)
    case True
    have "q \<noteq> []"
    proof
      assume "q = []"
      then have "[c] = take 2 (c # z @ y) @ takeWhile is_digit (drop 1 (z @ y))"
        "takeWhile is_digit (drop 1 (z @ y)) \<noteq> []"
        using assms Cons c True by (auto simp: scan_exp_def sg_def Let_def split: if_splits)
      from arg_cong [OF this(1), of length] this(2) show False by simp
    qed
    then obtain d ds where q: "q = d # ds" "d = CHR ''+'' \<or> d = CHR ''-''"
      using True by (cases q; auto simp: sg_def)
    then show ?thesis using assms Cons c True takeWhile_trunc [of is_digit ds z y]
      by (auto simp: scan_exp_def sg_def Let_def split: if_splits)
  next
    case False
    then have "\<not> (HasPrefix (q @ z) ''+'' \<or> HasPrefix (q @ z) ''-'')"
      by (cases "q @ z"; cases q; auto simp: sg_def)
    then show ?thesis using assms Cons c False takeWhile_trunc [of is_digit q z y]
      by (auto simp: scan_exp_def sg_def Let_def split: if_splits)
  qed
qed

lemma scan_number_trunc:
  assumes "scan_number s = Some (n, z @ y)"
  shows "s = n @ z @ y" "scan_number (n @ z) = Some (n, z)"
proof -
  obtain sg s1 ip s2 fr s3 ex where p: "scan_sign s = (sg, s1)" "scan_int s1 = Some (ip, s2)"
    "scan_frac s2 = Some (fr, s3)" "scan_exp s3 = Some (ex, z @ y)" "n = sg @ ip @ fr @ ex"
    using assms by (auto simp: scan_number_def split: prod.splits option.splits)
  have s: "s = sg @ s1" "s1 = ip @ s2" "ip \<noteq> []" "s2 = fr @ s3" "s3 = ex @ z @ y"
    using p scan_sign_append scan_int_append scan_frac_append scan_exp_append by blast+
  then show "s = n @ z @ y" using p by simp
  have t: "scan_int (ip @ fr @ ex @ z) = Some (ip, fr @ ex @ z)"
    "scan_frac (fr @ ex @ z) = Some (fr, ex @ z)" "scan_exp (ex @ z) = Some (ex, z)"
    using p s scan_int_trunc [of ip "fr @ ex @ z" y] scan_frac_trunc [of fr "ex @ z" y]
      scan_exp_trunc [of ex z y] by auto
  have "scan_sign (n @ z) = (sg, ip @ fr @ ex @ z)"
    using p(1,5) s by (cases ip) (auto simp: scan_sign_def split: if_splits)
  with t p(5) show "scan_number (n @ z) = Some (n, z)" by (simp add: scan_number_def)
qed

lemma next_token_trunc:
  assumes "next_token s = Some (t, z @ y)"
  shows "\<exists>p. s = p @ z @ y \<and> p \<noteq> [] \<and> hd p = hd s \<and> next_token (p @ z) = Some (t, z)"
proof -
  obtain c r where s: "s = c # r" using assms by (auto simp: next_token_def split: list.splits)
  show ?thesis
  proof (cases "punctuation c")
    case (Some tok)
    then show ?thesis using assms s by (intro exI [of _ "[c]"]) (simp add: next_token_def)
  next
    case pn: None
    consider "c = CHR 0x22" | "c \<noteq> CHR 0x22" "c = CHR ''-'' \<or> is_digit c"
      | "c \<noteq> CHR 0x22" "\<not> (c = CHR ''-'' \<or> is_digit c)" by blast
    then show ?thesis
    proof cases
      case 1
      with assms s pn obtain q where "scan_string r = Some (q, z @ y)" "t = TStr (unquote q)"
        by (auto simp: next_token_def)
      with scan_string_split [of r q "z @ y"] show ?thesis using 1 s pn
        by (intro exI [of _ "CHR 0x22 # q @ [CHR 0x22]"]) (simp add: next_token_def)
    next
      case 2
      with assms s pn obtain n where n: "scan_number s = Some (n, z @ y)" "t = TNum n"
        by (auto simp: next_token_def)
      note tr = scan_number_trunc [OF n(1)]
      have "n \<noteq> []" using scan_number_append [OF n(1)] by simp
      with tr s have "hd n = c" by (cases n) auto
      with tr \<open>n \<noteq> []\<close> 2 pn n(2) s show ?thesis
        by (intro exI [of _ n]) (cases n, auto simp: next_token_def)
    next
      case 3
      with assms s pn have l: "scan_literal s = Some (t, z @ y)" by (simp add: next_token_def)
      then obtain p where p: "s = p @ z @ y" "p \<noteq> []" "scan_literal (p @ z) = Some (t, z)"
        by (auto simp: scan_literal_def HasPrefix_iff split: if_splits)
      then have "hd p = c" using s by (cases p) auto
      with p 3 pn s show ?thesis by (intro exI [of _ p]) (cases p, auto simp: next_token_def)
    qed
  qed
qed

subsection \<open>The text of a run of tokens\<close>

lemma spans_tokens: "tokens s = map_option (map fst) (spans s)"
proof (induction s rule: spans.induct)
  case (1 s)
  then show ?case
    by (subst tokens.simps, subst spans.simps)
       (auto simp: Let_def option.map_comp comp_def split: option.splits)
qed

lemma tokens_space: "list_all is_json_space w \<Longrightarrow> tokens (w @ s) = tokens s"
proof -
  assume "list_all is_json_space w"
  then have "dropWhile is_json_space (w @ s) = dropWhile is_json_space s"
    by (induction w) auto
  then show ?thesis by (subst (1 2) tokens.simps) simp
qed

lemma tokens_blank: "list_all is_json_space w \<Longrightarrow> tokens w = Some []"
  using tokens_space [of w "[]"] by (simp add: tokens.simps [of "[]"])

text \<open>A run of tokens is read again from the text between the start of the first and the end of the
  last.\<close>

lemma spans_run:
  "spans s = Some (run @ rest) \<Longrightarrow> run \<noteq> [] \<Longrightarrow>
     \<exists>w p. s = w @ fst (snd (hd run)) \<and> fst (snd (hd run)) = p @ snd (snd (last run)) \<and>
       list_all is_json_space w \<and> p \<noteq> [] \<and>
       spans (snd (snd (last run))) = Some rest \<and> tokens p = Some (map fst run)"
proof (induction run arbitrary: s)
  case (Cons r run)
  let ?t = "dropWhile is_json_space s"
  obtain tok u where nt: "next_token ?t = Some (tok, u)" "?t \<noteq> []" and r: "r = (tok, ?t, u)"
    and su: "spans u = Some (run @ rest)"
    using Cons.prems(1) by (subst (asm) spans.simps) (auto simp: Let_def split: if_splits option.splits)
  have w: "s = takeWhile is_json_space s @ ?t" "list_all is_json_space (takeWhile is_json_space s)"
    by (simp, auto simp: list_all_iff dest: set_takeWhileD)
  have hdt: "\<not> is_json_space (hd ?t)" using nt(2) by (rule hd_dropWhile)
  show ?case
  proof (cases "run = []")
    case True
    obtain p where p: "?t = p @ u" "p \<noteq> []" "hd p = hd ?t" "next_token p = Some (tok, [])"
      using next_token_trunc [of ?t tok "[]" u] nt(1) by auto
    then have "tokens p = Some [tok]"
      using tokens_Cons [of p tok "[]"] hdt tokens_blank [of "[]"] by simp
    then show ?thesis using True r su w p
      by (intro exI [of _ "takeWhile is_json_space s"] exI [of _ p]) simp
  next
    case False
    then obtain v q where q: "u = v @ fst (snd (hd run))" "fst (snd (hd run)) = q @ snd (snd (last run))"
      "list_all is_json_space v" "q \<noteq> []" "spans (snd (snd (last run))) = Some rest"
      "tokens q = Some (map fst run)"
      using Cons.IH [OF su False] by blast
    let ?e = "snd (snd (last run))"
    obtain p where p: "?t = p @ (v @ q) @ ?e" "p \<noteq> []" "hd p = hd ?t"
      "next_token (p @ v @ q) = Some (tok, v @ q)"
      using next_token_trunc [of ?t tok "v @ q" ?e] nt(1) q(1,2) by auto
    have "hd (p @ v @ q) = hd ?t" using p(2,3) by simp
    then have "tokens (p @ v @ q) = Some (tok # map fst run)"
      using tokens_Cons [OF p(4)] p(2) hdt tokens_space [OF q(3)] q(6) by simp
    then show ?thesis using False r q w p
      by (intro exI [of _ "takeWhile is_json_space s"] exI [of _ "p @ v @ q"]) simp
  qed
qed simp

subsection \<open>The text of an object\<close>

text \<open>The text of an object, part by part: every member is a key, a colon and the text of its value,
  with white space between the parts only. The members are given with their value texts.\<close>

definition blank :: "string \<Rightarrow> bool" where
  "blank w \<longleftrightarrow> list_all is_json_space w"

definition value_text :: "string \<Rightarrow> bool" where
  "value_text r \<longleftrightarrow> r \<noteq> [] \<and> \<not> is_json_space (hd r) \<and> \<not> is_json_space (last r) \<and> json_parse r \<noteq> None"

definition member_text :: "string \<Rightarrow> string \<Rightarrow> string \<Rightarrow> bool" where
  "member_text a k r \<longleftrightarrow>
     (\<exists>w1 key w2 w3 w4. a = w1 @ key @ w2 @ '':'' @ w3 @ r @ w4 \<and> blank w1 \<and> blank w2 \<and> blank w3 \<and> blank w4 \<and>
        tokens key = Some [TStr k] \<and> value_text r)"

inductive members_text :: "string \<Rightarrow> (string \<times> string) list \<Rightarrow> bool" where
  last_member: "member_text a k r \<Longrightarrow> blank w \<Longrightarrow> members_text (a @ ''}'' @ w) [(k, r)]"
| next_member: "member_text a k r \<Longrightarrow> members_text b ms \<Longrightarrow> members_text (a @ '','' @ b) ((k, r) # ms)"

definition object_text :: "string \<Rightarrow> (string \<times> string) list \<Rightarrow> bool" where
  "object_text s rs \<longleftrightarrow> (\<exists>w b. s = w @ ''{'' @ b \<and> blank w \<and> members_text b rs)"

lemma spans_Nil: "spans s = Some [] \<Longrightarrow> blank s"
  by (subst (asm) spans.simps) (auto simp: Let_def blank_def dropWhile_eq_Nil_conv list_all_iff split: if_splits option.splits)

lemma spans_Cons:
  assumes "spans s = Some ((t, a, u) # ts)"
  shows "\<exists>w. s = w @ a \<and> blank w" and "a \<noteq> []" and "\<not> is_json_space (hd a)" and "next_token a = Some (t, u)" and "spans u = Some ts"
proof -
  from assms have a: "a = dropWhile is_json_space s" "a \<noteq> []" "next_token a = Some (t, u)" "spans u = Some ts"
    by (subst (asm) spans.simps, auto simp: Let_def split: if_splits option.splits)+
  have "s = takeWhile is_json_space s @ a" by (simp add: a(1))
  moreover have "blank (takeWhile is_json_space s)" by (auto simp: blank_def list_all_iff dest: set_takeWhileD)
  ultimately show "\<exists>w. s = w @ a \<and> blank w" by blast
  show "a \<noteq> []" "next_token a = Some (t, u)" "spans u = Some ts" by (fact a)+
  show "\<not> is_json_space (hd a)" using hd_dropWhile [of is_json_space s] a(1,2) by simp
qed

lemma punctuation_text:
  assumes "next_token a = Some (t, u)" and "punctuation c = Some t" and "t \<in> {TLBrace, TRBrace, TColon, TComma}"
  shows "a = c # u"
proof -
  obtain d r where a: "a = d # r" using assms(1) by (cases a) (auto simp: next_token_def)
  have "punctuation d = Some t"
  proof (cases "punctuation d")
    case (Some t')
    then show ?thesis using assms(1) a by (simp add: next_token_def)
  next
    case None
    then have "(\<exists>x. t = TStr x) \<or> (\<exists>x. t = TNum x) \<or> t \<in> {TNull, TTrue, TFalse}"
      using assms(1) a by (auto simp: next_token_def scan_literal_def simp del: HasPrefix.simps split: if_splits)
    with assms(3) show ?thesis by auto
  qed
  moreover have "d = c"
    using assms(2) calculation unfolding punctuation_def by (auto split: if_splits)
  ultimately show ?thesis using assms(1) a by (simp add: next_token_def)
qed

lemma number_chars: "scan_number s = Some (n, u) \<Longrightarrow> \<forall>c \<in> set n. \<not> is_json_space c"
proof -
  have d: "\<not> is_json_space c" if "is_digit c" for c
    using that by (auto simp: is_digit_def is_json_space_def byte_def)
  have t: "\<forall>c \<in> set (takeWhile is_digit x). \<not> is_json_space c" for x using d by (auto dest: set_takeWhileD)
  have sg: "scan_sign a = (p, b) \<Longrightarrow> \<forall>c \<in> set p. \<not> is_json_space c" for a p b
    by (auto simp: scan_sign_def is_json_space_def split: if_splits)
  have ip: "scan_int a = Some (p, b) \<Longrightarrow> \<forall>c \<in> set p. \<not> is_json_space c" for a p b
  proof -
    assume "scan_int a = Some (p, b)"
    then have "p = ''0'' \<or> p = takeWhile is_digit a" by (simp add: scan_int_def split: if_splits)
    then show ?thesis using t [of a] d [of "CHR ''0''"] by (auto simp: is_digit_def byte_def)
  qed
  have fr: "scan_frac a = Some (p, b) \<Longrightarrow> \<forall>c \<in> set p. \<not> is_json_space c" for a p b
  proof -
    assume "scan_frac a = Some (p, b)"
    then have "p = '''' \<or> p = CHR ''.'' # takeWhile is_digit (drop 1 a)" by (simp add: scan_frac_def split: if_splits)
    moreover have "\<not> is_json_space (CHR ''.'')" by (simp add: is_json_space_def)
    ultimately show ?thesis using t [of "drop 1 a"] by auto
  qed
  have ex: "scan_exp a = Some (p, b) \<Longrightarrow> \<forall>c \<in> set p. \<not> is_json_space c" for a p b
  proof -
    assume *: "scan_exp a = Some (p, b)"
    show ?thesis
    proof (cases "HasPrefix a ''e'' \<or> HasPrefix a ''E''")
      case True
      then obtain x y where a: "a = x # y" "x = CHR ''e'' \<or> x = CHR ''E''" by (auto simp: HasPrefix_single)
      show ?thesis
      proof (cases "HasPrefix y ''+'' \<or> HasPrefix y ''-''")
        case True
        then obtain z v where y: "y = z # v" "z = CHR ''+'' \<or> z = CHR ''-''" by (auto simp: HasPrefix_single)
        with * a have "p = x # z # takeWhile is_digit v" by (simp add: scan_exp_def Let_def split: if_splits)
        moreover have "\<not> is_json_space x" "\<not> is_json_space z" using a(2) y(2) by (auto simp: is_json_space_def)
        ultimately show ?thesis using t [of v] by auto
      next
        case False
        with * a have "p = x # takeWhile is_digit y" by (simp add: scan_exp_def Let_def split: if_splits)
        moreover have "\<not> is_json_space x" using a(2) by (auto simp: is_json_space_def)
        ultimately show ?thesis using t [of y] by auto
      qed
    qed (use * in \<open>auto simp: scan_exp_def\<close>)
  qed
  show "scan_number s = Some (n, u) \<Longrightarrow> ?thesis"
    by (auto simp: scan_number_def split: prod.splits option.splits dest!: sg ip fr ex)
qed

lemma token_end:
  assumes "next_token s = Some (t, u)"
  shows "\<exists>q. s = q @ u \<and> q \<noteq> [] \<and> \<not> is_json_space (last q)"
proof -
  obtain c r where s: "s = c # r" using assms by (cases s) (auto simp: next_token_def)
  show ?thesis
  proof (cases "punctuation c")
    case (Some tok)
    then have "\<not> is_json_space c" by (auto simp: punctuation_def is_json_space_def split: if_splits)
    with Some assms s show ?thesis by (intro exI [of _ "[c]"]) (simp add: next_token_def)
  next
    case pn: None
    consider "c = CHR 0x22" | "c \<noteq> CHR 0x22" "c = CHR ''-'' \<or> is_digit c"
      | "c \<noteq> CHR 0x22" "\<not> (c = CHR ''-'' \<or> is_digit c)" by blast
    then show ?thesis
    proof cases
      case 1
      with assms s pn obtain q where "scan_string r = Some (q, u)" by (auto simp: next_token_def)
      with scan_string_split [of r q u] show ?thesis using 1 s
        by (intro exI [of _ "CHR 0x22 # q @ [CHR 0x22]"]) (simp add: is_json_space_def)
    next
      case 2
      with assms s pn obtain n where n: "scan_number s = Some (n, u)" by (auto simp: next_token_def)
      with scan_number_append [OF n] number_chars [OF n] show ?thesis by (intro exI [of _ n]) simp
    next
      case 3
      with assms s pn have "scan_literal s = Some (t, u)" by (simp add: next_token_def)
      then have "s = ''null'' @ u \<or> s = ''true'' @ u \<or> s = ''false'' @ u"
        by (auto simp: scan_literal_def HasPrefix_iff split: if_splits)
      then show ?thesis
        by (elim disjE) (rule exI, erule conjI, simp add: is_json_space_def)+
    qed
  qed
qed

lemma spans_end:
  "spans s = Some (run @ rest) \<Longrightarrow> run \<noteq> [] \<Longrightarrow>
     \<exists>q. s = q @ snd (snd (last run)) \<and> q \<noteq> [] \<and> \<not> is_json_space (last q)"
proof (induction run arbitrary: s)
  case (Cons x run)
  obtain t a u where x: "x = (t, a, u)" by (cases x)
  note c = spans_Cons [OF Cons.prems(1) [unfolded x append_Cons]]
  obtain w where w: "s = w @ a" using c(1) by blast
  obtain q where q: "a = q @ u" "q \<noteq> []" "\<not> is_json_space (last q)" using token_end [OF c(4)] by blast
  show ?case
  proof (cases "run = []")
    case True
    with x w q show ?thesis by (intro exI [of _ "w @ q"]) simp
  next
    case False
    from Cons.IH [OF c(5) this] obtain p where "u = p @ snd (snd (last run))" "p \<noteq> []" "\<not> is_json_space (last p)" by blast
    with False x w q show ?thesis by (intro exI [of _ "w @ q @ p"]) simp
  qed
qed simp

subsection \<open>A value inside a larger text\<close>

text \<open>While a value is being read the frames below it do not matter.\<close>

definition inside :: "frame list \<Rightarrow> rstate \<Rightarrow> bool" where
  "inside fs st =
     (case st of Have _ \<Rightarrow> fs \<noteq> [] | WantValueOrEnd \<Rightarrow> fs \<noteq> [] \<and> hd fs = FArr [] | _ \<Rightarrow> True)"

lemma value_token_frames:
  "value_token (fs @ out) t = map_option (\<lambda>(g, s). (g @ out, s)) (value_token fs t)"
  by (cases t) auto

lemma read_token_frames:
  "inside fs st \<Longrightarrow>
     read_token (fs @ out) st t = map_option (\<lambda>(g, s). (g @ out, s)) (read_token fs st t)"
proof (cases st)
  case (Have v)
  assume "inside fs st"
  then obtain f gs where "fs = f # gs" using Have by (cases fs) (auto simp: inside_def)
  then show ?thesis using Have by (cases f; cases t) auto
next
  case WantValueOrEnd
  assume "inside fs st"
  then obtain gs where "fs = FArr [] # gs" using WantValueOrEnd by (cases fs) (auto simp: inside_def)
  then show ?thesis using WantValueOrEnd value_token_frames [of fs out t] by (cases t) auto
qed (cases t; auto simp: value_token_frames)+

lemma read_token_inside:
  "read_token fs st t = Some (fs', st') \<Longrightarrow> inside fs st \<Longrightarrow> inside fs' st' \<or> (fs' = [] \<and> (\<exists>v. st' = Have v))"
  by (induction fs st t rule: read_token.induct)
     (auto simp: inside_def split: rstate.splits, (case_tac t; auto simp: inside_def)+)

lemma skip_read:
  assumes "inside fs st" and "read_tokens (fs @ out) st (map fst ts) = Some v"
  shows "\<exists>w run rest. ts = run @ rest \<and> run \<noteq> [] \<and>
           skip_tokens fs st ts = Some (snd (snd (last run)), rest) \<and>
           read_tokens out (Have w) (map fst rest) = Some v \<and>
           read_tokens fs st (map fst run) = Some w"
  using assms
proof (induction ts arbitrary: fs st)
  case Nil
  then show ?case by (cases "fs @ out"; cases st) (auto simp: inside_def)
next
  case (Cons r ts)
  obtain t a u where r: "r = (t, a, u)" by (cases r)
  obtain fs' st' where rt: "read_token fs st t = Some (fs', st')"
    and dep: "\<not> max_nesting < depth (fs' @ out) st'"
    and nx: "read_tokens (fs' @ out) st' (map fst ts) = Some v"
    using Cons.prems r by (auto simp: read_token_frames split: option.splits if_splits)
  have d: "\<not> max_nesting < depth fs' st'" using dep by (simp add: depth_def)
  show ?case
  proof (cases "fs' = [] \<and> (\<exists>w. st' = Have w)")
    case True
    then show ?thesis using r rt nx d by (intro exI [of _ "THE w. st' = Have w"] exI [of _ "[r]"] exI [of _ ts]) auto
  next
    case False
    then have "inside fs' st'" using read_token_inside [OF rt Cons.prems(1)] by blast
    from Cons.IH [OF this nx] obtain w run rest where run: "ts = run @ rest" "run \<noteq> []"
      "skip_tokens fs' st' ts = Some (snd (snd (last run)), rest)"
      "read_tokens out (Have w) (map fst rest) = Some v" "read_tokens fs' st' (map fst run) = Some w"
      by blast
    have "skip_tokens fs st (r # ts) = skip_tokens fs' st' ts"
      using r rt False by (auto split: list.splits rstate.splits)
    then show ?thesis using r rt d run
      by (intro exI [of _ w] exI [of _ "r # run"] exI [of _ rest]) simp
  qed
qed

abbreviation same_member :: "string \<times> string \<Rightarrow> string \<times> json \<Rightarrow> bool" where
  "same_member r m \<equiv> fst r = fst m \<and> json_parse (snd r) = Some (snd m)"

lemma read_done: "read_tokens [] (Have w) ts = Some v \<Longrightarrow> ts = [] \<and> v = w"
  by (cases ts) auto

lemma read_key:
  assumes "read_tokens [] st (map fst ts) = Some v"
    and "st = WantKey acc \<or> (st = WantKeyOrEnd \<and> acc = [] \<and> fst (hd ts) \<noteq> TRBrace)"
  obtains k x y more where "ts = (TStr k, x) # (TColon, y) # more" "more \<noteq> []"
    "read_tokens [FObj acc k] WantValue (map fst more) = Some v"
proof -
  obtain t x ts1 where ts: "ts = (t, x) # ts1" using assms by (cases ts) auto
  obtain k where t: "t = TStr k" using assms ts by (cases t) (auto split: if_splits)
  then have 1: "read_tokens [] (WantColon acc k) (map fst ts1) = Some v"
    using assms ts by (auto split: if_splits)
  then obtain t' y more where ts1: "ts1 = (t', y) # more" by (cases ts1) auto
  with 1 have t': "t' = TColon" by (cases t') (auto split: if_splits)
  with 1 ts1 have 2: "read_tokens [FObj acc k] WantValue (map fst more) = Some v"
    by (auto split: if_splits)
  then have "more \<noteq> []" by auto
  with that ts t ts1 t' 2 show thesis by blast
qed

text \<open>The text of the first member of the rest of an object, and of a mark with what is before it.\<close>

lemma closing_text:
  assumes "spans s = Some ((t, z) # ts)" and "punctuation c = Some t" and "t \<in> {TLBrace, TRBrace, TColon, TComma}"
  shows "\<exists>w. s = w @ [c] @ snd z \<and> blank w \<and> spans (snd z) = Some ts"
proof -
  obtain a u where z: "z = (a, u)" by (cases z)
  note c = spans_Cons [OF assms(1) [unfolded z]]
  from c(1) punctuation_text [OF c(4) assms(2,3)] c(5) show ?thesis by (auto simp: z)
qed

lemma member_at:
  assumes "spans s = Some ((TStr k, x) # (TColon, y) # run @ rest)" and "run \<noteq> []"
    and "fst (snd (hd run)) = p @ snd (snd (last run))" and "json_parse p = Some v"
  shows "\<exists>a. s = a @ snd (snd (last run)) \<and> (\<forall>w4. blank w4 \<longrightarrow> member_text (a @ w4) k p)"
proof -
  let ?e = "snd (snd (last run))"
  obtain w1 key where k: "s = w1 @ fst x" "fst x = key @ snd x" "blank w1" "tokens key = Some [TStr k]"
    "spans (snd x) = Some ((TColon, y) # run @ rest)"
    using spans_run [of s "[(TStr k, x)]" "(TColon, y) # run @ rest"] assms(1) by (auto simp: blank_def)
  obtain w2 where c: "snd x = w2 @ '':'' @ snd y" "blank w2" "spans (snd y) = Some (run @ rest)"
    using closing_text [OF k(5), of "CHR '':''"] by (auto simp: punctuation_def)
  obtain t a u run' where r: "run = (t, a, u) # run'" using assms(2) by (cases run) auto
  note h = spans_Cons [OF c(3) [unfolded r append_Cons]]
  obtain w3 where w3: "snd y = w3 @ a" "blank w3" using h(1) by blast
  have a: "a = p @ ?e" using assms(3) r by simp
  obtain q where q: "snd y = q @ ?e" "q \<noteq> []" "\<not> is_json_space (last q)" using spans_end [OF c(3) assms(2)] by blast
  have "q = w3 @ p" using q(1) w3(1) a by simp
  moreover have "p \<noteq> []" using assms(4) by (auto simp: json_parse_def tokens_blank)
  ultimately have "value_text p" using q(3) h(2,3) a assms(4) by (auto simp: value_text_def)
  then have "member_text ((w1 @ key @ w2 @ '':'' @ w3 @ p) @ w4) k p" if "blank w4" for w4
    unfolding member_text_def using k(3,4) c(2) w3(2) that by (intro exI [of _ w1] exI [of _ key] exI [of _ w2] exI [of _ w3] exI [of _ w4]) simp
  moreover have "s = (w1 @ key @ w2 @ '':'' @ w3 @ p) @ ?e" using k(1,2) c(1) w3(1) a by simp
  ultimately show ?thesis by blast
qed

lemma raw_members_read:
  assumes "read_tokens [] st (map fst ts) = Some v" and "spans s = Some ts"
    and "st = WantKey acc \<or> (st = WantKeyOrEnd \<and> acc = [] \<and> fst (hd ts) \<noteq> TRBrace)"
  shows "\<exists>rs ms. raw_members ts = Some rs \<and> v = JObj (rev acc @ ms) \<and> list_all2 same_member rs ms \<and> members_text s rs"
  using assms
proof (induction ts arbitrary: st acc s rule: length_induct)
  case (1 ts)
  from 1(2,4) obtain k x y more where ts: "ts = (TStr k, x) # (TColon, y) # more" "more \<noteq> []"
    and m: "read_tokens [FObj acc k] WantValue (map fst more) = Some v" by (rule read_key)
  from skip_read [of "[]" WantValue "[FObj acc k]" more v] m
  obtain w run rest where run: "more = run @ rest" "run \<noteq> []"
    "skip_tokens [] WantValue more = Some (snd (snd (last run)), rest)"
    "read_tokens [FObj acc k] (Have w) (map fst rest) = Some v" "read_tokens [] WantValue (map fst run) = Some w"
    by (auto simp: inside_def)
  let ?e = "snd (snd (last run))"
  have "spans (snd y) = Some (run @ rest)"
    using spans_run [of s "[(TStr k, x), (TColon, y)]" more] 1(3) ts(1) run(1) by auto
  from spans_run [OF this run(2)] obtain p where p: "fst (snd (hd run)) = p @ ?e"
    "tokens p = Some (map fst run)" "spans ?e = Some rest" by blast
  have val: "json_parse p = Some w" using p(2) run(5) by (simp add: json_parse_def)
  obtain a0 where mt: "s = a0 @ ?e" "\<And>w4. blank w4 \<Longrightarrow> member_text (a0 @ w4) k p"
    using member_at [OF 1(3) [unfolded ts(1) run(1)] run(2) p(1) val] by blast
  obtain t a u more' where hd: "more = (t, a, u) # more'" "a = p @ ?e"
    using ts(2) run(1,2) p(1) by (cases more; cases run) auto
  have raw: "take (length a - length ?e) a = p" using hd(2) by simp
  obtain t' z rest' where rest: "rest = (t', z) # rest'" using run(4) by (cases rest) auto
  consider "t' = TComma" "read_tokens [] (WantKey ((k, w) # acc)) (map fst rest') = Some v"
    | "t' = TRBrace" "rest' = []" "v = JObj (rev ((k, w) # acc))"
    using run(4) rest by (cases t') (auto split: if_splits dest!: read_done)
  then show ?case
  proof cases
    case 1
    have "spans (snd z) = Some rest'" using spans_run [of ?e "[(t', z)]" rest'] p(3) rest by auto
    moreover have "length rest' < length ts" using ts(1) run(1) rest by simp
    ultimately obtain rs ms where r: "raw_members rest' = Some rs" "v = JObj (rev ((k, w) # acc) @ ms)"
      "list_all2 same_member rs ms" "members_text (snd z) rs"
      using 1 "1.IH" by blast
    obtain w4 where "?e = w4 @ '','' @ snd z" "blank w4"
      using closing_text [of ?e t' z rest' "CHR '',''"] p(3) rest 1(1) by (auto simp: punctuation_def)
    with mt next_member [of "a0 @ w4" k p "snd z" rs] r(4) have "members_text s ((k, p) # rs)" by simp
    then show ?thesis using ts(1) hd(1) run(3) rest 1(1) raw val r
      by (intro exI [of _ "(k, p) # rs"] exI [of _ "(k, w) # ms"]) (subst raw_members.simps, simp)
  next
    case 2
    obtain w4 where "?e = w4 @ ''}'' @ snd z" "blank w4" "blank (snd z)"
      using closing_text [of ?e t' z rest' "CHR 0x7D"] p(3) rest 2(1,2) spans_Nil by (auto simp: punctuation_def)
    with mt last_member [of "a0 @ w4" k p "snd z"] have "members_text s [(k, p)]" by simp
    with 2 show ?thesis using ts(1) hd(1) run(3) rest raw val
      by (intro exI [of _ "[(k, p)]"] exI [of _ "[(k, w)]"]) (subst raw_members.simps, simp)
  qed
qed

definition in_array :: "frame list \<Rightarrow> bool" where
  "in_array fs \<longleftrightarrow> fs \<noteq> [] \<and> (\<exists>vs. last fs = FArr vs)"

lemma value_token_in_array: "value_token fs t = Some (fs', st') \<Longrightarrow> in_array fs \<Longrightarrow> in_array fs'"
  by (cases t) (auto simp: in_array_def)

lemma read_token_in_array:
  "read_token fs st t = Some (fs', st') \<Longrightarrow> in_array fs \<Longrightarrow>
     in_array fs' \<or> (fs' = [] \<and> (\<exists>us. st' = Have (JArr us)))"
  by (induction fs st t rule: read_token.induct)
     (auto simp: in_array_def dest: value_token_in_array split: if_splits)

lemma read_in_array: "read_tokens fs st ts = Some v \<Longrightarrow> in_array fs \<Longrightarrow> \<exists>us. v = JArr us"
proof (induction ts arbitrary: fs st)
  case Nil
  then show ?case by (cases fs; cases st) (auto simp: in_array_def)
next
  case (Cons t ts)
  then obtain fs' st' where rt: "read_token fs st t = Some (fs', st')" "read_tokens fs' st' ts = Some v"
    by (auto split: option.splits if_splits)
  show ?case using read_token_in_array [OF rt(1) Cons.prems(2)]
  proof
    assume "in_array fs'"
    then show ?thesis using Cons.IH rt(2) by blast
  next
    assume "fs' = [] \<and> (\<exists>us. st' = Have (JArr us))"
    then show ?thesis using rt(2) by (auto dest: read_done)
  qed
qed

definition in_object :: "frame list \<Rightarrow> rstate \<Rightarrow> bool" where
  "in_object fs st \<longleftrightarrow>
     (if fs = [] then st = WantKeyOrEnd \<or> (\<exists>ms. st = WantKey ms) \<or> (\<exists>ms k. st = WantColon ms k)
      else \<exists>ms k. last fs = FObj ms k)"

lemma value_token_in_object:
  "value_token fs t = Some (fs', st') \<Longrightarrow> fs \<noteq> [] \<Longrightarrow> last fs = FObj ms k \<Longrightarrow> fs' \<noteq> [] \<and> last fs' = FObj ms k"
  by (cases t) auto

lemma read_token_in_object:
  "read_token fs st t = Some (fs', st') \<Longrightarrow> in_object fs st \<Longrightarrow>
     in_object fs' st' \<or> (fs' = [] \<and> (\<exists>ms. st' = Have (JObj ms)))"
  by (induction fs st t rule: read_token.induct)
     (auto simp: in_object_def dest: value_token_in_object split: if_splits)

lemma read_in_object: "read_tokens fs st ts = Some v \<Longrightarrow> in_object fs st \<Longrightarrow> \<exists>ms. v = JObj ms"
proof (induction ts arbitrary: fs st)
  case Nil
  then show ?case by (cases fs; cases st) (auto simp: in_object_def)
next
  case (Cons t ts)
  then obtain fs' st' where rt: "read_token fs st t = Some (fs', st')" "read_tokens fs' st' ts = Some v"
    by (auto split: option.splits if_splits)
  show ?case using read_token_in_object [OF rt(1) Cons.prems(2)]
  proof
    assume "in_object fs' st'"
    then show ?thesis using Cons.IH rt(2) by blast
  next
    assume "fs' = [] \<and> (\<exists>ms. st' = Have (JObj ms))"
    then show ?thesis using rt(2) by (auto dest: read_done)
  qed
qed

text \<open>The first token of a value tells its type.\<close>

fun json_type :: "json \<Rightarrow> string" where
  "json_type JNull = ''null''"
| "json_type (JBool _) = ''bool''"
| "json_type (JNum _) = ''number''"
| "json_type (JStr _) = ''string''"
| "json_type (JArr _) = ''array''"
| "json_type (JObj _) = ''object''"

fun token_type :: "token \<Rightarrow> string" where
  "token_type TNull = ''null''"
| "token_type TTrue = ''bool''"
| "token_type TFalse = ''bool''"
| "token_type (TNum _) = ''number''"
| "token_type (TStr _) = ''string''"
| "token_type TLBrack = ''array''"
| "token_type TLBrace = ''object''"
| "token_type _ = ''''"

lemma read_first_token:
  assumes "read_tokens [] WantValue (t # ts) = Some v"
  shows "json_type v = token_type t"
proof (cases t)
  case TLBrack
  with assms read_in_array [of "[FArr []]" WantValueOrEnd ts v] show ?thesis
    by (auto simp: in_array_def split: if_splits)
next
  case TLBrace
  with assms read_in_object [of "[]" WantKeyOrEnd ts v] show ?thesis
    by (auto simp: in_object_def split: if_splits)
qed (use assms in \<open>auto split: if_splits dest!: read_done\<close>)

lemma json_first_token:
  assumes "json_parse s = Some v"
  obtains t u where "dropWhile is_json_space s \<noteq> []" "next_token (dropWhile is_json_space s) = Some (t, u)"
    "token_type t = json_type v"
proof -
  obtain ts where ts: "tokens s = Some ts" "read_tokens [] WantValue ts = Some v"
    using assms by (auto simp: json_parse_def split: option.splits)
  moreover have "ts \<noteq> []" using ts(2) by auto
  ultimately obtain t u us where "dropWhile is_json_space s \<noteq> []"
    "next_token (dropWhile is_json_space s) = Some (t, u)" "ts = t # us"
    by (subst (asm) tokens.simps) (auto simp: Let_def split: if_splits option.splits)
  with that read_first_token ts(2) show thesis by metis
qed

text \<open>The raw members of an object are its members: the same names in the same order, each with its text
  in the object, which reads as the member's value.\<close>

theorem unmarshal_raw_members:
  assumes "json_parse s = Some (JObj ms)"
  shows "\<exists>rs. unmarshal_raw s = Some rs \<and> list_all2 same_member rs ms \<and> (ms = [] \<or> object_text s rs)"
proof (cases "ms = []")
  case True
  with assms show ?thesis by (simp add: unmarshal_raw_def)
next
  case False
  obtain sp where sp: "spans s = Some sp" and r: "read_tokens [] WantValue (map fst sp) = Some (JObj ms)"
    using assms by (auto simp: json_parse_def spans_tokens split: option.splits)
  obtain t x ts where ts: "sp = (t, x) # ts" using r by (cases sp) auto
  have "t \<noteq> TLBrack"
    using r ts read_in_array [of "[FArr []]" WantValueOrEnd "map fst ts"] by (auto simp: in_array_def split: if_splits)
  then have t: "t = TLBrace" using r ts by (cases t) (auto split: if_splits dest!: read_done)
  then have o: "read_tokens [] WantKeyOrEnd (map fst ts) = Some (JObj ms)"
    using r ts by (auto split: if_splits)
  have "fst (hd ts) \<noteq> TRBrace"
  proof
    assume "fst (hd ts) = TRBrace"
    with o False show False by (cases ts) (auto split: if_splits dest!: read_done)
  qed
  moreover have "spans (snd x) = Some ts" using spans_run [of s "[(t, x)]" ts] sp ts by auto
  ultimately obtain rs where rs: "raw_members ts = Some rs" "list_all2 same_member rs ms" "members_text (snd x) rs"
    using raw_members_read [OF o, of "snd x" "[]"] by auto
  obtain w0 where "s = w0 @ ''{'' @ snd x" "blank w0"
    using closing_text [of s t x ts "CHR 0x7B"] sp ts t by (auto simp: punctuation_def)
  then have "object_text s rs" using rs(3) by (auto simp: object_text_def)
  then show ?thesis using assms sp ts False rs
    by (intro exI [of _ rs]) (auto simp: unmarshal_raw_def split: list.splits)
qed

end
