(* ===== verification/OidcDebug.thy ===== *)
theory OidcDebug
  imports JsonText Callback
begin

text \<open>
  \<open>internal/callback/oidcdebug.go\<close>: the claim diagnostics an operator can switch on.

  An operation returns the records it hands to \<open>slog.Debug\<close>, each a message with its attributes in
  order. Three things are parameters: the texts of decoding errors, which depend on the decoded
  segment only, the rendering of a floating-point number by \<open>fmt.Sprint\<close>, and the outcome of
  reading the random source. The theorems state what the records tell about a token and what they
  cannot tell: its signature, and the identity header beyond its length and a salted hash prefix.
\<close>

section \<open>Records\<close>

record claim_info = \<comment> \<open>the \<open>map[string]any\<close> of one claim\<close>
  ci_type :: string
  ci_len :: nat
  ci_value :: string

datatype attr =
    AStr string
  | AInt nat
  | ABool bool
  | AHeader "(string \<times> string) list"
  | AClaims "(string \<times> claim_info) list"

datatype log_record = LogRecord (lr_msg: string) (lr_attrs: "(string \<times> attr) list")

record oidcDebugLogger =
  dl_salt :: string
  dl_textFormat :: bool

record oidc_headers = \<comment> \<open>what \<open>r.Header.Get\<close> returns for the three headers\<close>
  oh_data :: string
  oh_accesstoken :: string
  oh_identity :: string

record renderer = \<comment> \<open>texts made by the standard library\<close>
  rn_base64Error :: "string \<Rightarrow> string"
  rn_jsonError :: "string \<Rightarrow> string"
  rn_float :: "string \<Rightarrow> string"

definition oidcDebugValueCap :: nat where "oidcDebugValueCap = 2048"
definition oidcIdentityHashHexLen :: nat where "oidcIdentityHashHexLen = 16"

section \<open>Operations\<close>

definition newOIDCDebugLogger :: "string result \<Rightarrow> bool \<Rightarrow> string \<Rightarrow> oidcDebugLogger option result" where
  "newOIDCDebugLogger rand enabled logFormat =
     (if \<not> enabled then Ok None
      else (case rand of
          Inl err \<Rightarrow> Err (''oidc debug: generate salt: '' @ err)
        | Inr salt \<Rightarrow> Ok (Some \<lparr>dl_salt = salt, dl_textFormat = logFormat \<noteq> ''json''\<rparr>)))"

definition hex_EncodeToString :: "nat list \<Rightarrow> string" where
  "hex_EncodeToString bs = concat (map (\<lambda>b. [hex_digit (b div 16), hex_digit (b mod 16)]) bs)"

definition hashValue :: "oidcDebugLogger \<Rightarrow> string \<Rightarrow> string" where
  "hashValue l v =
     (if v = '''' then ''''
      else take oidcIdentityHashHexLen (hex_EncodeToString (sha256 (map byte (dl_salt l @ v)))))"

definition hashIdentity :: "oidcDebugLogger \<Rightarrow> string \<Rightarrow> string" where
  "hashIdentity l identity = hashValue l identity"

definition isJSONWhitespace :: "char \<Rightarrow> bool" where
  "isJSONWhitespace b \<longleftrightarrow> b = CHR 0x20 \<or> b = CHR 0x09 \<or> b = CHR 0x0D \<or> b = CHR 0x0A"

definition trimJSONWhitespace :: "string \<Rightarrow> string" where
  "trimJSONWhitespace raw =
     rev (dropWhile isJSONWhitespace (rev (dropWhile isJSONWhitespace raw)))"

definition describeJSONValue :: "string \<Rightarrow> string \<times> nat" where
  "describeJSONValue raw =
     (let trimmed = trimJSONWhitespace raw in
      case trimmed of
        [] \<Rightarrow> (''empty'', 0)
      | c # _ \<Rightarrow>
          (if c = CHR 0x22 then ''string''
           else if c = CHR 0x7B then ''object''
           else if c = CHR 0x5B then ''array''
           else if c = CHR ''t'' \<or> c = CHR ''f'' then ''bool''
           else if c = CHR ''n'' then ''null''
           else if is_digit c \<or> c = CHR ''-'' then ''number''
           else ''unknown'', length trimmed))"

definition capPayload :: "string \<Rightarrow> nat \<Rightarrow> string \<times> bool \<times> nat" where
  "capPayload raw maxBytes =
     (if length raw \<le> maxBytes then (raw, False, length raw)
      else (take maxBytes raw, True, length raw))"

definition truncationSuffix :: "nat \<Rightarrow> string" where
  "truncationSuffix totalBytes = ''<truncated,total_bytes='' @ itoa (int totalBytes) @ ''>''"

definition claimInfo :: "string \<Rightarrow> claim_info" where
  "claimInfo raw =
     (let (jsonType, valueLen) = describeJSONValue raw;
          (emitted, truncated, totalBytes) = capPayload raw oidcDebugValueCap
      in \<lparr>ci_type = jsonType, ci_len = valueLen,
          ci_value = (if truncated then emitted @ truncationSuffix totalBytes else emitted)\<rparr>)"

text \<open>The loop over the payload ranges over a map; its result is a map again.\<close>

definition buildClaimInfoMap :: "string \<Rightarrow> (string \<times> claim_info) list option" where
  "buildClaimInfoMap payloadBytes =
     map_option (\<lambda>payload. gomap (map (\<lambda>(name, raw). (name, claimInfo raw)) payload))
       (unmarshal_raw payloadBytes)"

text \<open>\<open>fmt.Sprint\<close> of a decoded JSON value.\<close>

fun go_sprint :: "(string \<Rightarrow> string) \<Rightarrow> json \<Rightarrow> string" where
  "go_sprint f JNull = ''<nil>''"
| "go_sprint f (JBool b) = (if b then ''true'' else ''false'')"
| "go_sprint f (JNum n) = f n"
| "go_sprint f (JStr s) = s"
| "go_sprint f (JArr vs) = ''['' @ join '' '' (map (go_sprint f) vs) @ '']''"
| "go_sprint f (JObj ms) =
     ''map['' @ join '' '' (map (\<lambda>(k, t). k @ '':'' @ t) (gomap (map (\<lambda>(k, v). (k, go_sprint f v)) ms))) @ '']''"

definition jsonScalarString :: "renderer \<Rightarrow> json \<Rightarrow> string" where
  "jsonScalarString rn v = (case v of JStr t \<Rightarrow> t | _ \<Rightarrow> go_sprint (rn_float rn) v)"

definition parseOIDCDebugJWTHeader :: "renderer \<Rightarrow> string \<Rightarrow> (string \<times> string) list option" where
  "parseOIDCDebugJWTHeader rn headerBytes =
     map_option
       (\<lambda>raw. gomap (concat (map (\<lambda>k. case fmlookup raw k of
                                         Some v \<Rightarrow> [(k, jsonScalarString rn v)] | None \<Rightarrow> [])
                                 [''kid'', ''alg'', ''signer'', ''typ''])))
       (unmarshal_map headerBytes)"

definition appendFlatHeaderAttrs ::
  "(string \<times> attr) list \<Rightarrow> (string \<times> string) list \<Rightarrow> (string \<times> attr) list" where
  "appendFlatHeaderAttrs attrs header =
     attrs @ concat (map (\<lambda>k. case map_of header k of Some v \<Rightarrow> [(''header_'' @ k, AStr v)] | None \<Rightarrow> [])
                         [''alg'', ''kid'', ''signer'', ''typ''])"

text \<open>\<open>json.Unmarshal\<close> into a \<open>string\<close>.\<close>

definition unmarshal_string :: "string \<Rightarrow> string option" where
  "unmarshal_string s =
     (case json_parse s of Some (JStr t) \<Rightarrow> Some t | Some JNull \<Rightarrow> Some '''' | _ \<Rightarrow> None)"

definition textClaimValue :: "claim_info \<Rightarrow> string" where
  "textClaimValue info =
     (if ci_type info \<noteq> ''string'' then ci_value info
      else (case unmarshal_string (ci_value info) of None \<Rightarrow> ci_value info | Some decoded \<Rightarrow> decoded))"

text \<open>The attributes of the JWT header: the error of either decoding, or what is shown of the header.\<close>

definition header_attrs ::
  "renderer \<Rightarrow> ((string \<times> attr) list \<Rightarrow> (string \<times> string) list \<Rightarrow> (string \<times> attr) list) \<Rightarrow>
   (string \<times> attr) list \<Rightarrow> string \<Rightarrow> (string \<times> attr) list" where
  "header_attrs rn shown attrs part =
     (case decodeBase64URL part of
        None \<Rightarrow> attrs @ [(''header_error'', AStr (rn_base64Error rn part))]
      | Some headerBytes \<Rightarrow>
          (case parseOIDCDebugJWTHeader rn headerBytes of
             None \<Rightarrow> attrs @ [(''header_error'', AStr (rn_jsonError rn headerBytes))]
           | Some header \<Rightarrow> shown attrs header))"

text \<open>The claims of the second segment, or the error text.\<close>

definition payload_claims :: "renderer \<Rightarrow> string \<Rightarrow> (string \<times> claim_info) list result" where
  "payload_claims rn part =
     (case decodeBase64URL part of
        None \<Rightarrow> Err (rn_base64Error rn part)
      | Some payloadBytes \<Rightarrow>
          (case buildClaimInfoMap payloadBytes of
             None \<Rightarrow> Err (rn_jsonError rn payloadBytes)
           | Some claims \<Rightarrow> Ok claims))"

definition logJWTFlat :: "renderer \<Rightarrow> string \<Rightarrow> string list \<Rightarrow> string \<Rightarrow> log_record list" where
  "logJWTFlat rn eventPrefix parts sid =
     LogRecord (eventPrefix @ ''_header'') (header_attrs rn appendFlatHeaderAttrs [(''sid'', AStr sid)] (parts ! 0)) #
     (case payload_claims rn (parts ! 1) of
        Inl err \<Rightarrow> [LogRecord eventPrefix [(''sid'', AStr sid), (''payload_error'', AStr err)]]
      | Inr claims \<Rightarrow>
          concat (map (\<lambda>name.
              case map_of claims name of
                None \<Rightarrow> []
              | Some info \<Rightarrow>
                  [LogRecord (eventPrefix @ ''_claim'')
                     [(''sid'', AStr sid), (''name'', AStr name), (''type'', AStr (ci_type info)),
                      (''value'', AStr (textClaimValue info))]])
            (sort (map fst claims))))"

definition logJWT :: "renderer \<Rightarrow> oidcDebugLogger \<Rightarrow> string \<Rightarrow> string \<Rightarrow> string \<Rightarrow> log_record list" where
  "logJWT rn l eventPrefix token sid =
     (let parts = Split token (CHR ''.'') in
      if length parts \<noteq> 3 then
        [LogRecord eventPrefix
           [(''sid'', AStr sid), (''token_error'', AStr ''not three dot-separated segments''),
            (''segments'', AInt (length parts))]]
      else if dl_textFormat l then logJWTFlat rn eventPrefix parts sid
      else
        (let attrs = header_attrs rn (\<lambda>attrs header. attrs @ [(''header'', AHeader header)])
                       [(''sid'', AStr sid)] (parts ! 0)
         in (case payload_claims rn (parts ! 1) of
               Inl err \<Rightarrow> [LogRecord eventPrefix (attrs @ [(''payload_error'', AStr err)])]
             | Inr claims \<Rightarrow> [LogRecord eventPrefix (attrs @ [(''claims'', AClaims claims)])])))"

definition debug_Log :: "renderer \<Rightarrow> oidcDebugLogger option \<Rightarrow> oidc_headers \<Rightarrow> string \<Rightarrow> log_record list" where
  "debug_Log rn lg r sid =
     (case lg of
        None \<Rightarrow> []
      | Some l \<Rightarrow>
          LogRecord ''oidc_debug_headers''
            [(''sid'', AStr sid),
             (''oidc_data_present'', ABool (oh_data r \<noteq> '''')),
             (''oidc_data_len'', AInt (length (oh_data r))),
             (''accesstoken_present'', ABool (oh_accesstoken r \<noteq> '''')),
             (''accesstoken_len'', AInt (length (oh_accesstoken r))),
             (''identity_present'', ABool (oh_identity r \<noteq> '''')),
             (''identity_len'', AInt (length (oh_identity r))),
             (''identity_hash'', AStr (hashIdentity l (oh_identity r)))] #
          (if oh_data r \<noteq> '''' then logJWT rn l ''oidc_debug_data'' (oh_data r) sid else [])
          @ (if oh_accesstoken r \<noteq> '''' then logJWT rn l ''oidc_debug_accesstoken'' (oh_accesstoken r) sid
             else []))"

section \<open>What the records say of a claim\<close>

lemma isJSONWhitespace_space: "isJSONWhitespace = is_json_space"
  by (auto simp: isJSONWhitespace_def is_json_space_def)

lemma trimJSONWhitespace_first:
  assumes "dropWhile is_json_space raw = c # r"
  shows "\<exists>q. trimJSONWhitespace raw = c # q"
proof -
  have "\<not> is_json_space c" using hd_dropWhile [of is_json_space raw] assms by simp
  then have "dropWhile is_json_space (rev r @ [c]) = dropWhile is_json_space (rev r) @ [c]"
    by (induction "rev r") (simp_all add: dropWhile_append)
  then show ?thesis using assms by (simp add: trimJSONWhitespace_def isJSONWhitespace_space)
qed

lemma scan_literal_first:
  "scan_literal (c # r) = Some (t, u) \<Longrightarrow>
     (c, t) \<in> {(CHR ''n'', TNull), (CHR ''t'', TTrue), (CHR ''f'', TFalse)}"
  by (auto simp: scan_literal_def split: if_splits)

definition first_type :: "char \<Rightarrow> string" where
  "first_type c =
     (if c = CHR 0x22 then ''string'' else if c = CHR 0x7B then ''object'' else if c = CHR 0x5B then ''array''
      else if c = CHR ''t'' \<or> c = CHR ''f'' then ''bool'' else if c = CHR ''n'' then ''null''
      else if is_digit c \<or> c = CHR ''-'' then ''number'' else ''unknown'')"

lemma describe_first: "trimJSONWhitespace raw = c # q \<Longrightarrow> fst (describeJSONValue raw) = first_type c"
  by (simp add: describeJSONValue_def first_type_def)

lemma first_type_punctuation:
  assumes "punctuation c = Some t" and "token_type t \<noteq> ''''"
  shows "first_type c = token_type t"
proof -
  have "(c, t) \<in> set [(CHR 0x7B, TLBrace), (CHR 0x7D, TRBrace), (CHR 0x5B, TLBrack),
      (CHR 0x5D, TRBrack), (CHR '':'', TColon), (CHR '','', TComma)]"
    using assms(1) unfolding punctuation_def by (rule map_of_SomeD)
  then have "(c, t) = (CHR 0x7B, TLBrace) \<or> (c, t) = (CHR 0x5B, TLBrack)"
    using assms(2) by auto
  then show ?thesis by (elim disjE) (simp_all add: first_type_def)
qed

lemma first_type_token:
  assumes "next_token (c # r) = Some (t, u)" and "token_type t \<noteq> ''''"
  shows "first_type c = token_type t"
proof (cases "punctuation c")
  case (Some tok)
  then have "t = tok" using assms(1) by (simp add: next_token_def)
  with Some assms(2) show ?thesis by (simp add: first_type_punctuation)
next
  case None
  consider "c = CHR 0x22" | "c \<noteq> CHR 0x22" "c = CHR ''-'' \<or> is_digit c"
    | "c \<noteq> CHR 0x22" "\<not> (c = CHR ''-'' \<or> is_digit c)" by blast
  then show ?thesis
  proof cases
    case 1
    then have "\<exists>x. t = TStr x" using assms(1) None by (auto simp: next_token_def)
    with 1 show ?thesis by (auto simp: first_type_def)
  next
    case 2
    then have "\<exists>x. t = TNum x" using assms(1) None by (auto simp: next_token_def)
    then have "token_type t = ''number''" by (elim exE) simp
    moreover have "c \<notin> {CHR 0x7B, CHR 0x5B, CHR ''t'', CHR ''f'', CHR ''n''}"
      using 2(2) by (auto simp: is_digit_def byte_def)
    ultimately show ?thesis using 2 by (simp add: first_type_def disj_commute)
  next
    case 3
    then have "scan_literal (c # r) = Some (t, u)" using assms(1) None by (simp add: next_token_def)
    from scan_literal_first [OF this] show ?thesis
      by (elim insertE emptyE) (simp_all add: first_type_def)
  qed
qed

text \<open>The reported type is the type of the value.\<close>

lemma describe_type: "json_parse raw = Some v \<Longrightarrow> fst (describeJSONValue raw) = json_type v"
proof (elim json_first_token)
  fix t u
  assume t: "dropWhile is_json_space raw \<noteq> []" "next_token (dropWhile is_json_space raw) = Some (t, u)"
    "token_type t = json_type v"
  obtain c r where c: "dropWhile is_json_space raw = c # r" using t(1) by (cases "dropWhile is_json_space raw") auto
  have "token_type t \<noteq> ''''" using t(3) by (cases v) auto
  then show ?thesis
    using first_type_token [of c r t u] describe_first trimJSONWhitespace_first [OF c] t(2,3) c by auto
qed

lemma map_of_map_snd: "map_of (map (\<lambda>(k, v). (k, f v)) xs) k = map_option f (map_of xs k)"
  by (induction xs) auto

lemma trimmed_value:
  assumes "value_text raw"
  shows "trimJSONWhitespace raw = raw"
proof -
  have s: "isJSONWhitespace c = is_json_space c" for c by (auto simp: isJSONWhitespace_def is_json_space_def)
  obtain c r where c: "raw = c # r" using assms by (cases raw) (auto simp: value_text_def)
  have "rev raw = last raw # rev (butlast raw)" using c append_butlast_last_id [of raw] by (metis list.distinct(1) rev.simps(2) rev_rev_ident rev_append append_Cons append_Nil rev_singleton_conv)
  then show ?thesis using assms c by (simp add: trimJSONWhitespace_def s value_text_def)
qed

lemma members_value_text: "members_text s rs \<Longrightarrow> (k, r) \<in> set rs \<Longrightarrow> value_text r"
  by (induction rule: members_text.induct) (auto simp: member_text_def)

lemma describe_length: "value_text raw \<Longrightarrow> snd (describeJSONValue raw) = length raw"
  by (simp add: describeJSONValue_def trimmed_value Let_def split: list.splits)

text \<open>
  C38: The diagnostics of a payload describe every claim once and truthfully. Let a payload be a JSON
  object with members \<open>ms\<close>, and \<open>rs\<close> the same members with the text each value has in the payload.
  Every claim name in it, and no other, has an entry; with duplicate names the last value counts, as
  in the decoded claims. The entry's type is the type of the claim's value, its length is that of the
  value's text, and its value is this text, byte for byte, cut after 2048 bytes with a marker giving
  the full length.
\<close>

theorem claim_info_faithful:
  assumes "json_parse payloadBytes = Some (JObj ms)"
  shows "\<exists>rs claims. list_all2 same_member rs ms \<and> (ms = [] \<or> object_text payloadBytes rs) \<and>
           buildClaimInfoMap payloadBytes = Some claims \<and> sorted (map fst claims) \<and>
           (\<forall>name. case map_of (rev rs) name of
              None \<Rightarrow> map_of claims name = None
            | Some raw \<Rightarrow> \<exists>v. json_parse raw = Some v \<and>
                map_of claims name = Some \<lparr>ci_type = json_type v, ci_len = length raw,
                  ci_value = (if length raw \<le> 2048 then raw
                              else take 2048 raw @ ''<truncated,total_bytes='' @ itoa (int (length raw)) @ ''>'')\<rparr>)"
proof -
  obtain rs where rs: "unmarshal_raw payloadBytes = Some rs" "list_all2 same_member rs ms"
    "ms = [] \<or> object_text payloadBytes rs"
    using unmarshal_raw_members [OF assms] by blast
  let ?c = "gomap (map (\<lambda>(name, raw). (name, claimInfo raw)) rs)"
  have look: "map_of ?c name = map_option claimInfo (map_of (rev rs) name)" for name
    by (simp add: map_of_gomap rev_map map_of_map_snd)
  have "sorted (map fst ?c)" using by_key_gomap by (rule strict_sorted_imp_sorted)
  moreover have "case map_of (rev rs) name of
      None \<Rightarrow> map_of ?c name = None
    | Some raw \<Rightarrow> \<exists>v. json_parse raw = Some v \<and>
        map_of ?c name = Some \<lparr>ci_type = json_type v, ci_len = length raw,
          ci_value = (if length raw \<le> 2048 then raw
                      else take 2048 raw @ ''<truncated,total_bytes='' @ itoa (int (length raw)) @ ''>'')\<rparr>" for name
  proof (cases "map_of (rev rs) name")
    case None
    then show ?thesis using look by simp
  next
    case (Some raw)
    then have m: "(name, raw) \<in> set rs" using map_of_SomeD by fastforce
    then have "ms \<noteq> []" using rs(2) by auto
    with rs(3) m have "value_text raw" by (auto simp: object_text_def dest: members_value_text)
    moreover obtain v where v: "json_parse raw = Some v"
      using \<open>value_text raw\<close> by (auto simp: value_text_def)
    ultimately have "claimInfo raw = \<lparr>ci_type = json_type v, ci_len = length raw,
        ci_value = (if length raw \<le> 2048 then raw
                    else take 2048 raw @ ''<truncated,total_bytes='' @ itoa (int (length raw)) @ ''>'')\<rparr>"
      using describe_type [OF v] describe_length [of raw]
      by (cases "describeJSONValue raw") (simp add: claimInfo_def capPayload_def truncationSuffix_def oidcDebugValueCap_def)
    with Some look v show ?thesis by simp
  qed
  ultimately show ?thesis using rs by (intro exI [of _ rs] exI [of _ ?c]) (simp add: buildClaimInfoMap_def)
qed

section \<open>What the records cannot say\<close>

text \<open>The part of a token the diagnostics depend on: its length, the number of its segments, and the
  first two of three segments; and what they depend on of the identity header: its length and the
  first eight bytes of the SHA-256 digest of the salt followed by it.\<close>

definition token_view :: "string \<Rightarrow> nat \<times> nat \<times> string list" where
  "token_view t =
     (let parts = Split t (CHR ''.'') in (length t, length parts, if length parts = 3 then take 2 parts else []))"

definition identity_view :: "oidcDebugLogger \<Rightarrow> string \<Rightarrow> nat \<times> nat list" where
  "identity_view l i = (length i, take 8 (sha256 (map byte (dl_salt l @ i))))"

lemma hex_prefix: "take (2 * n) (hex_EncodeToString bs) = hex_EncodeToString (take n bs)"
proof (induction bs arbitrary: n)
  case (Cons b bs)
  then show ?case by (cases n) (simp_all add: hex_EncodeToString_def)
qed (simp add: hex_EncodeToString_def)

lemma hash_view:
  assumes "identity_view l i = identity_view l i'"
  shows "hashIdentity l i = hashIdentity l i'"
proof -
  have "hashIdentity l v = (if length v = 0 then '''' else hex_EncodeToString (take 8 (sha256 (map byte (dl_salt l @ v)))))" for v
    using hex_prefix [of 8] by (simp add: hashIdentity_def hashValue_def oidcIdentityHashHexLen_def)
  moreover from assms have "length i = length i'" "take 8 (sha256 (map byte (dl_salt l @ i))) = take 8 (sha256 (map byte (dl_salt l @ i')))"
    unfolding identity_view_def by (simp_all only: prod.inject)
  ultimately show ?thesis by presburger
qed

lemma logJWT_view:
  assumes "token_view t = token_view t'"
  shows "logJWT rn l p t sid = logJWT rn l p t' sid"
proof -
  let ?a = "Split t (CHR ''.'')" and ?b = "Split t' (CHR ''.'')"
  have len: "length ?a = length ?b" using assms by (simp add: token_view_def Let_def)
  show ?thesis
  proof (cases "length ?a = 3")
    case False
    then show ?thesis using len by (simp add: logJWT_def Let_def)
  next
    case True
    then have "take 2 ?a = take 2 ?b" using assms len by (simp add: token_view_def Let_def)
    then have "?a ! 0 = ?b ! 0" "?a ! 1 = ?b ! 1"
      using nth_take [of 0 2 ?a] nth_take [of 0 2 ?b] nth_take [of 1 2 ?a] nth_take [of 1 2 ?b] by simp_all
    then show ?thesis using len True by (simp add: logJWT_def logJWTFlat_def Let_def)
  qed
qed

text \<open>
  C29: The diagnostics never give away a credential. Two requests whose tokens differ only in their
  signature segments, of the same length, and whose identity headers have the same length and agree
  in the first eight bytes of their salted SHA-256 digest, produce exactly the same records, in both log formats. So nothing that
  is logged depends on a signature, without which a token cannot be presented, nor on the identity
  beyond its length and hash prefix.
\<close>

theorem debug_log_hides_secrets:
  assumes "token_view (oh_data r) = token_view (oh_data r')"
    and "token_view (oh_accesstoken r) = token_view (oh_accesstoken r')"
    and "identity_view l (oh_identity r) = identity_view l (oh_identity r')"
  shows "debug_Log rn (Some l) r sid = debug_Log rn (Some l) r' sid"
proof -
  have len: "length (oh_data r) = length (oh_data r')" "length (oh_accesstoken r) = length (oh_accesstoken r')"
    "length (oh_identity r) = length (oh_identity r')"
    using assms by (simp_all add: token_view_def identity_view_def Let_def)
  then have "oh_data r = '''' \<longleftrightarrow> oh_data r' = ''''"
    "oh_accesstoken r = '''' \<longleftrightarrow> oh_accesstoken r' = ''''" "oh_identity r = '''' \<longleftrightarrow> oh_identity r' = ''''"
    by (metis length_0_conv)+
  then show ?thesis
    using len logJWT_view [OF assms(1)] logJWT_view [OF assms(2)] hash_view [OF assms(3)]
    by (simp add: debug_Log_def)
qed

text \<open>A request with a token of three segments, differing in the last.\<close>

definition sample_headers :: "string \<Rightarrow> oidc_headers" where
  "sample_headers sig = \<lparr>oh_data = ''eyJraWQiOiJrIn0.eyJzdWIiOiJ1In0.'' @ sig, oh_accesstoken = '''',
     oh_identity = ''u''\<rparr>"

lemma sample_token_views:
  "token_view (oh_data (sample_headers ''c2ln'')) = token_view (oh_data (sample_headers ''Zm9v''))"
  by (simp add: token_view_def sample_headers_def)

theorem debug_log_hides_secrets_witness:
  "\<forall>rn. debug_Log rn (Some \<lparr>dl_salt = ''salt'', dl_textFormat = True\<rparr>) (sample_headers ''c2ln'') ''s''
       = debug_Log rn (Some \<lparr>dl_salt = ''salt'', dl_textFormat = True\<rparr>) (sample_headers ''Zm9v'') ''s''"
proof
  fix rn
  show "debug_Log rn (Some \<lparr>dl_salt = ''salt'', dl_textFormat = True\<rparr>) (sample_headers ''c2ln'') ''s''
       = debug_Log rn (Some \<lparr>dl_salt = ''salt'', dl_textFormat = True\<rparr>) (sample_headers ''Zm9v'') ''s''"
    by (rule debug_log_hides_secrets [OF sample_token_views]) (simp_all add: sample_headers_def)
qed

lemma payload_claims_by_key: "payload_claims rn p = Ok claims \<Longrightarrow> by_key claims"
  by (auto simp: payload_claims_def buildClaimInfoMap_def by_key_gomap split: option.splits)

lemma claims_in_order:
  assumes "by_key claims"
  shows "concat (map (\<lambda>name. case map_of claims name of None \<Rightarrow> [] | Some info \<Rightarrow> [f name info])
           (sort (map fst claims))) = map (\<lambda>(name, info). f name info) claims"
proof -
  have "sort (map fst claims) = map fst claims"
    using assms by (intro sorted_sort_id strict_sorted_imp_sorted)
  moreover have "map_of claims name = Some info" if "(name, info) \<in> set claims" for name info
    using that by_key_distinct [OF assms] by (rule map_of_is_SomeI [rotated])
  then have "concat (map (\<lambda>name. case map_of claims name of None \<Rightarrow> [] | Some info \<Rightarrow> [f name info])
      (map fst xs)) = map (\<lambda>(name, info). f name info) xs" if "set xs \<subseteq> set claims" for xs
    using that by (induction xs) auto
  ultimately show ?thesis by simp
qed

text \<open>
  The two log formats report the same claims. For a token of three segments whose payload decodes,
  the text format writes one header record and then one record per claim, in the order of the
  claim names, with the type and the value that the aggregate record of the JSON format holds for
  that claim; a string value is shown unquoted.
\<close>

theorem log_formats_agree:
  assumes "Split token (CHR ''.'') = [h, p, s]" and "payload_claims rn p = Ok claims"
  shows "\<exists>hdr attrs. logJWT rn \<lparr>dl_salt = salt, dl_textFormat = True\<rparr> ev token sid =
             LogRecord (ev @ ''_header'') hdr #
             map (\<lambda>(name, info). LogRecord (ev @ ''_claim'')
                [(''sid'', AStr sid), (''name'', AStr name), (''type'', AStr (ci_type info)),
                 (''value'', AStr (textClaimValue info))]) claims \<and>
           logJWT rn \<lparr>dl_salt = salt, dl_textFormat = False\<rparr> ev token sid =
             [LogRecord ev (attrs @ [(''claims'', AClaims claims)])] \<and>
           sorted_wrt (<) (map fst claims)"
  using assms claims_in_order [OF payload_claims_by_key [OF assms(2)]] payload_claims_by_key [OF assms(2)]
  by (simp add: logJWT_def logJWTFlat_def)

section \<open>Examples\<close>

definition sample_payload :: string where "sample_payload = ''eyJhIjoxfQ''"

definition sample_claims :: "(string \<times> claim_info) list" where
  "sample_claims = [(''a'', \<lparr>ci_type = ''number'', ci_len = 1, ci_value = ''1''\<rparr>)]"

definition sample_text :: string where
  "sample_text = [CHR 0x7B, CHR 0x22, CHR ''a'', CHR 0x22, CHR 0x3A, CHR ''1'', CHR 0x7D]"

lemma sample_parse: "json_parse sample_text = Some (JObj [(''a'', JNum ''1'')])"
proof -
  have "tokens sample_text = Some [TLBrace, TStr ''a'', TColon, TNum ''1'', TRBrace]" by code_simp
  then show ?thesis by (simp add: json_parse_def depth_def max_nesting_def)
qed

lemma sample_decode: "decodeBase64URL sample_payload = Some sample_text"
  by code_simp

lemma sample_build: "buildClaimInfoMap sample_text = Some sample_claims"
proof -
  have "(case spans sample_text of Some (_ # ts) \<Rightarrow> raw_members ts | _ \<Rightarrow> None) = Some [(''a'', ''1'')]"
    by code_simp
  then have "unmarshal_raw sample_text = Some [(''a'', ''1'')]"
    by (simp add: unmarshal_raw_def sample_parse)
  moreover have "describeJSONValue ''1'' = (''number'', 1)" by code_simp
  ultimately show ?thesis
    by (simp add: buildClaimInfoMap_def sample_claims_def gomap_def claimInfo_def capPayload_def
        oidcDebugValueCap_def)
qed

theorem claim_info_faithful_witness:
  "\<exists>rs claims. list_all2 same_member rs [(''a'', JNum ''1'')] \<and> object_text sample_text rs \<and>
     buildClaimInfoMap sample_text = Some claims \<and> sorted (map fst claims)"
  using claim_info_faithful [OF sample_parse] by (auto simp: list_all2_Cons2)

theorem log_formats_agree_witness:
  "\<forall>rn. \<exists>hdr attrs.
     logJWT rn \<lparr>dl_salt = ''x'', dl_textFormat = True\<rparr> ''ev'' (''e30.'' @ sample_payload @ ''.c2ln'') ''s'' =
       LogRecord (''ev'' @ ''_header'') hdr #
       map (\<lambda>(name, info). LogRecord (''ev'' @ ''_claim'')
          [(''sid'', AStr ''s''), (''name'', AStr name), (''type'', AStr (ci_type info)),
           (''value'', AStr (textClaimValue info))]) sample_claims \<and>
     logJWT rn \<lparr>dl_salt = ''x'', dl_textFormat = False\<rparr> ''ev'' (''e30.'' @ sample_payload @ ''.c2ln'') ''s'' =
       [LogRecord ''ev'' (attrs @ [(''claims'', AClaims sample_claims)])] \<and>
     sorted_wrt (<) (map fst sample_claims)"
proof (rule allI, rule log_formats_agree)
  show "Split (''e30.'' @ sample_payload @ ''.c2ln'') (CHR ''.'') = [''e30'', sample_payload, ''c2ln'']"
    by code_simp
  show "payload_claims rn sample_payload = Ok sample_claims" for rn
    by (simp add: payload_claims_def sample_decode sample_build)
qed

end
