(* ===== verification/Emf.thy ===== *)
theory Emf
  imports JsonText Handler
begin

text \<open>
  \<open>internal/metrics/emf.go\<close>: metrics as CloudWatch embedded-metric-format records, one JSON object
  per line on a writer.

  The handler and the callback server record their metrics as effects; here each metric is the line
  it writes. The writer is a parameter that may refuse a line: the refusal is logged and the record
  lost. The theorems show that the records are what CloudWatch can extract metrics from.
\<close>

section \<open>Operations\<close>

record emitter =
  em_instanceID :: string
  em_out :: string \<comment> \<open>what has been written\<close>
  em_warnings :: "string list" \<comment> \<open>errors of the writer, logged\<close>

type_synonym writer = "string \<Rightarrow> string option" \<comment> \<open>the error for a line, if any\<close>

definition NewEmitter :: "string \<Rightarrow> emitter" where
  "NewEmitter instanceID = \<lparr>em_instanceID = instanceID, em_out = '''', em_warnings = []\<rparr>"

definition emit_payload :: "writer \<Rightarrow> (string \<times> json) list \<Rightarrow> emitter \<Rightarrow> emitter" where
  "emit_payload w payload e =
     (let line = encode_json (JObj payload) @ [CHR 0x0A] in
      case w line of
        Some err \<Rightarrow> e\<lparr>em_warnings := em_warnings e @ [err]\<rparr>
      | None \<Rightarrow> e\<lparr>em_out := em_out e @ line\<rparr>)"

definition UnixMilli :: "gotime \<Rightarrow> int" where
  "UnixMilli t = i64 (t div 1000000)"

definition boolToInt :: "bool \<Rightarrow> int" where
  "boolToInt v = (if v then 1 else 0)"

definition JInt :: "int \<Rightarrow> json" where "JInt i = JNum (itoa i)"

definition metric_decl :: "string \<Rightarrow> string \<Rightarrow> json" where
  "metric_decl name unit = JObj (gomap [(''Name'', JStr name), (''Unit'', JStr unit)])"

definition aws_metadata :: "gotime \<Rightarrow> string list \<Rightarrow> json list \<Rightarrow> json" where
  "aws_metadata now dims metrics =
     JObj (gomap
       [(''Timestamp'', JInt (UnixMilli now)),
        (''CloudWatchMetrics'', JArr [JObj (gomap
           [(''Namespace'', JStr ''VPNAuth''),
            (''Dimensions'', JArr [JArr (map JStr dims)]),
            (''Metrics'', JArr metrics)])])])"

definition Heartbeat :: "writer \<Rightarrow> gotime \<Rightarrow> bool \<Rightarrow> int \<Rightarrow> emitter \<Rightarrow> emitter" where
  "Heartbeat w now socketConnected storedSessions e =
     emit_payload w
       (gomap
         [(''_aws'', aws_metadata now [''InstanceId'']
             [metric_decl ''SocketConnected'' ''None'', metric_decl ''StoredSessions'' ''Count'']),
          (''InstanceId'', JStr (em_instanceID e)),
          (''SocketConnected'', JInt (boolToInt socketConnected)),
          (''StoredSessions'', JInt storedSessions)]) e"

text \<open>A second timestamp is taken when there is a reason.\<close>

definition counter :: "writer \<Rightarrow> gotime \<Rightarrow> gotime \<Rightarrow> string \<Rightarrow> string \<Rightarrow> emitter \<Rightarrow> emitter" where
  "counter w now now2 name reason e =
     (let payload = gomap
            [(''_aws'', aws_metadata now [''InstanceId''] [metric_decl name ''Count'']),
             (''InstanceId'', JStr (em_instanceID e)),
             (name, JInt 1)];
          payload = (if reason \<noteq> '''' then
              put ''Reason'' (JStr reason)
                (put ''_aws'' (aws_metadata now2 [''InstanceId'', ''Reason''] [metric_decl name ''Count'']) payload)
            else payload)
      in emit_payload w payload e)"

fun metric_name :: "metric \<Rightarrow> string" where
  "metric_name (AuthAttempt _) = ''AuthAttempt''"
| "metric_name AuthSuccess = ''AuthSuccess''"
| "metric_name (AuthDenied _) = ''AuthDenied''"
| "metric_name ReauthSuccess = ''ReauthSuccess''"
| "metric_name (ReauthDenied _) = ''ReauthDenied''"
| "metric_name ReauthCacheHit = ''ReauthCacheHit''"
| "metric_name CallbackReceived = ''CallbackReceived''"
| "metric_name (CallbackRejected _) = ''CallbackRejected''"
| "metric_name (TokenExchangeError _) = ''TokenExchangeError''"
| "metric_name (SessionExpired _) = ''SessionExpired''"

fun metric_reason :: "metric \<Rightarrow> string" where
  "metric_reason (AuthAttempt r) = r"
| "metric_reason (AuthDenied r) = r"
| "metric_reason (ReauthDenied r) = r"
| "metric_reason (CallbackRejected r) = r"
| "metric_reason (TokenExchangeError r) = r"
| "metric_reason (SessionExpired r) = r"
| "metric_reason _ = ''''"

definition record_metric :: "writer \<Rightarrow> gotime \<Rightarrow> gotime \<Rightarrow> metric \<Rightarrow> emitter \<Rightarrow> emitter" where
  "record_metric w now now2 m e = counter w now now2 (metric_name m) (metric_reason m) e"

section \<open>What CloudWatch extracts\<close>

fun member :: "string \<Rightarrow> json \<Rightarrow> json option" where
  "member k (JObj ms) = map_of ms k"
| "member k _ = None"

fun elements :: "json option \<Rightarrow> json list" where
  "elements (Some (JArr vs)) = vs"
| "elements _ = []"

fun is_number :: "json option \<Rightarrow> bool" where
  "is_number (Some (JNum _)) = True"
| "is_number _ = False"

fun is_string :: "json option \<Rightarrow> bool" where
  "is_string (Some (JStr _)) = True"
| "is_string _ = False"

text \<open>The members a directive names as metrics, and as dimensions.\<close>

definition directives :: "json \<Rightarrow> json list" where
  "directives v = elements (case member ''_aws'' v of Some a \<Rightarrow> member ''CloudWatchMetrics'' a | None \<Rightarrow> None)"

definition names_in :: "json list \<Rightarrow> string list" where
  "names_in vs = concat (map (\<lambda>v. case v of JStr s \<Rightarrow> [s] | _ \<Rightarrow> []) vs)"

definition metric_names :: "json \<Rightarrow> string list" where
  "metric_names v =
     concat (map (\<lambda>d. names_in (concat (map (\<lambda>m. case member ''Name'' m of Some n \<Rightarrow> [n] | None \<Rightarrow> [])
                                              (elements (member ''Metrics'' d))))) (directives v))"

definition dimension_names :: "json \<Rightarrow> string list" where
  "dimension_names v =
     concat (map (\<lambda>d. concat (map (\<lambda>ds. names_in (elements (Some ds))) (elements (member ''Dimensions'' d))))
                 (directives v))"

definition emf_record :: "json \<Rightarrow> bool" where
  "emf_record v \<longleftrightarrow>
     is_number (case member ''_aws'' v of Some a \<Rightarrow> member ''Timestamp'' a | None \<Rightarrow> None) \<and>
     metric_names v \<noteq> [] \<and>
     list_all (\<lambda>n. is_number (member n v)) (metric_names v) \<and>
     list_all (\<lambda>n. is_string (member n v)) (dimension_names v)"

lemma member_put [simp]: "member k (JObj (put a v m)) = (if k = a then Some v else member k (JObj m))"
  by (simp add: map_of_put)

lemma member_gomap [simp]: "member k (JObj (gomap kvs)) = map_of (rev kvs) k"
  by (simp add: map_of_gomap)

declare member.simps(1) [simp del]

lemma metadata_members:
  "member ''Timestamp'' (aws_metadata now dims ms) = Some (JInt (UnixMilli now))"
  "member ''CloudWatchMetrics'' (aws_metadata now dims ms) =
     Some (JArr [JObj (gomap [(''Namespace'', JStr ''VPNAuth''), (''Dimensions'', JArr [JArr (map JStr dims)]),
                              (''Metrics'', JArr ms)])])"
  by (simp_all add: aws_metadata_def)

lemma names_in_JStr [simp]: "names_in (map JStr ss) = ss"
  by (induction ss) (simp_all add: names_in_def)

lemma names_of_record:
  assumes "member ''_aws'' v = Some (aws_metadata now dims (map (\<lambda>(n, u). metric_decl n u) decls))"
  shows "metric_names v = map fst decls" and "dimension_names v = dims"
proof -
  have "names_in (concat (map (\<lambda>m. case member ''Name'' m of Some n \<Rightarrow> [n] | None \<Rightarrow> [])
      (map (\<lambda>(n, u). metric_decl n u) decls))) = map fst decls"
    by (induction decls) (auto simp: metric_decl_def names_in_def)
  then show "metric_names v = map fst decls" "dimension_names v = dims"
    using assms by (simp_all add: metric_names_def dimension_names_def directives_def metadata_members)
qed

lemma record_members:
  assumes "member ''_aws'' v = Some (aws_metadata now dims (map (\<lambda>(n, u). metric_decl n u) decls))"
    and "decls \<noteq> []" and "\<And>n u. (n, u) \<in> set decls \<Longrightarrow> is_number (member n v)"
    and "\<And>n. n \<in> set dims \<Longrightarrow> is_string (member n v)"
  shows "emf_record v"
  using assms names_of_record [OF assms(1)]
  by (auto simp: emf_record_def metadata_members JInt_def list_all_iff)

lemmas ascii_simps = ascii_def byte_def

lemma fits_JInt: "0 \<le> i \<Longrightarrow> fits n (JInt i)"
  by (auto simp: JInt_def int_text_def)

lemma fits_metric_decl: "ascii n \<Longrightarrow> ascii u \<Longrightarrow> fits 1 (metric_decl n u)"
  unfolding metric_decl_def One_nat_def by (rule fits_gomap) (simp add: ascii_simps)

lemma fits_metadata:
  assumes "0 \<le> UnixMilli now" and "list_all ascii dims" and "list_all (\<lambda>(n, u). ascii n \<and> ascii u) decls"
  shows "fits 5 (aws_metadata now dims (map (\<lambda>(n, u). metric_decl n u) decls))"
proof -
  let ?m = "map (\<lambda>(n, u). metric_decl n u) decls"
  have "list_all (fits 1) ?m" using assms(3) fits_metric_decl by (fastforce simp: list_all_iff)
  from fits_JArr [OF this] have m: "fits 2 (JArr ?m)" by (simp add: numeral_2_eq_2)
  have d: "fits 2 (JArr [JArr (map JStr dims)])"
    unfolding numeral_2_eq_2 using assms(2) by (intro fits_JArr) (simp add: fits_JArr list_all_iff)
  let ?dir = "[(''Namespace'', JStr ''VPNAuth''), (''Dimensions'', JArr [JArr (map JStr dims)]),
    (''Metrics'', JArr ?m)]"
  have "fits 3 (JObj (gomap ?dir))"
    unfolding numeral_3_eq_3 by (rule fits_gomap) (use m d in \<open>simp add: ascii_simps numeral_2_eq_2\<close>)
  then have "fits 4 (JArr [JObj (gomap ?dir)])"
    using fits_JArr [of 3 "[JObj (gomap ?dir)]"] by simp
  moreover have "fits 4 (JInt (UnixMilli now))" using assms(1) by (rule fits_JInt)
  ultimately have "fits (Suc 4) (aws_metadata now dims ?m)"
    unfolding aws_metadata_def by (intro fits_gomap) (simp add: ascii_simps)
  then show ?thesis by simp
qed

text \<open>A payload that fits is one line that is read back as the payload.\<close>

lemma emit_line:
  assumes "fits 6 (JObj payload)" and "\<And>l. w l = None"
  shows "\<exists>line. em_out (emit_payload w payload e) = em_out e @ line @ [CHR 0x0A] \<and>
           CHR 0x0A \<notin> set line \<and> json_parse line = Some (JObj payload)"
proof (intro exI conjI)
  show "em_out (emit_payload w payload e) = em_out e @ encode_json (JObj payload) @ [CHR 0x0A]"
    using assms(2) by (simp add: emit_payload_def)
  show "CHR 0x0A \<notin> set (encode_json (JObj payload))"
    using assms(1) encode_one_line unfolding fits_def by blast
  show "json_parse (encode_json (JObj payload)) = Some (JObj payload)"
    using fits_mono [OF assms(1)] by (intro fits_roundtrip) (simp add: max_nesting_def)
qed

lemma metric_name_ok:
  "ascii (metric_name m)" "metric_name m \<noteq> ''_aws''" "metric_name m \<noteq> ''InstanceId''" "metric_name m \<noteq> ''Reason''"
  by (cases m; simp add: ascii_simps)+

text \<open>The payload of a metric.\<close>

definition metric_payload :: "gotime \<Rightarrow> gotime \<Rightarrow> metric \<Rightarrow> string \<Rightarrow> (string \<times> json) list" where
  "metric_payload now now2 m instanceID =
     (let payload = gomap
            [(''_aws'', aws_metadata now [''InstanceId''] [metric_decl (metric_name m) ''Count'']),
             (''InstanceId'', JStr instanceID), (metric_name m, JInt 1)]
      in if metric_reason m = '''' then payload
         else put ''Reason'' (JStr (metric_reason m))
                (put ''_aws'' (aws_metadata now2 [''InstanceId'', ''Reason''] [metric_decl (metric_name m) ''Count''])
                   payload))"

lemma record_metric_payload:
  "record_metric w now now2 m e = emit_payload w (metric_payload now now2 m (em_instanceID e)) e"
  by (simp add: record_metric_def counter_def metric_payload_def Let_def)

lemma metric_payload_members:
  assumes "v = JObj (metric_payload now now2 m i)"
  shows "member ''_aws'' v = Some (aws_metadata (if metric_reason m = '''' then now else now2)
           (if metric_reason m = '''' then [''InstanceId''] else [''InstanceId'', ''Reason''])
           (map (\<lambda>(n, u). metric_decl n u) [(metric_name m, ''Count'')]))"
    and "member ''InstanceId'' v = Some (JStr i)" and "member (metric_name m) v = Some (JInt 1)"
    and "metric_reason m \<noteq> '''' \<Longrightarrow> member ''Reason'' v = Some (JStr (metric_reason m))"
  using metric_name_ok [of m] unfolding assms by (simp_all add: metric_payload_def Let_def)

lemma fits_metric_payload:
  assumes "ascii i" and "ascii (metric_reason m)" and "0 \<le> UnixMilli now" and "0 \<le> UnixMilli now2"
  shows "fits 6 (JObj (metric_payload now now2 m i))"
proof -
  have md: "fits 5 (aws_metadata t dims [metric_decl (metric_name m) ''Count''])"
    if "0 \<le> UnixMilli t" "list_all ascii dims" for t dims
    using fits_metadata [OF that, of "[(metric_name m, ''Count'')]"] metric_name_ok(1) [of m]
    by (simp add: ascii_simps)
  have one: "fits 5 (JInt 1)" by (rule fits_JInt) simp
  let ?p = "gomap [(''_aws'', aws_metadata now [''InstanceId''] [metric_decl (metric_name m) ''Count'']),
             (''InstanceId'', JStr i), (metric_name m, JInt 1)]"
  have p: "fits (Suc 5) (JObj ?p)"
    using md [OF assms(3)] one assms(1) metric_name_ok(1) [of m] by (intro fits_gomap) (simp add: ascii_simps)
  moreover have "fits (Suc 5) (JObj (put ''Reason'' (JStr (metric_reason m))
      (put ''_aws'' (aws_metadata now2 [''InstanceId'', ''Reason''] [metric_decl (metric_name m) ''Count'']) ?p)))"
    using md [OF assms(4)] assms(2) p by (intro fits_put) (simp_all add: ascii_simps)
  ultimately show ?thesis by (simp add: metric_payload_def Let_def)
qed

text \<open>
  C37: Every metric of the handler and of the callback server reaches CloudWatch. Recording a metric
  appends one line, without a line break inside, that is a JSON object in the embedded metric
  format: it has a numeric timestamp, declares exactly this metric and carries the value 1 under
  its name, and every dimension it declares (the instance, and the reason when there is one) is a
  string member with the right value.
\<close>

theorem metric_records_extractable:
  assumes "ascii (em_instanceID e)" and "ascii (metric_reason m)"
    and "0 \<le> UnixMilli now" and "0 \<le> UnixMilli now2" and "\<And>l. w l = None"
  shows "\<exists>line v. em_out (record_metric w now now2 m e) = em_out e @ line @ [CHR 0x0A] \<and>
           CHR 0x0A \<notin> set line \<and> json_parse line = Some v \<and> emf_record v \<and>
           metric_names v = [metric_name m] \<and> member (metric_name m) v = Some (JInt 1) \<and>
           member ''InstanceId'' v = Some (JStr (em_instanceID e)) \<and>
           (if metric_reason m = '''' then dimension_names v = [''InstanceId'']
            else dimension_names v = [''InstanceId'', ''Reason''] \<and>
                 member ''Reason'' v = Some (JStr (metric_reason m)))"
proof -
  let ?v = "JObj (metric_payload now now2 m (em_instanceID e))"
  note mem = metric_payload_members [where now = now and ?now2.0 = now2 and m = m and i = "em_instanceID e", OF refl]
  obtain line where "em_out (record_metric w now now2 m e) = em_out e @ line @ [CHR 0x0A]"
    "CHR 0x0A \<notin> set line" "json_parse line = Some ?v"
    using emit_line [OF fits_metric_payload [OF assms(1-4)], where e = e and w = w] assms(5)
    by (auto simp: record_metric_payload)
  moreover have "emf_record ?v"
    by (rule record_members [OF mem(1)]) (use mem in \<open>auto simp: JInt_def split: if_splits\<close>)
  ultimately show ?thesis using mem names_of_record [OF mem(1)]
    by (intro exI [of _ line] exI [of _ ?v]) simp
qed

theorem metric_records_extractable_witness:
  "\<exists>line v. em_out (record_metric (\<lambda>_. None) 1500000000 1600000000 (AuthDenied ''cn_mismatch'') (NewEmitter ''i-1''))
        = em_out (NewEmitter ''i-1'') @ line @ [CHR 0x0A] \<and>
     CHR 0x0A \<notin> set line \<and> json_parse line = Some v \<and> emf_record v \<and>
     metric_names v = [metric_name (AuthDenied ''cn_mismatch'')] \<and>
     member (metric_name (AuthDenied ''cn_mismatch'')) v = Some (JInt 1) \<and>
     member ''InstanceId'' v = Some (JStr (em_instanceID (NewEmitter ''i-1''))) \<and>
     (if metric_reason (AuthDenied ''cn_mismatch'') = '''' then dimension_names v = [''InstanceId'']
      else dimension_names v = [''InstanceId'', ''Reason''] \<and>
           member ''Reason'' v = Some (JStr (metric_reason (AuthDenied ''cn_mismatch''))))"
  by (rule metric_records_extractable)
     (simp_all add: NewEmitter_def ascii_simps UnixMilli_def i64_def)

text \<open>The heartbeat has the same form, with its two gauges.\<close>

theorem heartbeat_extractable:
  assumes "ascii (em_instanceID e)" and "0 \<le> UnixMilli now" and "0 \<le> stored" and "\<And>l. w l = None"
  shows "\<exists>line v. em_out (Heartbeat w now connected stored e) = em_out e @ line @ [CHR 0x0A] \<and>
           CHR 0x0A \<notin> set line \<and> json_parse line = Some v \<and> emf_record v \<and>
           metric_names v = [''SocketConnected'', ''StoredSessions''] \<and>
           member ''SocketConnected'' v = Some (JInt (boolToInt connected)) \<and>
           member ''StoredSessions'' v = Some (JInt stored) \<and> dimension_names v = [''InstanceId'']"
proof -
  let ?decls = "[(''SocketConnected'', ''None''), (''StoredSessions'', ''Count'')]"
  let ?aws = "aws_metadata now [''InstanceId''] (map (\<lambda>(n, u). metric_decl n u) ?decls)"
  let ?p = "gomap [(''_aws'', ?aws), (''InstanceId'', JStr (em_instanceID e)),
     (''SocketConnected'', JInt (boolToInt connected)), (''StoredSessions'', JInt stored)]"
  have "fits 5 ?aws" using assms(2) by (intro fits_metadata) (simp_all add: ascii_simps)
  moreover have "fits 5 (JInt stored)" "fits 5 (JInt (boolToInt connected))"
    using assms(3) by (auto intro!: fits_JInt simp: boolToInt_def)
  ultimately have "fits (Suc 5) (JObj ?p)"
    using assms(1) by (intro fits_gomap) (simp add: ascii_simps)
  then have f: "fits 6 (JObj ?p)" by simp
  have aws: "member ''_aws'' (JObj ?p) = Some ?aws" by simp
  obtain line where "em_out (Heartbeat w now connected stored e) = em_out e @ line @ [CHR 0x0A]"
    "CHR 0x0A \<notin> set line" "json_parse line = Some (JObj ?p)"
    using emit_line [OF f, where e = e and w = w] assms(4) by (auto simp: Heartbeat_def)
  moreover have "emf_record (JObj ?p)"
    by (rule record_members [OF aws]) (auto simp: JInt_def)
  ultimately show ?thesis
    using names_of_record [OF aws] by (intro exI [of _ line] exI [of _ "JObj ?p"]) simp
qed

end
