(* ===== verification/Outcomes.thy ===== *)
theory Outcomes
  imports Callback
begin

text \<open>
  What a callback leaves behind, by the status code it answers with: the decision that was sent,
  if any, and the status of the session in the store. The store is keyed by the session ids.
\<close>

section \<open>Keys of the store\<close>

definition keyed :: "session_store \<Rightarrow> bool" where
  "keyed st \<longleftrightarrow> fmpred (\<lambda>sid s. ps_SessionID s = sid) st"

lemma keyed_lookup: "keyed st \<Longrightarrow> fmlookup st sid = Some s \<Longrightarrow> ps_SessionID s = sid"
  by (auto simp: keyed_def dest: fmpredD)

lemma keyed_operations:
  assumes "keyed st"
  shows "keyed (Put s st)" and "keyed (set_status sid x st)" and "keyed (Delete sid st)"
    and "keyed (reap now st)" and "keyed (snd (claim to sid st))"
proof -
  show "keyed (Put s st)" using assms by (auto simp: keyed_def Put_def intro!: fmpred_upd)
  show "keyed (set_status sid x st)"
    using assms by (auto simp: keyed_def set_status_def fmpred_iff split: if_splits)
  show "keyed (Delete sid st)" using assms by (auto simp: keyed_def Delete_def intro!: fmpred_drop)
  show "keyed (reap now st)" using assms by (auto simp: keyed_def reap_def intro!: fmpred_filter)
  show "keyed (snd (claim to sid st))"
    using assms by (cases rule: claim_cases [of st sid to]) (auto simp: keyed_def fmpred_iff split: if_splits)
qed

lemma set_status_claimed:
  assumes "fmlookup st sid = Some s"
  shows "set_status sid x (fmupd sid (s\<lparr>ps_Status := y\<rparr>) st) = set_status sid x st"
  using assms by (intro fmap_ext) (simp add: set_status_def)

lemma set_status_same: "fmlookup st sid = Some s \<Longrightarrow> ps_Status s = x \<Longrightarrow> set_status sid x st = st"
  by (intro fmap_ext) (auto simp: set_status_def)

section \<open>Decisions sent\<close>

definition decisions :: "handler \<Rightarrow> handler \<Rightarrow> decision list" where
  "decisions h h' = List.map_filter sent (new_effects h h')"

text \<open>\<open>h'\<close> has the trace of \<open>h\<close>, then effects among which exactly the decisions \<open>ds\<close> are sent.\<close>

definition sends :: "decision list \<Rightarrow> handler \<Rightarrow> handler \<Rightarrow> bool" where
  "sends ds h h' \<longleftrightarrow> (\<exists>xs. h_out h' = h_out h @ xs \<and> List.map_filter sent xs = ds)"

lemma map_filter_append [simp]: "List.map_filter f (xs @ ys) = List.map_filter f xs @ List.map_filter f ys"
  by (induction xs) (auto simp: map_filter_simps split: option.splits)

lemma sends_decisions: "sends ds h h' \<Longrightarrow> decisions h h' = ds"
  by (auto simp: sends_def decisions_def new_effects_def)

lemma sends_refl: "sends [] h h"
  by (simp add: sends_def map_filter_simps)

lemma sends_trans: "sends ds h h1 \<Longrightarrow> sends es h1 h2 \<Longrightarrow> sends (ds @ es) h h2"
  by (auto simp: sends_def map_filter_simps)

lemma sends_silent: "sends ds h h1 \<Longrightarrow> h_out h2 = h_out h1 \<Longrightarrow> sends ds h h2"
  by (simp add: sends_def)

lemma sends_emit: "sends ds h h1 \<Longrightarrow> sent x = None \<Longrightarrow> sends ds h (emit x h1)"
  by (auto simp: sends_def map_filter_simps)

lemma sends_metric: "sends ds h h1 \<Longrightarrow> sends ds h (metric m h1)"
  by (simp add: metric_def sends_emit)

lemma sends_deny:
  "sends [] h h1 \<Longrightarrow> sends [deny (ps_CID sess) (ps_KID sess) r] h (snd (reject_session sv sess r w t h1))"
  by (auto simp: sends_def reject_session_def denySession_def metric_def sendOrLog_def map_filter_simps)

text \<open>
  The outcome of deciding a claimed session: the status code, the decisions that were sent and
  the store afterwards.
\<close>

definition decided ::
  "pending_session \<Rightarrow> handler \<Rightarrow> nat \<Rightarrow> decision list \<Rightarrow> handler \<Rightarrow> bool" where
  "decided sess h code ds h' \<longleftrightarrow>
     (code = 403 \<and> (\<exists>r. ds = [deny (ps_CID sess) (ps_KID sess) r]) \<and>
        h_sessions h' = MarkFailed (ps_SessionID sess) (h_sessions h)) \<or>
     (code = 503 \<and> ds = [] \<and> h_sessions h' = MarkPending (ps_SessionID sess) (h_sessions h)) \<or>
     (code = 503 \<and> ds = [allow (ps_CID sess) (ps_KID sess)] \<and>
        h_sessions h' = MarkFailed (ps_SessionID sess) (h_sessions h)) \<or>
     (code = 200 \<and> ds = [allow (ps_CID sess) (ps_KID sess)] \<and>
        status_of (h_sessions h') (ps_SessionID sess) \<in> {None, Some SessionDone})"

lemma decided_reject:
  assumes "sends [] h h1" and "h_sessions h1 = h_sessions h"
  shows "\<exists>ds. sends ds h (snd (reject_session sv sess r w t h1)) \<and>
    decided sess h (resp_status (fst (reject_session sv sess r w t h1))) ds (snd (reject_session sv sess r w t h1))"
proof (intro exI conjI)
  show "sends [deny (ps_CID sess) (ps_KID sess) r] h (snd (reject_session sv sess r w t h1))"
    by (rule sends_deny [OF assms(1)])
  show "decided sess h (resp_status (fst (reject_session sv sess r w t h1))) [deny (ps_CID sess) (ps_KID sess) r]
      (snd (reject_session sv sess r w t h1))"
    using assms(2)
    by (auto simp: decided_def reject_session_def denySession_def metric_def sendOrLog_def)
qed

lemma sends_allow:
  assumes "sends [] h h1"
  shows "sends [allow (ps_CID sess) (ps_KID sess)] h (snd (grant_session e sv sess cl h1))"
proof -
  let ?d = "allow (ps_CID sess) (ps_KID sess)"
  obtain r h2 where s: "send_decision e (sv_sink sv) ?d h1 = (r, h2)" by (cases "send_decision e (sv_sink sv) ?d h1")
  have h2: "sends [?d] h h2"
    using s assms by (auto simp: send_decision_def sends_def Let_def map_filter_simps)
  have m: "h_out (MarkAuthenticated e c u h2) = h_out h2" for c u
    by (simp add: MarkAuthenticated_def)
  show ?thesis
    using s h2 m by (auto simp: grant_session_def Let_def split: option.splits
        intro!: sends_metric intro: sends_silent)
qed

lemma decided_grant:
  assumes "sends [] h h1" and "h_sessions h1 = h_sessions h"
  shows "\<exists>ds. sends ds h (snd (grant_session e sv sess cl h1)) \<and>
    decided sess h (resp_status (fst (grant_session e sv sess cl h1))) ds (snd (grant_session e sv sess cl h1))"
proof (intro exI conjI)
  let ?d = "allow (ps_CID sess) (ps_KID sess)"
  obtain r h2 where s: "send_decision e (sv_sink sv) ?d h1 = (r, h2)" by (cases "send_decision e (sv_sink sv) ?d h1")
  have h2: "h_sessions h2 = h_sessions h" using s assms(2) by (auto simp: send_decision_def Let_def)
  show "sends [?d] h (snd (grant_session e sv sess cl h1))" by (rule sends_allow [OF assms(1)])
  show "decided sess h (resp_status (fst (grant_session e sv sess cl h1))) [?d]
      (snd (grant_session e sv sess cl h1))"
    using s h2 by (auto simp: decided_def grant_session_def metric_def MarkDone_def Let_def split: option.splits)
qed

lemma checkGroup_quiet:
  "sends [] h (snd (checkGroup e sv sess cl h))" "h_sessions (snd (checkGroup e sv sess cl h)) = h_sessions h"
  by (auto simp: checkGroup_def check_membership_def Let_def intro!: sends_refl sends_emit split: sum.splits)

lemma decided_authorize:
  "\<exists>ds. sends ds h (snd (authorize_claims e sv sess cl h)) \<and>
     decided sess h (resp_status (fst (authorize_claims e sv sess cl h))) ds (snd (authorize_claims e sv sess cl h))"
proof (cases "cn_check (e_uc e) sess cl")
  case (Some x)
  then show ?thesis
    using decided_reject [OF sends_refl refl] by (cases x) (simp add: authorize_claims_def)
next
  case None
  obtain g h1 where g: "checkGroup e sv sess cl h = (g, h1)" by (cases "checkGroup e sv sess cl h")
  have q: "sends [] h h1" "h_sessions h1 = h_sessions h"
    using checkGroup_quiet [where h = h and e = e and sv = sv and sess = sess and cl = cl] g by simp_all
  consider "g = None" | "g = Some True" | "g = Some False" by (cases g) auto
  then show ?thesis
    by cases (use None g decided_reject [OF q] decided_grant [OF q] decided_grant [OF sends_refl refl]
        in \<open>simp_all add: authorize_claims_def\<close>)
qed

lemma decided_callback:
  assumes "callback_decide ce e rq sess sv h = (r, sv', h')"
  shows "\<exists>ds. sends ds h h' \<and> decided sess h (resp_status r) ds h'"
proof (cases "rq_oidcData rq = '''' \<or> parseJWTHeader (rq_oidcData rq) = None")
  case True
  then have "(r, h') = reject_session sv sess ''missing oidc header'' ''missing_oidc_header'' ''Authentication Failed'' h
    \<or> (r, h') = reject_session sv sess ''invalid jwt header'' ''invalid_jwt_header'' ''Authentication Failed'' h"
    using assms
    by (cases "rq_oidcData rq = ''''") (auto simp: callback_decide_def Let_def case_prod_beta prod_eq_iff)
  then show ?thesis using decided_reject [OF sends_refl refl] by (metis fst_conv snd_conv)
next
  case False
  then obtain hdr where hdr: "parseJWTHeader (rq_oidcData rq) = Some hdr" "rq_oidcData rq \<noteq> ''''" by auto
  obtain t sv1 where t: "read_token_claims ce (rq_oidcData rq) hdr sv = (t, sv1)"
    by (cases "read_token_claims ce (rq_oidcData rq) hdr sv")
  show ?thesis
  proof (cases t)
    case (Claims cl)
    then have "(r, h') = authorize_claims e sv sess cl h"
      using assms hdr t by (auto simp: callback_decide_def Let_def case_prod_beta prod_eq_iff)
    then show ?thesis using decided_authorize by (metis fst_conv snd_conv)
  next
    case KeyUnavailable
    then show ?thesis
      using assms hdr t
      by (auto simp: callback_decide_def decided_def Let_def metric_def sends_def map_filter_simps)
  next
    case (BadToken a b)
    then have "(r, h') = reject_session sv sess a b ''Authentication Failed'' h"
      using assms hdr t by (auto simp: callback_decide_def Let_def case_prod_beta prod_eq_iff)
    then show ?thesis using decided_reject [OF sends_refl refl] by (metis fst_conv snd_conv)
  qed
qed

lemma claim_refused:
  assumes "callback_claim e rq h = (Inl r, h1)"
  shows "resp_status r \<in> {400, 404, 409}" and "sends [] h h1" and "h_sessions h1 = h_sessions h"
  using assms
  by (auto simp: callback_claim_def reject_callback_def metric_def sends_def map_filter_simps Let_def
      split: if_splits sum.splits prod.splits session_error.splits)

lemma claim_taken:
  assumes "callback_claim e rq h = (Inr sess, h1)"
  obtains sid s0 where "fmlookup (h_sessions h) sid = Some s0" "ps_Status s0 = SessionPending"
    "sess = s0\<lparr>ps_Status := SessionProcessing\<rparr>" "sends [] h h1"
    "h_sessions h1 = fmupd sid (s0\<lparr>ps_Status := SessionProcessing\<rparr>) (h_sessions h)"
proof -
  from claim_ok [OF assms] obtain p :: state_payload and s0 where "fmlookup (h_sessions h) (sp_SID p) = Some s0"
    "ps_Status s0 = SessionPending" "sess = s0\<lparr>ps_Status := SessionProcessing\<rparr>"
    "h1 = (metric CallbackReceived h)\<lparr>h_sessions := fmupd (sp_SID p) sess (h_sessions h)\<rparr>" by metis
  then show ?thesis using that [of "sp_SID p" s0] by (simp add: metric_def sends_def map_filter_simps)
qed



end
