(* ===== verification/System.thy ===== *)
theory System
  imports Outcomes
begin

text \<open>
  The daemon's parts together: callbacks, events and timers run concurrently on the shared
  session store. A callback claims its session first and decides later, and other operations may
  come in between; a run is a sequence of such steps. Session ids are drawn from 128 random bits,
  and the runs considered are those in which no id is drawn twice.
\<close>

section \<open>Operations that make no session pending again\<close>

text \<open>Apart from the ids in \<open>F\<close>, a session that is pending afterwards was pending before.\<close>

definition tame :: "string set \<Rightarrow> handler \<Rightarrow> handler \<Rightarrow> bool" where
  "tame F h h' \<longleftrightarrow>
     (keyed (h_sessions h) \<longrightarrow> keyed (h_sessions h')) \<and>
     (\<forall>sid. status_of (h_sessions h') sid = Some SessionPending \<longrightarrow>
        status_of (h_sessions h) sid = Some SessionPending \<or> sid \<in> F)"

named_theorems tame_intros "operations that make no session pending"

lemma tame_refl [tame_intros]: "tame F h h"
  by (simp add: tame_def)

lemma tame_trans: "tame F h h1 \<Longrightarrow> tame F h1 h2 \<Longrightarrow> tame F h h2"
  unfolding tame_def by blast

lemma tame_same: "tame F h h1 \<Longrightarrow> h_sessions h2 = h_sessions h1 \<Longrightarrow> tame F h h2"
  by (simp add: tame_def)

lemma tame_change:
  assumes "tame F h h1" and "keyed (h_sessions h1) \<Longrightarrow> keyed st"
    and "\<And>sid. status_of st sid = Some SessionPending \<Longrightarrow>
      status_of (h_sessions h1) sid = Some SessionPending \<or> sid \<in> F"
  shows "tame F h (h1\<lparr>h_sessions := st\<rparr>)"
proof -
  have "tame F h1 (h1\<lparr>h_sessions := st\<rparr>)" using assms(2,3) by (simp add: tame_def)
  with assms(1) show ?thesis by (rule tame_trans)
qed

lemma tame_Delete: "tame F h h1 \<Longrightarrow> tame F h (h1\<lparr>h_sessions := Delete sid (h_sessions h1)\<rparr>)"
  by (erule tame_change) (simp_all add: keyed_operations split: if_splits)

lemma tame_reap: "tame F h h1 \<Longrightarrow> tame F h (h1\<lparr>h_sessions := reap now (h_sessions h1)\<rparr>)"
  by (erule tame_change, simp add: keyed_operations, metis status_of_reap insertE option.distinct(1) singletonD)

lemma tame_set_status:
  "tame F h h1 \<Longrightarrow> x \<noteq> SessionPending \<Longrightarrow> tame F h (h1\<lparr>h_sessions := set_status sid x (h_sessions h1)\<rparr>)"
  by (erule tame_change) (auto simp: keyed_operations split: if_splits)

lemma tame_claim:
  "tame F h h1 \<Longrightarrow> x \<noteq> SessionPending \<Longrightarrow> tame F h (h1\<lparr>h_sessions := snd (claim x sid (h_sessions h1))\<rparr>)"
  by (erule tame_change, simp add: keyed_operations,
      cases rule: claim_cases [of "h_sessions h1" sid x]) (auto simp: status_of_def split: if_splits)

lemma tame_quiet [tame_intros]:
  "tame F h h1 \<Longrightarrow> tame F h (emit x h1)"
  "tame F h h1 \<Longrightarrow> tame F h (metric m h1)"
  "tame F h h1 \<Longrightarrow> tame F h (sendOrLog s d h1)"
  "tame F h h1 \<Longrightarrow> tame F h (spawn g h1)"
  "tame F h h1 \<Longrightarrow> tame F h (cancel_ctx n h1)"
  "tame F h h1 \<Longrightarrow> tame F h (cancel_opt c h1)"
  "tame F h h1 \<Longrightarrow> tame F h (adjust_cid cid f h1)"
  "tame F h h1 \<Longrightarrow> tame F h (cleanupPromoted cid h1)"
  "tame F h h1 \<Longrightarrow> tame F h (clearInFlight cid h1)"
  "tame F h h1 \<Longrightarrow> tame F h (snd (replaceExpiryState cid t h1))"
  "tame F h h1 \<Longrightarrow> tame F h (startExpiryTimer e cid t h1)"
  "tame F h h1 \<Longrightarrow> tame F h (snd (establish_locked cid st h1))"
  "tame F h h1 \<Longrightarrow> tame F h (h1\<lparr>h_next := k\<rparr>)"
  "tame F h h1 \<Longrightarrow> tame F h (h1\<lparr>h_cache := ca\<rparr>)"
  "tame F h h1 \<Longrightarrow> tame F h (h1\<lparr>h_active := ac\<rparr>)"
  "tame F h h1 \<Longrightarrow> tame F h (adopt_state session i h1)"
  "tame F h h1 \<Longrightarrow> tame F h (request_eviction cid h1)"
  "tame F h h1 \<Longrightarrow> tame F h (h1\<lparr>h_cids := cs, h_active := ac, h_attempt := at\<rparr>)"
  by (erule tame_same, auto simp: metric_def sendOrLog_def spawn_def cancel_opt_def adjust_cid_def
      cleanupPromoted_def clearInFlight_def replaceExpiryState_def startExpiryTimer_def establish_locked_def
      adopt_state_def request_eviction_def Let_def split: option.splits)+

lemma tame_delete [tame_intros]:
  "tame F h h1 \<Longrightarrow> tame F h (delete_session sid h1)"
  "tame F h h1 \<Longrightarrow> tame F h (untrack cid h1)"
  "tame F h h1 \<Longrightarrow> tame F h (stop_all st h1)"
  "tame F h h1 \<Longrightarrow> tame F h (handleDisconnect cid h1)"
  "tame F h h1 \<Longrightarrow> tame F h (promoteSession e cid h1)"
proof -
  have d: "tame F h (delete_session sid h1)" if "tame F h h1" for sid h1
    using tame_Delete [OF that] that by (simp add: delete_session_def)
  have u: "tame F h (untrack cid h1)" if "tame F h h1" for cid h1
    using that by (rule tame_same) (simp add: untrack_def split: option.splits)
  have s: "tame F h (stop_all st h1)" if "tame F h h1" for st h1
    using that by (auto simp: stop_all_def intro!: d tame_intros)
  show "tame F h h1 \<Longrightarrow> tame F h (delete_session sid h1)" by (rule d)
  show "tame F h h1 \<Longrightarrow> tame F h (untrack cid h1)" by (rule u)
  show "tame F h h1 \<Longrightarrow> tame F h (stop_all st h1)" by (rule s)
  show "tame F h h1 \<Longrightarrow> tame F h (handleDisconnect cid h1)"
    by (auto simp: handleDisconnect_def intro!: s u split: option.splits)
  show "tame F h h1 \<Longrightarrow> tame F h (promoteSession e cid h1)"
    by (auto simp: promoteSession_def promote_locked_def Let_def intro!: d tame_intros split: option.splits)
qed

section \<open>The handler's operations\<close>

lemma tame_establishCID [tame_intros]:
  assumes "tame F h h1"
  shows "tame F h (establishCID e cid t auth h1)"
proof -
  have k: "tame F h (killReplacedActive e old s h2)" if "tame F h h2" for old s h2
    using that by (auto simp: killReplacedActive_def send_decision_def query_status_def Let_def
        intro!: tame_intros split: option.splits sum.splits)
  have l: "tame F h (snd (establish_locked cid st h1))" for st by (intro tame_intros assms)
  then show ?thesis
    using assms by (auto simp: establishCID_def case_prod_beta Let_def intro!: tame_intros k split: option.splits)
qed

lemma tame_track:
  assumes "tame F h h1" and "ps_SessionID ses \<in> F"
  shows "tame F h (track ev i ses n h1)"
proof -
  have "tame F h (h1\<lparr>h_sessions := Put ses (h_sessions h1)\<rparr>)"
    using assms by (intro tame_change) (auto simp: keyed_operations split: if_splits)
  then show ?thesis by (rule tame_same) (simp add: track_def)
qed

lemma tame_admit:
  assumes "tame F h h1" and "ps_SessionID ses \<in> F"
  shows "tame F h (snd (admit ev i ses n h1))"
proof -
  have f: "tame F h (h1\<lparr>h_attempt := at\<rparr>)" for at using assms(1) by (rule tame_same) simp
  have s: "tame F h (h1\<lparr>h_sessions := st\<rparr>)" if "SupersedePending sid (h_sessions h1) = (r, st)" for sid r st
    using tame_claim [OF assms(1), of SessionFailed sid] that by (simp add: SupersedePending_def)
  show ?thesis
    using assms
    by (auto simp: admit_def Let_def intro!: tame_track tame_intros f intro: s
        split: option.splits prod.splits sum.splits)
qed

text \<open>The session ids an environment can draw.\<close>

definition drawn :: "environ \<Rightarrow> string set" where
  "drawn e = {EncodeToString bytes |bytes. \<exists>out. e_rand e out = Some bytes}"

lemma connect_prepare_drawn:
  assumes "connect_prepare e ev s h = Inr (i, ses, u, h1)"
  shows "ps_SessionID ses \<in> drawn e" and "tame F h h1"
  using assms
  by (auto simp: connect_prepare_def generateRandomToken_def drawn_def new_session_def Let_def
      intro!: tame_intros split: if_splits sum.splits option.splits)

lemma tame_resolve_conflict:
  "tame F h h1 \<Longrightarrow> tame F h (snd (resolve_conflict e ev s cid h1))"
  by (auto simp: resolve_conflict_def query_status_def deny_connect_def Let_def
      intro!: tame_intros split: sum.splits option.splits)

lemma tame_handleConnect: "tame (drawn e) h (handleConnect e c ev s h)"
proof (rule handleConnect_rounds [where R = "tame (drawn e)"])
  fix h h1 assume "connect_prepare e ev s h = Inl h1"
  then show "tame (drawn e) h h1"
    by (auto simp: connect_prepare_def generateRandomToken_def deny_connect_def Let_def
        intro!: tame_intros split: if_splits sum.splits option.splits)
next
  fix h i ses u h1 adm h3
  assume prep: "connect_prepare e ev s h = Inr (i, ses, u, h1)"
    and adm: "admit ev i ses (h_next h1) (h1\<lparr>h_next := Suc (h_next h1)\<rparr>) = (adm, h3)"
  have "tame (drawn e) h (snd (admit ev i ses (h_next h1) (h1\<lparr>h_next := Suc (h_next h1)\<rparr>)))"
    by (intro tame_admit tame_intros connect_prepare_drawn [OF prep])
  then have "tame (drawn e) h h3" using adm by simp
  then show "case adm of
      Duplicate \<Rightarrow> tame (drawn e) h (cancel_ctx (h_next h1) h3)
    | Busy \<Rightarrow> tame (drawn e) h (deny_connect s ev ''auth_in_progress'' in_progress (cancel_ctx (h_next h1) h3))
    | Admitted superseded \<Rightarrow> tame (drawn e) h (connect_pending (CancelCtx c (h_next h1)) ev ses u superseded s h3)
    | PromotedConflict cid \<Rightarrow> tame (drawn e) h (snd (resolve_conflict e ev s cid (cancel_ctx (h_next h1) h3)))"
    by (cases adm) (auto simp: deny_connect_def connect_pending_def Let_def
        intro!: tame_intros tame_resolve_conflict split: option.splits)
qed (rule tame_trans)

lemma tame_HandleEvent: "tame (drawn e) h (HandleEvent e c ev s h)"
  by (auto simp: HandleEvent_def onEstablished_def intro!: tame_handleConnect tame_intros split: event_type.splits)

lemma tame_handleReauth: "tame F h (handleReauth e ev s h)"
proof -
  have d: "h_sessions (deny_reauth s ev a b h1) = h_sessions h1"
    "h_sessions (sendOrLog s x (metric m h1)) = h_sessions h1" for a b x m h1
    by (simp_all add: deny_reauth_def sendOrLog_def metric_def)
  have b: "reauth_backstop e ev s h = Some h1 \<Longrightarrow> h_sessions h1 = h_sessions h" for h1
    by (auto simp: reauth_backstop_def d split: if_splits option.splits)
  have f: "h_sessions (finishReauth ev r s h1) = h_sessions h1" for r h1
    by (simp add: finishReauth_def d)
  have c: "h_sessions (snd (cache_allows e l h1)) = h_sessions h1" for l h1
    by (simp add: cache_allows_def case_prod_beta split: option.splits)
  have "h_sessions (handleReauth e ev s h) = h_sessions h"
    using b by (auto simp: handleReauth_def check_user_def case_prod_beta c d f Let_def
        split: option.splits sum.splits bool.splits)
  then show ?thesis by (rule tame_same [OF tame_refl])
qed

lemma tame_reconcilePromoted [tame_intros]:
  "tame F h h1 \<Longrightarrow> tame F h (snd (reconcilePromoted e cid h1))"
  by (auto simp: reconcilePromoted_def query_status_def Let_def intro!: tame_intros split: sum.splits option.splits)

lemma tame_waitForPromotedDeadline: "tame F h (waitForPromotedDeadline e sel1 sel2 cid h)"
proof -
  have r: "tame F h h2" if "reconcilePromoted e cid h1 = (x, h2)" "tame F h h1" for h1 h2 x
    using tame_reconcilePromoted [OF that(2), of e cid] that(1) by simp
  have k: "tame F h (killStalledPromoted e cid h1)" if "tame F h h1" for h1
    using that by (auto simp: killStalledPromoted_def send_decision_def Let_def intro!: tame_intros
        split: option.splits)
  show ?thesis
    by (auto simp: waitForPromotedDeadline_def intro!: k tame_refl intro: r [OF _ tame_refl] r
        split: selected.splits prod.splits outcome.splits)
qed

lemma tame_sessionExpiryTimer: "tame F h (sessionExpiryTimer sel cid h)"
  by (auto simp: sessionExpiryTimer_def killExpiredSession_def Let_def intro!: tame_intros
      split: selected.splits option.splits)

lemma tame_Rebuild: "tame F h (snd (RebuildSessionTrackingFromSnapshot e ks snapshot h))"
proof -
  have "tame F h (sweep ks snapshot h)"
    unfolding sweep_def
    by (rule foldl_invariant) (auto simp: sweep_one_def intro!: tame_intros split: option.splits)
  then have "tame F h (snd (snd (adopt (e_uc e) (ss_established snapshot) (sweep ks snapshot h))))"
    unfolding adopt_def
    by (intro foldl_invariant [where P = "\<lambda>acc. tame F h (snd (snd acc))"])
       (auto simp: adopt_one_def case_prod_beta Let_def intro!: tame_intros split: sum.splits option.splits)
  then have "tame F h (snd (rebuild_locked (e_uc e) ks snapshot h))"
    by (simp add: rebuild_locked_def case_prod_beta tame_quiet)
  then show ?thesis
    unfolding RebuildSessionTrackingFromSnapshot_def
    by (intro foldl_invariant [where P = "\<lambda>acc. tame F h (snd acc)"])
       (auto simp: expire_one_def case_prod_beta Let_def intro!: tame_intros split: sum.splits option.splits)
qed

section \<open>Runs of the daemon\<close>

text \<open>
  A state of a run: the handler (with the shared store), the sessions that callbacks have claimed
  and not yet decided, the ids whose session was granted by a callback, the ids whose session was
  denied by its timeout, and the ids used so far.
\<close>

record world =
  w_h :: handler
  w_held :: "pending_session list"
  w_granted :: "string list"
  w_denied :: "string list"
  w_used :: "string set"

text \<open>A run may start from any store in which the pending sessions count as used.\<close>

definition world_init :: "world \<Rightarrow> bool" where
  "world_init w \<longleftrightarrow> keyed (h_sessions (w_h w)) \<and> fset (fmdom (h_sessions (w_h w))) \<subseteq> w_used w \<and>
     w_held w = [] \<and> w_granted w = [] \<and> w_denied w = []"

text \<open>An operation of the handler that leaves \<open>h'\<close>, with the ids its environment can draw.\<close>

definition after_handler :: "string set \<Rightarrow> handler \<Rightarrow> world \<Rightarrow> world" where
  "after_handler ids h' w = w\<lparr>w_h := h', w_used := w_used w \<union> ids\<rparr>"

inductive world_step :: "world \<Rightarrow> world \<Rightarrow> bool" where
  callback_refused: "callback_claim e rq (w_h w) = (Inl r, h') \<Longrightarrow> world_step w (w\<lparr>w_h := h'\<rparr>)"
| callback_claims: "callback_claim e rq (w_h w) = (Inr sess, h') \<Longrightarrow>
    world_step w (w\<lparr>w_h := h', w_held := sess # w_held w\<rparr>)"
| callback_decides: "sess \<in> set (w_held w) \<Longrightarrow> callback_decide ce e rq sess sv (w_h w) = (r, sv', h') \<Longrightarrow>
    world_step w (w\<lparr>w_h := h', w_held := remove1 sess (w_held w),
      w_granted := (if allow (ps_CID sess) (ps_KID sess) \<in> set (decisions (w_h w) h')
        then ps_SessionID sess # w_granted w else w_granted w)\<rparr>)"
| timeout: "h' = authTimeout sel session s (w_h w) \<Longrightarrow>
    world_step w (w\<lparr>w_h := h',
      w_denied := (if decisions (w_h w) h' = [] then w_denied w else ps_SessionID session # w_denied w)\<rparr>)"
| event: "drawn e \<inter> w_used w = {} \<Longrightarrow> world_step w (after_handler (drawn e) (HandleEvent e c ev s (w_h w)) w)"
| reauth: "world_step w (w\<lparr>w_h := handleReauth e ev s (w_h w)\<rparr>)"
| deadline: "world_step w (w\<lparr>w_h := waitForPromotedDeadline e sel1 sel2 cid (w_h w)\<rparr>)"
| expiry: "world_step w (w\<lparr>w_h := sessionExpiryTimer sel cid (w_h w)\<rparr>)"
| rebuild: "world_step w (w\<lparr>w_h := snd (RebuildSessionTrackingFromSnapshot e ks snapshot (w_h w))\<rparr>)"
| reaper: "world_step w (w\<lparr>w_h := (w_h w)\<lparr>h_sessions := reap now (h_sessions (w_h w))\<rparr>\<rparr>)"

text \<open>The ids that are settled or in a callback's hands.\<close>

definition taken :: "world \<Rightarrow> string list" where
  "taken w = map ps_SessionID (w_held w) @ w_granted w @ w_denied w"

definition pendings :: "world \<Rightarrow> string set" where
  "pendings w = {sid. status_of (h_sessions (w_h w)) sid = Some SessionPending}"

definition world_ok :: "world \<Rightarrow> bool" where
  "world_ok w \<longleftrightarrow> keyed (h_sessions (w_h w)) \<and> distinct (taken w) \<and> set (taken w) \<subseteq> w_used w \<and>
     pendings w \<subseteq> w_used w - set (taken w)"

lemma taken_h [simp]: "taken (w\<lparr>w_h := h'\<rparr>) = taken w" "taken (w\<lparr>w_h := h', w_used := u\<rparr>) = taken w"
  by (simp_all add: taken_def)

lemma pendings_tame: "tame F (w_h w) (w_h w') \<Longrightarrow> pendings w' \<subseteq> pendings w \<union> F"
  by (auto simp: pendings_def tame_def)

lemma world_ok_tame:
  assumes "world_ok w" and "tame F (w_h w) h'" and "F \<inter> w_used w = {}"
  shows "world_ok (after_handler F h' w)"
proof -
  have "pendings (after_handler F h' w) \<subseteq> pendings w \<union> F"
    by (rule pendings_tame) (simp add: after_handler_def assms(2))
  moreover have "taken (after_handler F h' w) = taken w" by (simp add: after_handler_def)
  moreover have "keyed (h_sessions h')" using assms(1,2) by (simp add: world_ok_def tame_def)
  ultimately show ?thesis using assms(1,3) unfolding world_ok_def by (auto simp: after_handler_def)
qed

lemma world_ok_quiet: "world_ok w \<Longrightarrow> tame {} (w_h w) h' \<Longrightarrow> world_ok (w\<lparr>w_h := h'\<rparr>)"
  using world_ok_tame [of w "{}" h'] by (simp add: after_handler_def)

lemma world_ok_claims:
  assumes "world_ok w" and "callback_claim e rq (w_h w) = (Inr sess, h')"
  shows "world_ok (w\<lparr>w_h := h', w_held := sess # w_held w\<rparr>)"
proof -
  from claim_taken [OF assms(2)] obtain sid s0 where s: "fmlookup (h_sessions (w_h w)) sid = Some s0"
    "ps_Status s0 = SessionPending" "sess = s0\<lparr>ps_Status := SessionProcessing\<rparr>"
    "h_sessions h' = fmupd sid (s0\<lparr>ps_Status := SessionProcessing\<rparr>) (h_sessions (w_h w))" by metis
  have k: "keyed (h_sessions (w_h w))" using assms(1) by (simp add: world_ok_def)
  then have sid: "ps_SessionID s0 = sid" using keyed_lookup s(1) by blast
  then have "keyed (h_sessions h')"
    using keyed_operations(1) [OF k, of sess] s(3,4) by (simp add: Put_def)
  moreover have "sid \<in> pendings w" using s(1,2) by (simp add: status_of_def pendings_def)
  moreover have "pendings (w\<lparr>w_h := h', w_held := sess # w_held w\<rparr>) = pendings w - {sid}"
    using s(4) by (auto simp: status_of_def pendings_def split: if_splits)
  moreover have "taken (w\<lparr>w_h := h', w_held := sess # w_held w\<rparr>) = sid # taken w"
    using sid s(3) by (simp add: taken_def)
  ultimately show ?thesis using assms(1) unfolding world_ok_def by auto
qed

lemma map_remove1_distinct:
  "distinct (map f xs) \<Longrightarrow> x \<in> set xs \<Longrightarrow> map f (remove1 x xs) = remove1 (f x) (map f xs)"
proof (induction xs)
  case (Cons a xs)
  then show ?case by (cases "x = a") (auto simp: image_iff)
qed simp

lemma tame_decide: "tame {ps_SessionID sess} h (snd (snd (callback_decide ce e rq sess sv h)))"
proof -
  let ?F = "{ps_SessionID sess}"
  have r: "tame ?F h (snd (reject_session sv sess a b c h1))" if "tame ?F h h1" for a b c h1
    using that by (auto simp: reject_session_def denySession_def MarkFailed_def
        intro!: tame_intros tame_set_status)
  have g: "tame ?F h (snd (grant_session e sv sess cl h1))" if "tame ?F h h1" for cl h1
  proof -
    let ?r = "send_decision e (sv_sink sv) (allow (ps_CID sess) (ps_KID sess)) h1"
    have s: "tame ?F h (snd ?r)" using that by (simp add: send_decision_def Let_def tame_intros)
    have "tame ?F h (MarkAuthenticated e x u (snd ?r))" for x u
      using s by (auto simp: MarkAuthenticated_def intro!: tame_intros)
    with s show ?thesis
      by (auto simp: grant_session_def case_prod_beta MarkFailed_def MarkDone_def Let_def
          intro!: tame_quiet(2) tame_set_status split: option.splits)
  qed
  have c: "tame ?F h (snd (checkGroup e sv sess cl h))" for cl
    by (rule tame_same [OF tame_refl checkGroup_quiet(2)])
  have a: "tame ?F h (snd (authorize_claims e sv sess cl h))" for cl
    using r [OF tame_refl] r [OF c] g [OF tame_refl] g [OF c]
    by (auto simp: authorize_claims_def case_prod_beta split: option.splits bool.splits)
  have m: "tame ?F h (metric x (h\<lparr>h_sessions := MarkPending (ps_SessionID sess) (h_sessions h)\<rparr>))" for x
    by (intro tame_intros tame_change)
       (auto simp: MarkPending_def keyed_operations tame_refl split: if_splits)
  show ?thesis
    using a m r [OF tame_refl]
    by (auto simp: callback_decide_def case_prod_beta Let_def split: option.splits token_result.splits)
qed

lemma world_ok_decides:
  assumes "world_ok w" and "sess \<in> set (w_held w)" and "callback_decide ce e rq sess sv (w_h w) = (r, sv', h')"
  shows "world_ok (w\<lparr>w_h := h', w_held := remove1 sess (w_held w),
      w_granted := (if allow (ps_CID sess) (ps_KID sess) \<in> set (decisions (w_h w) h')
        then ps_SessionID sess # w_granted w else w_granted w)\<rparr>)" (is "world_ok ?w")
proof -
  let ?sid = "ps_SessionID sess" and ?d = "allow (ps_CID sess) (ps_KID sess)"
  have t: "tame {?sid} (w_h w) h'" using tame_decide [of sess "w_h w" ce e rq sv] assms(3) by simp
  from decided_callback [OF assms(3)] obtain ds where
    ds: "sends ds (w_h w) h'" "decided sess (w_h w) (resp_status r) ds h'" by blast
  have dec: "decisions (w_h w) h' = ds" by (rule sends_decisions [OF ds(1)])
  have p: "pendings ?w \<subseteq> pendings w \<union> {?sid}" by (rule pendings_tame) (simp add: t)
  have g: "?sid \<notin> pendings ?w" if "?d \<in> set ds"
    using ds(2) that by (auto simp: decided_def pendings_def MarkFailed_def)
  have sid: "?sid \<in> set (map ps_SessionID (w_held w))" using assms(2) by simp
  have m: "map ps_SessionID (remove1 sess (w_held w)) = remove1 ?sid (map ps_SessionID (w_held w))"
    using assms(1,2) by (intro map_remove1_distinct) (simp_all add: world_ok_def taken_def)
  have k: "keyed (h_sessions h')" using assms(1) t by (simp add: world_ok_def tame_def)
  have tk: "set (taken ?w) = (if ?d \<in> set ds then set (taken w) else set (taken w) - {?sid})" "distinct (taken ?w)"
    using assms(1) sid by (auto simp: world_ok_def taken_def dec m)
  have ok: "set (taken w) \<subseteq> w_used w" "pendings w \<subseteq> w_used w - set (taken w)"
    using assms(1) by (simp_all add: world_ok_def)
  have "?sid \<in> set (taken w)" using sid by (simp add: taken_def)
  then have "pendings ?w \<subseteq> w_used w - set (taken ?w) \<and> set (taken ?w) \<subseteq> w_used w"
    using ok p g tk(1) by (cases "?d \<in> set ds") auto
  then show ?thesis unfolding world_ok_def using k tk(2) by simp
qed

lemma timeout_cases:
  obtains (silent) "decisions h (authTimeout sel session s h) = []" "tame {} h (authTimeout sel session s h)"
  | (denied) "tame {} h (authTimeout sel session s h)"
      "status_of (h_sessions h) (ps_SessionID session) = Some SessionPending"
      "status_of (h_sessions (authTimeout sel session s h)) (ps_SessionID session) \<noteq> Some SessionPending"
proof -
  let ?sid = "ps_SessionID session"
  have c: "h_sessions (clearInFlight cid h1) = h_sessions h1" "h_out (clearInFlight cid h1) = h_out h1" for cid h1
    by (simp_all add: clearInFlight_def split: option.splits)
  show thesis
  proof (cases "sel = TimerFired \<and> status_of (h_sessions h) ?sid = Some SessionPending")
    case True
    then obtain st where t: "TryProcess ?sid (h_sessions h) = st" "status_of (h_sessions h) ?sid = Some SessionPending"
      by blast
    then have r: "\<exists>x. fst st = Inr x"
      by (cases rule: claim_cases [of "h_sessions h" ?sid SessionProcessing]) (auto simp: TryProcess_def)
    have "tame {} h (h\<lparr>h_sessions := snd st\<rparr>)"
      using tame_claim [OF tame_refl, of SessionProcessing "{}" h ?sid] t(1) by (simp add: TryProcess_def)
    from tame_set_status [OF this, of SessionFailed ?sid] r True t(1) show thesis
      by (intro denied)
         (auto simp: authTimeout_def case_prod_beta MarkFailed_def c metric_def sendOrLog_def
           intro!: tame_quiet(9) intro: tame_same)
  next
    case False
    then have "h_out (authTimeout sel session s h) = h_out h"
      "h_sessions (authTimeout sel session s h) = h_sessions h"
      by (cases rule: claim_cases [of "h_sessions h" ?sid SessionProcessing];
          auto simp: authTimeout_def TryProcess_def c status_of_def split: selected.splits)+
    then show thesis
      by (intro silent) (simp_all add: decisions_def new_effects_def map_filter_simps tame_same [OF tame_refl])
  qed
qed

lemma world_ok_timeout:
  assumes "world_ok w" and "h' = authTimeout sel session s (w_h w)"
  shows "world_ok (w\<lparr>w_h := h',
      w_denied := (if decisions (w_h w) h' = [] then w_denied w else ps_SessionID session # w_denied w)\<rparr>)"
    (is "world_ok ?w")
proof (cases "decisions (w_h w) h' = []")
  case True
  have "tame {} (w_h w) h'" unfolding assms(2) by (cases rule: timeout_cases) auto
  from world_ok_quiet [OF assms(1) this] True show ?thesis by (simp add: world_ok_def taken_def pendings_def)
next
  case False
  have "tame {} (w_h w) h' \<and> ps_SessionID session \<in> pendings w \<and> ps_SessionID session \<notin> pendings ?w"
  proof (cases rule: timeout_cases [of "w_h w" sel session s])
    case silent
    with False assms(2) show ?thesis by simp
  next
    case denied
    with assms(2) show ?thesis by (simp add: pendings_def)
  qed
  then have t: "tame {} (w_h w) h'" "ps_SessionID session \<in> pendings w" "ps_SessionID session \<notin> pendings ?w"
    by simp_all
  have p: "pendings ?w \<subseteq> pendings w" using pendings_tame [of "{}" w ?w] t(1) by simp
  have k: "keyed (h_sessions h')" using assms(1) t(1) by (simp add: world_ok_def tame_def)
  have ok: "distinct (taken w)" "set (taken w) \<subseteq> w_used w" "pendings w \<subseteq> w_used w - set (taken w)"
    using assms(1) by (simp_all add: world_ok_def)
  then have "set (taken ?w) = insert (ps_SessionID session) (set (taken w))" "distinct (taken ?w)"
    using False t(2) by (auto simp: taken_def)
  with ok p t(2,3) k show ?thesis unfolding world_ok_def by auto
qed

lemma world_step_ok: "world_step w w' \<Longrightarrow> world_ok w \<Longrightarrow> world_ok w'"
proof (induction rule: world_step.induct)
  case (callback_refused e rq w r h')
  then show ?case by (intro world_ok_quiet) (auto dest: claim_refused(3) intro: tame_same [OF tame_refl])
next
  case (event e w c ev s)
  then show ?case by (intro world_ok_tame tame_HandleEvent)
qed (simp_all add: world_ok_claims world_ok_decides world_ok_timeout world_ok_quiet tame_handleReauth
    tame_waitForPromotedDeadline tame_sessionExpiryTimer tame_Rebuild tame_reap tame_refl)

interpretation daemon: transition_system world_init world_step world_ok
proof
  show "world_init w \<Longrightarrow> world_ok w" for w
    by (auto simp: world_init_def world_ok_def taken_def pendings_def status_of_def intro: fmdomI)
qed (blast intro: world_step_ok)

text \<open>
  C4: a session is settled at most once. Whatever callbacks, events, timers and sweeps do, and in
  whatever order their steps come, \<open>client-auth\<close> is sent at most once for a session, a session is
  denied by its timeout at most once, never both, and a session that has been settled in one of
  these ways is never pending again, so no later callback can claim it.
\<close>

theorem session_settled_once:
  assumes "reachable_from world_init world_step w"
  shows "distinct (w_granted w @ w_denied w) \<and>
    list_all (\<lambda>sid. status_of (h_sessions (w_h w)) sid \<noteq> Some SessionPending) (w_granted w @ w_denied w)"
  using daemon.reachable_inv [OF assms]
  by (auto simp: world_ok_def taken_def pendings_def list_all_iff)

definition sample_world :: world where
  "sample_world = \<lparr>w_h = sample_waiting, w_held = [], w_granted = [], w_denied = [], w_used = {''sid9''}\<rparr>"

lemma sample_grant_reachable:
  "\<exists>w. reachable_from world_init world_step w \<and> w_granted w = [''sid9'']"
proof -
  let ?sess = "sample_pending\<lparr>ps_Status := SessionProcessing\<rparr>"
  obtain sv' h' where r: "handleCallback sample_callback_env sample_checks sample_request sample_server sample_waiting =
      (Resp 200 ''Success'', sv', h')" using sample_granted by blast
  obtain h1 where c: "callback_claim sample_checks sample_request sample_waiting = (Inr ?sess, h1)"
    using sample_claim by blast
  have d: "callback_decide sample_callback_env sample_checks sample_request ?sess sample_server h1 =
      (Resp 200 ''Success'', sv', h')"
    using r c by (simp add: handleCallback_def)
  from decided_callback [OF this] have "allow (ps_CID ?sess) (ps_KID ?sess) \<in> set (decisions h1 h')"
    using sends_decisions by (force simp: decided_def)
  moreover have "ps_SessionID sample_pending = ''sid9''" by (simp add: sample_pending_def new_session_def)
  moreover from this have "world_init sample_world"
    using keyed_operations(1) [of fmempty sample_pending]
    by (simp add: world_init_def sample_world_def sample_waiting_def keyed_def Put_def)
  then have "reachable_from world_init world_step sample_world" by (rule reachable_from.start)
  moreover have "world_step sample_world (sample_world\<lparr>w_h := h1, w_held := ?sess # w_held sample_world\<rparr>)"
    by (rule callback_claims [where e = sample_checks and rq = sample_request]) (simp add: sample_world_def c)
  moreover have "world_step (sample_world\<lparr>w_h := h1, w_held := [?sess]\<rparr>)
      (sample_world\<lparr>w_h := h', w_held := [], w_granted := [''sid9'']\<rparr>)"
    using callback_decides [of ?sess "sample_world\<lparr>w_h := h1, w_held := [?sess]\<rparr>", OF _, of sample_callback_env
        sample_checks sample_request sample_server "Resp 200 ''Success''" sv' h'] calculation(1,2) d
    by (simp add: sample_world_def)
  ultimately have "reachable_from world_init world_step (sample_world\<lparr>w_h := h', w_held := [], w_granted := [''sid9'']\<rparr>)"
    by (simp add: sample_world_def) (metis reachable_from.step)
  then show ?thesis by fastforce
qed

theorem session_settled_once_witness:
  "\<exists>w :: world. w_granted w = [''sid9''] \<and> distinct (w_granted w @ w_denied w) \<and>
     status_of (h_sessions (w_h w)) ''sid9'' \<noteq> Some SessionPending"
proof -
  obtain w where w: "reachable_from world_init world_step w" "w_granted w = [''sid9'']"
    using sample_grant_reachable by blast
  from session_settled_once [OF w(1)] w(2) show ?thesis by (intro exI [of _ w]) simp
qed

end
