(* ===== verification/Broker.thy ===== *)
theory Broker
  imports Handler Status
begin

text \<open>
  \<open>internal/app/management_protocol.go\<close> and the command side of \<open>daemon.go\<close>: the translation of
  decisions to management commands, the broker that writes one command at a time and waits for
  its response, and the reader that separates notifications from response lines.

  The broker goroutine is a state machine driven by what its \<open>select\<close> receives; the reader is a
  function of the lines of the socket. What \<open>select\<close> picks among the ready cases, and the outcome
  of writing to the socket, are inputs.
\<close>

section \<open>Commands and their responses\<close>

definition decisionToCommand :: "decision \<Rightarrow> string" where
  "decisionToCommand d =
     (case d_Type d of
        DecisionAllow \<Rightarrow> ClientAuth (d_CID d) (d_KID d)
      | DecisionAllowNT \<Rightarrow> ClientAuthNT (d_CID d) (d_KID d)
      | DecisionDeny \<Rightarrow> ClientDeny (d_CID d) (d_KID d) (d_Reason d)
      | DecisionPending \<Rightarrow> ClientPendingAuth (d_CID d) (d_KID d) (d_URL d) (d_Timeout d)
      | DecisionKill \<Rightarrow> ClientKill (d_CID d) (d_KillMode d))"

datatype response_contract = SingleLineAck | MultiLineUntilEnd

definition ack_prefixes :: "string list" where
  "ack_prefixes = [''client-auth '', ''client-auth-nt '', ''client-deny '', ''client-pending-auth '', ''client-kill '']"

definition commandContract :: "string \<Rightarrow> response_contract result" where
  "commandContract cmd =
     (let command = TrimSpace cmd in
      if command = ''status 3'' then Ok MultiLineUntilEnd
      else if command = ''hold release'' \<or> list_ex (HasPrefix command) ack_prefixes then Ok SingleLineAck
      else Err ''management command has no registered response contract'')"

record command_response =
  cr_snapshot :: status_snapshot
  cr_err :: "string option"

definition no_snapshot :: status_snapshot where
  "no_snapshot = \<lparr>ss_clients = [], ss_established = []\<rparr>"

abbreviation failed :: "string \<Rightarrow> command_response" where
  "failed err \<equiv> \<lparr>cr_snapshot = no_snapshot, cr_err = Some err\<rparr>"

section \<open>The broker\<close>

record broker_request =
  br_command :: string
  br_contract :: response_contract

text \<open>What the broker goroutine can receive: a request from its queue (with the outcome of writing
  the command), a response line, its timer, the end of its context.\<close>

datatype broker_event =
    TakeRequest broker_request "string option"
  | ResponseLine string
  | TimerC
  | ContextDone string

datatype phase = Idle | Waiting broker_request "string list" | Finished string

record broker =
  bk_phase :: phase
  bk_written :: "string list" \<comment> \<open>the commands written to the socket\<close>
  bk_results :: "(string \<times> command_response) list" \<comment> \<open>the results delivered, with their command\<close>

definition newManagementBroker :: broker where
  "newManagementBroker = \<lparr>bk_phase = Idle, bk_written = [], bk_results = []\<rparr>"

text \<open>One pass of the loop of \<open>execute\<close> on a response line: \<open>None\<close> waits for more, otherwise the
  response and whether it is fatal.\<close>

definition response_line ::
  "(nat \<Rightarrow> nat) \<Rightarrow> response_contract \<Rightarrow> string list \<Rightarrow> string \<Rightarrow> (command_response \<times> string option) option" where
  "response_line uc contract lines line =
     (case contract of
        SingleLineAck \<Rightarrow>
          if HasPrefix line ''SUCCESS:'' then Some (\<lparr>cr_snapshot = no_snapshot, cr_err = None\<rparr>, None)
          else if HasPrefix line ''ERROR:'' then Some (failed (''openvpn command failed: '' @ line), None)
          else (let err = ''management protocol desynchronized: expected SUCCESS/ERROR''
                in Some (failed err, Some err))
      | MultiLineUntilEnd \<Rightarrow>
          if line \<noteq> ''END'' then None
          else (case ParseStatusLines uc (lines @ [line]) of
              Inl err \<Rightarrow> Some (failed err, Some err)
            | Inr snapshot \<Rightarrow> Some (\<lparr>cr_snapshot = snapshot, cr_err = None\<rparr>, None)))"

text \<open>\<open>request.result <- response\<close>, and \<open>finish\<close> on a fatal error.\<close>

definition deliver :: "broker_request \<Rightarrow> command_response \<Rightarrow> string option \<Rightarrow> broker \<Rightarrow> broker" where
  "deliver rq response fatal b =
     b\<lparr>bk_phase := (case fatal of None \<Rightarrow> Idle | Some err \<Rightarrow> Finished err),
       bk_results := bk_results b @ [(br_command rq, response)]\<rparr>"

text \<open>The loops of \<open>run\<close> and \<open>execute\<close> together.\<close>

fun broker_step :: "(nat \<Rightarrow> nat) \<Rightarrow> broker \<Rightarrow> broker_event \<Rightarrow> broker" where
  "broker_step uc b ev =
     (case bk_phase b of
        Finished err \<Rightarrow> b
      | Idle \<Rightarrow>
          (case ev of
             ContextDone err \<Rightarrow> b\<lparr>bk_phase := Finished err\<rparr>
           | ResponseLine line \<Rightarrow>
               b\<lparr>bk_phase := Finished ''management protocol desynchronized: unexpected response line''\<rparr>
           | TimerC \<Rightarrow> b
           | TakeRequest rq writeErr \<Rightarrow>
               (case writeErr of
                  Some err \<Rightarrow> deliver rq (failed err) (Some err) b
                | None \<Rightarrow> b\<lparr>bk_phase := Waiting rq [], bk_written := bk_written b @ [br_command rq]\<rparr>))
      | Waiting rq lines \<Rightarrow>
          (case ev of
             ContextDone err \<Rightarrow> deliver rq (failed err) (Some err) b
           | TimerC \<Rightarrow> (let err = ''management command response timeout after 5s'' in deliver rq (failed err) (Some err) b)
           | TakeRequest r w \<Rightarrow> b
           | ResponseLine line \<Rightarrow>
               (case response_line uc (br_contract rq) lines line of
                  None \<Rightarrow> b\<lparr>bk_phase := Waiting rq (lines @ [line])\<rparr>
                | Some (response, fatal) \<Rightarrow> deliver rq response fatal b)))"

definition broker_run :: "(nat \<Rightarrow> nat) \<Rightarrow> broker \<Rightarrow> broker_event list \<Rightarrow> broker" where
  "broker_run uc = foldl (broker_step uc)"

definition terminalError :: "broker \<Rightarrow> string" where
  "terminalError b = (case bk_phase b of Finished err \<Rightarrow> err | _ \<Rightarrow> ''management broker stopped'')"

lemma broker_run_simps [simp]:
  "broker_run uc b [] = b"
  "broker_run uc b (ev # evs) = broker_run uc (broker_step uc b ev) evs"
  "broker_run uc b (xs @ ys) = broker_run uc (broker_run uc b xs) ys"
  by (simp_all add: broker_run_def)

section \<open>Commands have a contract\<close>

text \<open>An id or a mode as OpenVPN knows it: one word.\<close>

definition word_arg :: "string \<Rightarrow> bool" where
  "word_arg s \<longleftrightarrow> s \<noteq> [] \<and> list_all plain_char s"

lemma plain_chars:
  "plain_char (CHR ''c'')" "plain_char (CHR ''D'')" "plain_char (CHR 0x22)"
  by (simp_all add: plain_char_def ascii_spaces_def)

lemma plain_digit: "is_digit c \<Longrightarrow> plain_char c"
  by (auto simp: is_digit_def plain_char_def ascii_spaces_def byte_def)

lemma plain_last: "word_arg s \<Longrightarrow> plain_char (last s)" "word_arg s \<Longrightarrow> plain_char (last (c # s))"
  by (auto simp: word_arg_def list_all_iff)

lemma commandContract_ack:
  assumes "p \<in> set ack_prefixes" and "plain_char (last (p @ rest))"
  shows "commandContract (p @ rest) = Ok SingleLineAck"
proof -
  have h: "\<exists>q. p = CHR ''c'' # q" using assms(1) by (auto simp: ack_prefixes_def)
  then have "TrimSpace (p @ rest) = p @ rest"
    using assms(2) plain_chars(1) by (intro TrimSpace_plain) auto
  moreover have "p @ rest \<noteq> ''status 3''" using h by auto
  moreover have "list_ex (HasPrefix (p @ rest)) ack_prefixes"
    using assms(1) HasPrefix_append unfolding list_ex_iff by blast
  ultimately show ?thesis by (simp add: commandContract_def Let_def)
qed

lemma last_itoa: "plain_char (last (xs @ itoa i))"
proof -
  have "itoa i \<noteq> []" "last (itoa i) \<in> set (nat_digits (nat \<bar>i\<bar>))" by (auto simp: itoa_def)
  then show ?thesis using nat_digits_all [of "nat \<bar>i\<bar>"] plain_digit by (auto simp: list_all_iff)
qed

text \<open>
  No decision is lost for want of a response contract. Every command that the daemon builds
  from a decision whose client id, key id and kill mode are words is one the broker accepts, with
  a single-line acknowledgement; so are \<open>hold release\<close> and, with a multi-line response, the status
  request. (The key id matters only where it ends the command.)
\<close>

theorem decision_commands_registered:
  assumes "word_arg (d_CID d)" and "d_Type d = DecisionAllowNT \<Longrightarrow> word_arg (d_KID d)"
    and "d_KillMode d = '''' \<or> word_arg (d_KillMode d)"
  shows "commandContract (decisionToCommand d) = Ok SingleLineAck \<and>
    commandContract ''hold release'' = Ok SingleLineAck \<and> commandContract ''status 3'' = Ok MultiLineUntilEnd"
proof (intro conjI)
  have m: "''client-auth '' \<in> set ack_prefixes" "''client-auth-nt '' \<in> set ack_prefixes"
    "''client-deny '' \<in> set ack_prefixes" "''client-pending-auth '' \<in> set ack_prefixes"
    "''client-kill '' \<in> set ack_prefixes"
    by (simp_all add: ack_prefixes_def)
  show "commandContract (decisionToCommand d) = Ok SingleLineAck"
  proof (cases "d_Type d")
    case DecisionAllow
    have "commandContract (''client-auth '' @ d_CID d @ '' '' @ d_KID d @ [CHR 0x0A] @ ''END'') = Ok SingleLineAck"
      by (rule commandContract_ack [OF m(1)]) (simp add: plain_chars)
    with DecisionAllow show ?thesis by (simp add: decisionToCommand_def ClientAuth_def)
  next
    case DecisionAllowNT
    have "commandContract (''client-auth-nt '' @ d_CID d @ '' '' @ d_KID d) = Ok SingleLineAck"
      using assms(2) [OF DecisionAllowNT] plain_last
      by (intro commandContract_ack [OF m(2)]) (simp add: word_arg_def)
    with DecisionAllowNT show ?thesis by (simp add: decisionToCommand_def ClientAuthNT_def)
  next
    case DecisionDeny
    have "commandContract (''client-deny '' @ d_CID d @ '' '' @ d_KID d @ '' '' @ [CHR 0x22] @ r @ [CHR 0x22]) =
        Ok SingleLineAck" for r
      by (rule commandContract_ack [OF m(3)]) (simp add: plain_chars)
    with DecisionDeny show ?thesis by (simp add: decisionToCommand_def ClientDeny_def Let_def)
  next
    case DecisionPending
    have "commandContract (''client-pending-auth '' @ (r @ itoa (d_Timeout d))) = Ok SingleLineAck" for r
      using last_itoa [of "''client-pending-auth '' @ r"] by (intro commandContract_ack [OF m(4)]) simp
    from this [of "d_CID d @ '' '' @ d_KID d @ '' '' @ [CHR 0x22] @ ''WEB_AUTH::'' @ d_URL d @ [CHR 0x22] @ '' ''"]
    show ?thesis using DecisionPending by (simp add: decisionToCommand_def ClientPendingAuth_def)
  next
    case DecisionKill
    have "commandContract (''client-kill '' @ rest) = Ok SingleLineAck" if "plain_char (last rest)" "rest \<noteq> []" for rest
      using that by (intro commandContract_ack [OF m(5)]) simp
    from this [of "d_CID d"] this [of "d_CID d @ '' '' @ d_KillMode d"] DecisionKill assms(1,3) plain_last
    show ?thesis by (auto simp: decisionToCommand_def ClientKill_def word_arg_def)
  qed
qed (code_simp)+

theorem decision_commands_registered_witness:
  "commandContract (decisionToCommand (kill ''7'' ''HALT'')) = Ok SingleLineAck"
proof -
  have w: "word_arg ''7''" "word_arg ''HALT''" by (simp_all add: word_arg_def plain_char_def ascii_spaces_def)
  have "d_CID (kill ''7'' ''HALT'') = ''7''" "d_KillMode (kill ''7'' ''HALT'') = ''HALT''"
    "d_Type (kill ''7'' ''HALT'') = DecisionKill" by (simp_all add: kill_def mk_decision_def)
  with w decision_commands_registered [of "kill ''7'' ''HALT''"] show ?thesis by simp
qed

section \<open>One command at a time\<close>

text \<open>The response a command is due, given the lines OpenVPN answers with; \<open>None\<close> when the lines are
  not an answer under the contract.\<close>

definition expected :: "(nat \<Rightarrow> nat) \<Rightarrow> response_contract \<Rightarrow> string list \<Rightarrow> command_response option" where
  "expected uc contract lines =
     (case contract of
        SingleLineAck \<Rightarrow>
          (case lines of
             [l] \<Rightarrow> if HasPrefix l ''SUCCESS:'' then Some \<lparr>cr_snapshot = no_snapshot, cr_err = None\<rparr>
                    else if HasPrefix l ''ERROR:'' then Some (failed (''openvpn command failed: '' @ l)) else None
           | _ \<Rightarrow> None)
      | MultiLineUntilEnd \<Rightarrow>
          if lines \<noteq> [] \<and> last lines = ''END'' \<and> ''END'' \<notin> set (butlast lines) then
            (case ParseStatusLines uc lines of
               Inl err \<Rightarrow> None
             | Inr snapshot \<Rightarrow> Some \<lparr>cr_snapshot = snapshot, cr_err = None\<rparr>)
          else None)"

lemma collect_rows:
  "bk_phase b = Waiting rq ls \<Longrightarrow> br_contract rq = MultiLineUntilEnd \<Longrightarrow> ''END'' \<notin> set rows \<Longrightarrow>
     broker_run uc b (map ResponseLine rows) = b\<lparr>bk_phase := Waiting rq (ls @ rows)\<rparr>"
  by (induction rows arbitrary: b ls) (auto simp: response_line_def)

lemma broker_exchange:
  assumes "bk_phase b = Idle" and "expected uc (br_contract rq) ls = Some r"
  shows "broker_run uc b (TakeRequest rq None # map ResponseLine ls) =
    b\<lparr>bk_written := bk_written b @ [br_command rq], bk_results := bk_results b @ [(br_command rq, r)]\<rparr>"
proof (cases "br_contract rq")
  case SingleLineAck
  with assms show ?thesis
    by (auto simp: expected_def response_line_def deliver_def split: list.splits if_splits)
next
  case MultiLineUntilEnd
  let ?b1 = "b\<lparr>bk_phase := Waiting rq [], bk_written := bk_written b @ [br_command rq]\<rparr>"
  from MultiLineUntilEnd assms(2) obtain rows snapshot where
    l: "ls = rows @ [''END'']" "''END'' \<notin> set rows" "ParseStatusLines uc ls = Ok snapshot"
      "r = \<lparr>cr_snapshot = snapshot, cr_err = None\<rparr>"
    by (auto simp: expected_def split: if_splits sum.splits) (metis append_butlast_last_id)
  have "broker_run uc ?b1 (map ResponseLine rows) = ?b1\<lparr>bk_phase := Waiting rq rows\<rparr>"
    using collect_rows [of ?b1 rq "[]" rows] MultiLineUntilEnd l(2) by simp
  then show ?thesis
    using assms(1) MultiLineUntilEnd l by (simp add: response_line_def deliver_def)
qed

lemma broker_exchanges:
  assumes "bk_phase b = Idle" and "list_all (\<lambda>(rq, ls). expected uc (br_contract rq) ls \<noteq> None) xs"
  shows "broker_run uc b (concat (map (\<lambda>(rq, ls). TakeRequest rq None # map ResponseLine ls) xs)) =
    b\<lparr>bk_written := bk_written b @ map (\<lambda>(rq, ls). br_command rq) xs,
      bk_results := bk_results b @
        map (\<lambda>(rq, ls). (br_command rq, the (expected uc (br_contract rq) ls))) xs\<rparr>"
  using assms
proof (induction xs arbitrary: b)
  case (Cons x xs)
  obtain rq ls where x: "x = (rq, ls)" by (cases x)
  with Cons.prems(2) obtain r where "expected uc (br_contract rq) ls = Some r" by auto
  from broker_exchange [OF Cons.prems(1) this] Cons.prems Cons.IH this x show ?case
    by (simp del: broker_step.simps)
qed simp

text \<open>
  C18: the broker keeps commands and responses in step. As long as OpenVPN answers every command
  according to its contract (one \<open>SUCCESS\<close> or \<open>ERROR\<close> line, or a status listing that ends with \<open>END\<close>
  and parses), any sequence of commands is written in order, every command gets exactly the
  response made of its own answer, an \<open>ERROR\<close> included, and the broker is ready for the next one.
\<close>

theorem broker_in_step:
  assumes "list_all (\<lambda>(rq, ls). expected uc (br_contract rq) ls \<noteq> None) xs"
  shows "broker_run uc newManagementBroker
      (concat (map (\<lambda>(rq, ls). TakeRequest rq None # map ResponseLine ls) xs)) =
    \<lparr>bk_phase = Idle, bk_written = map (\<lambda>(rq, ls). br_command rq) xs,
     bk_results = map (\<lambda>(rq, ls). (br_command rq, the (expected uc (br_contract rq) ls))) xs\<rparr>"
  using broker_exchanges [of newManagementBroker, OF _ assms] by (simp add: newManagementBroker_def)

theorem broker_in_step_witness:
  "broker_run id newManagementBroker
     [TakeRequest \<lparr>br_command = ''hold release'', br_contract = SingleLineAck\<rparr> None, ResponseLine ''SUCCESS: ok'',
      TakeRequest \<lparr>br_command = ''client-kill 7'', br_contract = SingleLineAck\<rparr> None, ResponseLine ''ERROR: no'']
   = \<lparr>bk_phase = Idle, bk_written = [''hold release'', ''client-kill 7''],
      bk_results = [(''hold release'', \<lparr>cr_snapshot = no_snapshot, cr_err = None\<rparr>),
        (''client-kill 7'', failed ''openvpn command failed: ERROR: no'')]\<rparr>"
  using broker_in_step [of id "[(\<lparr>br_command = ''hold release'', br_contract = SingleLineAck\<rparr>, [''SUCCESS: ok'']),
    (\<lparr>br_command = ''client-kill 7'', br_contract = SingleLineAck\<rparr>, [''ERROR: no''])]"]
  by (simp add: expected_def del: broker_step.simps)

text \<open>The broker's invariant: at most the last command written is still without a result.\<close>

definition broker_ok :: "broker \<Rightarrow> bool" where
  "broker_ok b \<longleftrightarrow>
     (case bk_phase b of
        Idle \<Rightarrow> map fst (bk_results b) = bk_written b
      | Waiting rq ls \<Rightarrow> map fst (bk_results b) @ [br_command rq] = bk_written b
      | Finished err \<Rightarrow> map fst (bk_results b) = bk_written b \<or>
          (\<exists>c. map fst (bk_results b) = bk_written b @ [c]))"

lemma broker_ok_step: "broker_ok b \<Longrightarrow> broker_ok (broker_step uc b ev)"
  by (auto simp: broker_ok_def deliver_def Let_def
      split: phase.splits broker_event.splits option.splits)

interpretation broker: transition_system "\<lambda>b. b = newManagementBroker"
  "\<lambda>b b'. \<exists>uc ev. b' = broker_step uc b ev" broker_ok
proof
  show "b = newManagementBroker \<Longrightarrow> broker_ok b" for b by (simp add: newManagementBroker_def broker_ok_def)
qed (use broker_ok_step in blast)

lemma broker_finished: "bk_phase b = Finished err \<Longrightarrow> broker_run uc b evs = b"
  by (induction evs) simp_all

lemma broker_results_grow: "\<exists>more. bk_results (broker_run uc b evs) = bk_results b @ more"
proof (induction evs arbitrary: b)
  case (Cons ev evs)
  have "\<exists>more. bk_results (broker_step uc b ev) = bk_results b @ more"
    by (auto simp: deliver_def Let_def split: phase.splits broker_event.splits option.splits)
  with Cons.IH [of "broker_step uc b ev"] show ?case by (auto simp del: broker_step.simps)
qed simp

lemma broker_waiting:
  assumes "bk_phase b = Waiting rq ls" and "TimerC \<in> set evs \<or> (\<exists>err. ContextDone err \<in> set evs)"
  shows "\<exists>r more. bk_results (broker_run uc b evs) = bk_results b @ (br_command rq, r) # more"
  using assms
proof (induction evs arbitrary: b ls)
  case (Cons ev evs)
  have "(\<exists>ls'. bk_phase (broker_step uc b ev) = Waiting rq ls') \<and> bk_results (broker_step uc b ev) = bk_results b \<and>
      ev \<noteq> TimerC \<and> (\<forall>err. ev \<noteq> ContextDone err) \<or>
    (\<exists>r. bk_results (broker_step uc b ev) = bk_results b @ [(br_command rq, r)])"
    using Cons.prems(1) by (cases ev) (auto simp: deliver_def Let_def split: option.splits)
  then consider (wait) ls' where "bk_phase (broker_step uc b ev) = Waiting rq ls'"
      "bk_results (broker_step uc b ev) = bk_results b" "TimerC \<in> set evs \<or> (\<exists>err. ContextDone err \<in> set evs)"
    | (complete) r where "bk_results (broker_step uc b ev) = bk_results b @ [(br_command rq, r)]"
    using Cons.prems(2) by (auto simp del: broker_step.simps)
  then show ?case
  proof cases
    case wait
    with Cons.IH [OF wait(1,3)] show ?thesis by (simp del: broker_step.simps)
  next
    case complete
    with broker_results_grow [of uc "broker_step uc b ev" evs] show ?thesis
      by (auto simp del: broker_step.simps)
  qed
qed simp

text \<open>
  C20: every request is answered. Once the broker has taken a request, its caller receives a
  result for it: at once when the command cannot be written, when a line completes the response,
  or at the latest when the response timer fires or the context ends; whatever other lines and
  requests come in between, the next result delivered is the one of this request.
\<close>

theorem broker_answers:
  assumes "bk_phase b = Idle" and "TimerC \<in> set evs \<or> (\<exists>err. ContextDone err \<in> set evs)"
  shows "\<exists>r more. bk_results (broker_run uc b (TakeRequest rq w # evs)) = bk_results b @ (br_command rq, r) # more"
proof (cases w)
  case None
  with assms broker_waiting [of "broker_step uc b (TakeRequest rq w)" rq "[]" evs uc] show ?thesis by simp
next
  case (Some err)
  with assms broker_finished [of "broker_step uc b (TakeRequest rq w)" err uc evs] show ?thesis
    by (simp add: deliver_def)
qed

theorem broker_answers_witness:
  "\<exists>r more. bk_results (broker_run id newManagementBroker
     [TakeRequest \<lparr>br_command = ''status 3'', br_contract = MultiLineUntilEnd\<rparr> None, ResponseLine ''TITLE'', TimerC]) =
   (''status 3'', r) # more"
  using broker_answers [of newManagementBroker "[ResponseLine ''TITLE'', TimerC]" id
      "\<lparr>br_command = ''status 3'', br_contract = MultiLineUntilEnd\<rparr>" None]
  by (simp add: newManagementBroker_def del: broker_step.simps)

text \<open>
  At most one command is outstanding, and losing step is final. In every state the broker can
  reach, the results are those of the commands written so far, in order, except possibly for the
  last command (a command that could not be written may be reported after them); and once the
  broker has stopped, on an unexpected line, a timeout or a broken listing, no later line can be
  taken for the answer to any command.
\<close>

theorem broker_one_at_a_time:
  assumes "reachable_from (\<lambda>b. b = newManagementBroker) (\<lambda>b b'. \<exists>uc ev. b' = broker_step uc b ev) b"
  shows "broker_ok b \<and> length (bk_written b) \<le> Suc (length (bk_results b)) \<and>
    (\<forall>err. bk_phase b = Finished err \<longrightarrow> broker_run uc b evs = b)"
proof -
  have ok: "broker_ok b" by (rule broker.reachable_inv [OF assms])
  then have "length (bk_written b) \<le> Suc (length (bk_results b))"
    by (auto simp: broker_ok_def dest: arg_cong [where f = length] split: phase.splits)
  with ok broker_finished show ?thesis by blast
qed

theorem broker_one_at_a_time_witness:
  "broker_ok (broker_step id newManagementBroker (ResponseLine ''stray'')) \<and>
   broker_run id (broker_step id newManagementBroker (ResponseLine ''stray''))
     [TakeRequest \<lparr>br_command = ''hold release'', br_contract = SingleLineAck\<rparr> None, ResponseLine ''SUCCESS: x''] =
   broker_step id newManagementBroker (ResponseLine ''stray'')"
proof -
  have "reachable_from (\<lambda>b. b = newManagementBroker) (\<lambda>b b'. \<exists>uc ev. b' = broker_step uc b ev)
      (broker_step id newManagementBroker (ResponseLine ''stray''))"
    by (blast intro: reachable_from.intros)
  from broker_one_at_a_time [OF this, of id] show ?thesis by (auto simp: newManagementBroker_def)
qed

end
