(* ===== verification/Reader.thy ===== *)
theory Reader
  imports Mgmt
begin

text \<open>
  \<open>readManagement\<close> of \<open>internal/app/management_protocol.go\<close>: the goroutine that reads the management
  socket and separates what OpenVPN sends on its own account (client notifications, hold requests,
  others) from the lines that answer a command. Its output is the sequence of what it puts on the
  channels. A send may lose against the end of the context: \<open>accepts\<close> says, for the sends made so
  far, whether the next one goes through.
\<close>

datatype routed = Notification event | Hold | Response string

datatype reader_end = Cancelled | ReadError string

definition after_send ::
  "(routed list \<Rightarrow> bool) \<Rightarrow> routed list \<Rightarrow> routed \<Rightarrow> (routed list \<Rightarrow> routed list \<times> reader_end) \<Rightarrow>
   routed list \<times> reader_end" where
  "after_send accepts out x rest = (if accepts out then rest (out @ [x]) else (out, Cancelled))"

lemma after_send_cong [fundef_cong]:
  "(accepts out \<Longrightarrow> rest (out @ [x]) = rest' (out @ [x])) \<Longrightarrow>
     after_send accepts out x rest = after_send accepts out x rest'"
  by (simp add: after_send_def)

lemma read_env_length: "length (snd (read_env ev scan_err lines)) \<le> length lines"
  by (induction ev scan_err lines rule: read_env.induct) (auto simp: Let_def split: option.splits intro: le_SucI)

lemma ReadEvent_length: "length (snd (ReadEvent header scan_err lines)) \<le> length lines"
  using read_env_length by (auto simp: ReadEvent_def Let_def split: sum.splits prod.splits)

lemma ReadEvent_shorter: "(r, rest) = ReadEvent header scan_err lines \<Longrightarrow> length rest \<le> length lines"
  using ReadEvent_length [of header scan_err lines] by (metis snd_conv)

function read_lines ::
  "(routed list \<Rightarrow> bool) \<Rightarrow> string option \<Rightarrow> routed list \<Rightarrow> string list \<Rightarrow> routed list \<times> reader_end" where
  "read_lines accepts scan_err out [] =
     (out, ReadError (case scan_err of
        Some err \<Rightarrow> if err \<noteq> ''context canceled'' then err else ''management socket closed''
      | None \<Rightarrow> ''management socket closed''))"
| "read_lines accepts scan_err out (line # rest) =
     (if HasPrefix line ''>CLIENT:'' then
        (case ReadEvent line scan_err rest of
           (Inl err, rest') \<Rightarrow> (out, ReadError err)
         | (Inr event, rest') \<Rightarrow>
             if ev_type event = EventIgnored then read_lines accepts scan_err out rest'
             else after_send accepts out (Notification event) (\<lambda>out'. read_lines accepts scan_err out' rest'))
      else if HasPrefix line ''>HOLD:'' then
        after_send accepts out Hold (\<lambda>out'. read_lines accepts scan_err out' rest)
      else if HasPrefix line ''>'' then read_lines accepts scan_err out rest
      else after_send accepts out (Response line) (\<lambda>out'. read_lines accepts scan_err out' rest))"
  by pat_completeness auto
termination
proof (relation "measure (\<lambda>(accepts, scan_err, out, lines). length lines)")
  show "wf (measure (\<lambda>(accepts, scan_err, out, lines). length lines))" by simp
qed (auto simp: less_Suc_eq_le dest: ReadEvent_shorter)

definition readManagement :: "(routed list \<Rightarrow> bool) \<Rightarrow> string option \<Rightarrow> string list \<Rightarrow> routed list \<times> reader_end" where
  "readManagement accepts scan_err lines = read_lines accepts scan_err [] lines"

declare read_lines.simps [simp del]

section \<open>The two streams are separated\<close>

text \<open>
  What OpenVPN writes: client notifications with their environment, one-line address
  notifications, hold requests, other notifications, and lines that answer commands.
\<close>

datatype item =
    Block string event_type string string "(string \<times> string) list"
  | Address string
  | HoldRequest string
  | OtherNotification string
  | Answer string

fun item_lines :: "item \<Rightarrow> string list" where
  "item_lines (Block header ty cid kid kvs) = header # map env_line kvs @ [env_end]"
| "item_lines (Address rest) = [''>CLIENT:ADDRESS,'' @ rest]"
| "item_lines (HoldRequest rest) = [''>HOLD:'' @ rest]"
| "item_lines (OtherNotification line) = [line]"
| "item_lines (Answer line) = [line]"

fun item_ok :: "item \<Rightarrow> bool" where
  "item_ok (Block header ty cid kid kvs) \<longleftrightarrow> HasPrefix header ''>CLIENT:'' \<and>
     ParseHeader header = Ok (ty, cid, kid) \<and> ty \<noteq> EventIgnored \<and> list_all (\<lambda>kv. var_name (fst kv)) kvs"
| "item_ok (Address rest) \<longleftrightarrow> True"
| "item_ok (HoldRequest rest) \<longleftrightarrow> True"
| "item_ok (OtherNotification line) \<longleftrightarrow>
     HasPrefix line ''>'' \<and> \<not> HasPrefix line ''>CLIENT:'' \<and> \<not> HasPrefix line ''>HOLD:''"
| "item_ok (Answer line) \<longleftrightarrow> \<not> HasPrefix line ''>''"

text \<open>Where each item belongs. A notification the daemon does not know is dropped as a whole.\<close>

fun item_routed :: "item \<Rightarrow> routed list" where
  "item_routed (Block header ty cid kid kvs) =
     (if ty = EventUnknown then []
      else [Notification \<lparr>ev_type = ty, ev_cid = cid, ev_kid = kid, ev_env = env_of kvs\<rparr>])"
| "item_routed (Address rest) = []"
| "item_routed (HoldRequest rest) = [Hold]"
| "item_routed (OtherNotification line) = []"
| "item_routed (Answer line) = [Response line]"

lemma not_client: "\<not> HasPrefix line ''>'' \<Longrightarrow> \<not> HasPrefix line ''>CLIENT:'' \<and> \<not> HasPrefix line ''>HOLD:''"
  by (cases line) auto

lemma read_item:
  assumes "item_ok it"
  shows "read_lines (\<lambda>_. True) scan_err out (item_lines it @ rest) =
    read_lines (\<lambda>_. True) scan_err (out @ item_routed it) rest"
proof (cases it)
  case (Block header ty cid kid kvs)
  have "ReadEvent header scan_err (map env_line kvs @ env_end # rest) =
    (Ok \<lparr>ev_type = (if ty = EventUnknown then EventIgnored else ty), ev_cid = cid, ev_kid = kid,
         ev_env = env_of kvs\<rparr>, rest)"
    using assms Block read_env_block [of kvs] by (simp add: ReadEvent_def list_all_iff env_of_def)
  with assms Block show ?thesis by (simp add: read_lines.simps after_send_def)
next
  case (Address r)
  have "ReadEvent (''>CLIENT:ADDRESS,'' @ r) scan_err rest =
    (Ok \<lparr>ev_type = EventIgnored, ev_cid = '''', ev_kid = '''', ev_env = fmempty\<rparr>, rest)"
    by (simp add: ReadEvent_def ParseHeader_def)
  with Address show ?thesis by (simp add: read_lines.simps)
next
  case (HoldRequest r)
  then show ?thesis by (simp add: read_lines.simps after_send_def)
next
  case (OtherNotification l)
  with assms show ?thesis by (simp add: read_lines.simps)
next
  case (Answer l)
  with assms not_client [of l] show ?thesis by (simp add: read_lines.simps after_send_def)
qed

lemma read_items:
  "list_all item_ok its \<Longrightarrow> read_lines (\<lambda>_. True) scan_err out (concat (map item_lines its) @ rest) =
     read_lines (\<lambda>_. True) scan_err (out @ concat (map item_routed its)) rest"
  by (induction its arbitrary: out) (simp_all add: read_item)

text \<open>
  C19: notifications and responses cannot be mistaken for one another. From any interleaving of
  complete notification blocks, address and hold lines, other notifications and answer lines, the
  reader hands the broker exactly the answer lines and the handler exactly the events (with their
  ids and environment) and hold requests, all in the order in which they came; a notification of
  an unknown kind is dropped with its whole environment. At the end of the stream the reader
  reports that the socket is closed.
\<close>

theorem reader_separates_streams:
  assumes "list_all item_ok its"
  shows "readManagement (\<lambda>_. True) None (concat (map item_lines its)) =
    (concat (map item_routed its), ReadError ''management socket closed'')"
  using read_items [OF assms, of None "[]" "[]"] by (simp add: readManagement_def read_lines.simps)

theorem reader_separates_streams_witness:
  "readManagement (\<lambda>_. True) None
     [''SUCCESS: hold released'', ''>CLIENT:ESTABLISHED,4'', ''>CLIENT:ENV,common_name=bob'', ''>CLIENT:ENV,END'',
      ''>STATE:1,CONNECTED'', ''>HOLD:Waiting'', ''END''] =
   ([Response ''SUCCESS: hold released'',
     Notification \<lparr>ev_type = EventEstablished, ev_cid = ''4'', ev_kid = '''', ev_env = env_of [(''common_name'', ''bob'')]\<rparr>,
     Hold, Response ''END''], ReadError ''management socket closed'')"
proof -
  let ?its = "[Answer ''SUCCESS: hold released'',
    Block ''>CLIENT:ESTABLISHED,4'' EventEstablished ''4'' '''' [(''common_name'', ''bob'')],
    OtherNotification ''>STATE:1,CONNECTED'', HoldRequest ''Waiting'', Answer ''END'']"
  have "ParseHeader ''>CLIENT:ESTABLISHED,4'' = Ok (EventEstablished, ''4'', '''')" by code_simp
  then have "list_all item_ok ?its" by (simp add: var_name_def)
  from reader_separates_streams [OF this] show ?thesis by (simp add: env_line_def env_end_def)
qed

end
