(* ===== verification/RawLog.thy ===== *)
theory RawLog
  imports GoStrings
begin

text \<open>
  The redaction of raw management lines in \<open>internal/app/daemon.go\<close>, applied before a line is
  logged. \<open>redactEnvValue\<close> and \<open>redactQueryValue\<close> have the same body.
\<close>

definition value_ends :: "char list" where
  "value_ends = [CHR ''&'', CHR '' '', CHR 0x09, CHR 0x0D, CHR 0x0A, CHR 0x22, CHR 0x27]"

fun skip_value :: "string \<Rightarrow> string" where
  "skip_value [] = []"
| "skip_value (c # cs) = (if c \<in> set value_ends then c # cs else skip_value cs)"

definition redactEnvValue :: "string \<Rightarrow> string \<Rightarrow> string" where
  "redactEnvValue line prefix =
     (case Index line prefix of
        None \<Rightarrow> line
      | Some idx \<Rightarrow>
          (let start = idx + length prefix
           in take start line @ ''[REDACTED]'' @ skip_value (drop start line)))"

definition redactQueryValue :: "string \<Rightarrow> string \<Rightarrow> string" where
  "redactQueryValue line key = redactEnvValue line key"

definition redactManagementRawLine :: "string \<Rightarrow> string" where
  "redactManagementRawLine line =
     redactQueryValue (redactEnvValue (redactEnvValue line ''>CLIENT:ENV,password='') ''password='') ''state=''"

section \<open>What is hidden\<close>

text \<open>A value and what follows it on the line: nothing, or a character that ends the value.\<close>

definition value_at :: "string \<Rightarrow> string \<Rightarrow> bool" where
  "value_at v rest \<longleftrightarrow> set v \<inter> set value_ends = {} \<and> (rest = [] \<or> hd rest \<in> set value_ends)"

lemma skip_value_at: "value_at v rest \<Longrightarrow> skip_value (v @ rest) = rest"
proof (induction v)
  case Nil
  then show ?case by (cases rest) (simp_all add: value_at_def)
qed (simp add: value_at_def)

lemma Index_first:
  assumes "\<not> Contains a key" and "key \<noteq> []" and "last key \<notin> set (butlast key)"
  shows "Index (a @ key @ t) key = Some (length a)"
  using assms(1)
proof (induction a)
  case Nil
  then show ?case using Index_append [of "key @ t" key] by simp
next
  case (Cons c a)
  have "\<not> HasPrefix ((c # a) @ key @ t) key"
  proof
    assume "HasPrefix ((c # a) @ key @ t) key"
    then obtain u where u: "(c # a) @ key @ t = key @ u" by (auto simp: HasPrefix_iff)
    show False
    proof (cases "length key \<le> length (c # a)")
      case True
      with u have "c # a = key @ drop (length key) (c # a)"
        by (metis append_eq_append_conv_if append_take_drop_id)
      then have "Contains (c # a) key" unfolding Contains_iff by (metis append_Nil)
      with Cons.prems show False by simp
    next
      case False
      let ?n = "length (c # a)"
      have "take ?n ((c # a) @ key @ t) = take ?n (key @ u)" using u by simp
      then have "c # a = take ?n key" using False by simp
      then have p: "key = (c # a) @ drop ?n key" "drop ?n key \<noteq> []"
        using False by (metis append_take_drop_id, simp)
      with u have "key @ t = drop ?n key @ u" by (metis append_assoc same_append_eq)
      then have "drop ?n key = take (length (drop ?n key)) (key @ t)" by simp
      then have q: "drop ?n key = take (length key - ?n) key" by simp
      have "last key = last (drop ?n key)" using p by (metis last_appendR)
      also have "\<dots> \<in> set (take (length key - ?n) key)" using p(2) q by (metis last_in_set)
      also have "\<dots> \<subseteq> set (butlast key)"
        unfolding butlast_conv_take by (rule set_take_subset_set_take) simp
      finally show False using assms(3) by simp
    qed
  qed
  moreover have "\<not> Contains a key" using Cons.prems unfolding Contains_iff by (metis append_Cons)
  ultimately show ?case using Cons.IH by simp
qed

lemma redact_first:
  assumes "\<not> Contains a key" and "key \<noteq> []" and "last key \<notin> set (butlast key)" and "value_at v rest"
  shows "redactEnvValue (a @ key @ v @ rest) key = a @ key @ ''[REDACTED]'' @ rest"
  using Index_first [OF assms(1-3), of "v @ rest"] skip_value_at [OF assms(4)]
  by (simp add: redactEnvValue_def Let_def)

lemma redact_none: "\<not> Contains line key \<Longrightarrow> redactEnvValue line key = line"
  by (simp add: redactEnvValue_def Contains_def)

lemma Contains_append:
  assumes "Contains (x @ y) key" and "last x \<notin> set key" and "x \<noteq> []"
  shows "Contains x key \<or> Contains y key"
proof -
  from assms(1) obtain a b where ab: "x @ y = a @ key @ b" by (auto simp: Contains_iff)
  then consider (right) u where "y = u @ key @ b" | (left) u where "x = a @ u" "u @ y = key @ b"
    by (auto simp: append_eq_append_conv2)
  then show ?thesis
  proof cases
    case right
    then show ?thesis unfolding Contains_iff by blast
  next
    case (left u)
    then consider w where "u = key @ w" | w where "key = u @ w" "y = w @ b"
      by (auto simp: append_eq_append_conv2)
    then show ?thesis
    proof cases
      case 1
      with left(1) show ?thesis unfolding Contains_iff by blast
    next
      case (2 w)
      with left(1) assms(2,3) have "u = []" by (cases u rule: rev_cases) auto
      with 2 have "y = [] @ key @ b" by simp
      then show ?thesis unfolding Contains_iff by blast
    qed
  qed
qed

lemma value_at_span: "value_at (takeWhile (\<lambda>c. c \<notin> set value_ends) s) (dropWhile (\<lambda>c. c \<notin> set value_ends) s)"
proof -
  have "dropWhile (\<lambda>c. c \<notin> set value_ends) s = [] \<or> hd (dropWhile (\<lambda>c. c \<notin> set value_ends) s) \<in> set value_ends"
    using hd_dropWhile [of "\<lambda>c. c \<notin> set value_ends" s] by auto
  then show ?thesis by (auto simp: value_at_def dest: set_takeWhileD)
qed

lemma redact_password:
  assumes "value_at v rest" and "\<not> Contains rest ''state=''"
  shows "redactManagementRawLine (''>CLIENT:ENV,password='' @ v @ rest) = ''>CLIENT:ENV,password=[REDACTED]'' @ rest"
proof -
  have r: "value_at ''[REDACTED]'' rest" using assms(1) by (simp add: value_at_def value_ends_def)
  have e: "\<not> Contains '''' ''>CLIENT:ENV,password=''" "\<not> Contains ''>CLIENT:ENV,'' ''password=''"
    "\<not> Contains ''>CLIENT:ENV,password=[REDACTED]'' ''state=''" by code_simp+
  have "redactEnvValue (''>CLIENT:ENV,password='' @ v @ rest) ''>CLIENT:ENV,password='' =
      ''>CLIENT:ENV,password='' @ ''[REDACTED]'' @ rest"
    using redact_first [OF e(1) _ _ assms(1)] by simp
  moreover have "redactEnvValue (''>CLIENT:ENV,password='' @ ''[REDACTED]'' @ rest) ''password='' =
      ''>CLIENT:ENV,password='' @ ''[REDACTED]'' @ rest"
    using redact_first [OF e(2) _ _ r] by simp
  moreover have "\<not> Contains (''>CLIENT:ENV,password=[REDACTED]'' @ rest) ''state=''"
    using Contains_append [of "''>CLIENT:ENV,password=[REDACTED]''" rest "''state=''"] e(3) assms(2) by auto
  ultimately show ?thesis
    by (simp add: redactManagementRawLine_def redactQueryValue_def redact_none)
qed

lemma redact_state:
  assumes "value_at v rest" and "\<not> Contains url ''state=''" and "\<not> Contains (url @ ''state='' @ v @ rest) ''password=''"
  shows "redactManagementRawLine (url @ ''state='' @ v @ rest) = url @ ''state=[REDACTED]'' @ rest"
proof -
  let ?l = "url @ ''state='' @ v @ rest"
  have "\<not> Contains ?l ''>CLIENT:ENV,password=''"
  proof
    assume "Contains ?l ''>CLIENT:ENV,password=''"
    then obtain a b where "?l = a @ ''>CLIENT:ENV,password='' @ b" unfolding Contains_iff by blast
    then have "?l = (a @ ''>CLIENT:ENV,'') @ ''password='' @ b" by simp
    with assms(3) show False unfolding Contains_iff by blast
  qed
  then have "redactManagementRawLine ?l = redactEnvValue ?l ''state=''"
    using assms(3) by (simp add: redactManagementRawLine_def redactQueryValue_def redact_none)
  also have "\<dots> = url @ ''state=[REDACTED]'' @ rest"
    using redact_first [OF assms(2) _ _ assms(1)] by simp
  finally show ?thesis .
qed

text \<open>An ampersand, white space or a quote.\<close>

definition brk :: "char set" where
  "brk = {CHR ''&'', CHR '' '', CHR 0x09, CHR 0x0D, CHR 0x0A, CHR 0x22, CHR 0x27}"

text \<open>
  C25: what the raw log hides. In a password line of the client environment the value is replaced up
  to its first ampersand, white space or quote, and the rest of the line is written as it is (as long
  as it has no \<open>state=\<close> parameter, which is cut as well); so a password is hidden entirely exactly when
  it has none of these characters. In a line without passwords the value of a state parameter, which
  authorises a session, is replaced in the same way.
\<close>

theorem raw_log_redacts_to_break:
  assumes "\<not> Contains (dropWhile (\<lambda>c. c \<notin> brk) pw) ''state=''"
    and "\<not> Contains url ''state=''" and "\<not> Contains (url @ ''state='' @ v) ''password=''"
  shows "redactManagementRawLine (''>CLIENT:ENV,password='' @ pw) =
      ''>CLIENT:ENV,password=[REDACTED]'' @ dropWhile (\<lambda>c. c \<notin> brk) pw \<and>
    (redactManagementRawLine (''>CLIENT:ENV,password='' @ pw) = ''>CLIENT:ENV,password=[REDACTED]'' \<longleftrightarrow> set pw \<inter> brk = {}) \<and>
    redactManagementRawLine (url @ ''state='' @ v) = url @ ''state=[REDACTED]'' @ dropWhile (\<lambda>c. c \<notin> brk) v"
proof -
  have b: "brk = set value_ends" by (auto simp: brk_def value_ends_def)
  note e = takeWhile_dropWhile_id [of "\<lambda>c. c \<notin> brk"]
  have 1: "redactManagementRawLine (''>CLIENT:ENV,password='' @ pw) =
      ''>CLIENT:ENV,password=[REDACTED]'' @ dropWhile (\<lambda>c. c \<notin> brk) pw"
    using redact_password [OF value_at_span [of pw]] assms(1) e [of pw] by (simp add: b)
  moreover have "redactManagementRawLine (url @ ''state='' @ v) = url @ ''state=[REDACTED]'' @ dropWhile (\<lambda>c. c \<notin> brk) v"
    using redact_state [OF value_at_span [of v] assms(2)] assms(3) e [of v] by (simp add: b)
  moreover have "dropWhile (\<lambda>c. c \<notin> brk) pw = [] \<longleftrightarrow> set pw \<inter> brk = {}" by (auto simp: dropWhile_eq_Nil_conv)
  ultimately show ?thesis by (simp only: append_self_conv simp_thms)
qed

theorem raw_log_redacts_to_break_witness:
  "redactManagementRawLine ''>CLIENT:ENV,password=hunter2'' = ''>CLIENT:ENV,password=[REDACTED]''"
proof -
  have d: "dropWhile (\<lambda>c. c \<notin> brk) ''hunter2'' = ''''" by (simp add: brk_def)
  have "\<not> Contains '''' ''state=''" "\<not> Contains ''u?'' ''state=''" "\<not> Contains (''u?'' @ ''state='' @ ''hunter2'') ''password=''"
    by code_simp+
  then show ?thesis using raw_log_redacts_to_break [of "''hunter2''" "''u?''" "''hunter2''"] unfolding d by simp
qed

text \<open>The value of an environment variable extends to the end of its line, but the redaction stops at
  the first blank, ampersand or quote: the rest of such a password is logged.\<close>

theorem password_tail_is_logged:
  "redactManagementRawLine ''>CLIENT:ENV,password=correct horse'' = ''>CLIENT:ENV,password=[REDACTED] horse''"
  by code_simp

end
