(* ===== verification/Daemon.thy ===== *)
theory Daemon
  imports System Broker Reader RawLog
begin

text \<open>
  \<open>internal/app/daemon.go\<close>: the sinks through which decisions reach the command channel, the
  forwarder that passes queued commands to the broker, the bootstrap and the event loop of a
  management connection, and the daemon's main loop, heartbeat and shutdown.

  The command channel is the list of the commands waiting in it. Which ready case a \<open>select\<close>
  takes is an input, as are the answers of OpenVPN and of the listener.
\<close>

section \<open>Sinks\<close>

record queued_command =
  qc_cmd :: string
  qc_ack :: "nat option" \<comment> \<open>the channel the result is sent to\<close>

datatype send_select = Sent | SendTimedOut | SendDone
datatype ack_select = AckReceived "string option" | AckTimedOut | AckDone

type_synonym cmd_channel = "queued_command list"

definition decisionSink_sendOne :: "send_select \<Rightarrow> string \<Rightarrow> cmd_channel \<Rightarrow> string option \<times> cmd_channel" where
  "decisionSink_sendOne sel cmd q =
     (if sel = Sent then (None, q @ [\<lparr>qc_cmd = cmd, qc_ack = None\<rparr>])
      else (Some ''command dropped: connection closed'', q))"

definition decisionSink_Send :: "send_select \<Rightarrow> decision \<Rightarrow> cmd_channel \<Rightarrow> string option \<times> cmd_channel" where
  "decisionSink_Send sel d q =
     (let cmd = decisionToCommand d in if cmd = '''' then (None, q) else decisionSink_sendOne sel cmd q)"

definition decisionSink_SendAck ::
  "send_select \<Rightarrow> ack_select \<Rightarrow> nat \<Rightarrow> decision \<Rightarrow> cmd_channel \<Rightarrow> string option \<times> cmd_channel" where
  "decisionSink_SendAck sel asel ch d q =
     (let cmd = decisionToCommand d in
      if cmd = '''' then (None, q)
      else if sel \<noteq> Sent then (Some ''command dropped: connection closed'', q)
      else ((case asel of
               AckReceived err \<Rightarrow> err
             | AckDone \<Rightarrow> Some ''command acknowledgement lost: connection closed''
             | AckTimedOut \<Rightarrow> Some ''command acknowledgement timed out after 5s''),
            q @ [\<lparr>qc_cmd = cmd, qc_ack = Some ch\<rparr>]))"

definition DaemonSink_trySend :: "send_select \<Rightarrow> string \<Rightarrow> cmd_channel \<Rightarrow> string option \<times> cmd_channel" where
  "DaemonSink_trySend sel cmd q =
     (if sel = Sent then (None, q @ [\<lparr>qc_cmd = cmd, qc_ack = None\<rparr>])
      else (Some ''command dropped: channel full after 5s'', q))"

definition DaemonSink_Send :: "send_select \<Rightarrow> decision \<Rightarrow> cmd_channel \<Rightarrow> string option \<times> cmd_channel" where
  "DaemonSink_Send sel d q =
     (let cmd = decisionToCommand d in if cmd = '''' then (None, q) else DaemonSink_trySend sel cmd q)"

definition DaemonSink_sendAck ::
  "send_select \<Rightarrow> ack_select \<Rightarrow> nat \<Rightarrow> string \<Rightarrow> cmd_channel \<Rightarrow> string option \<times> cmd_channel" where
  "DaemonSink_sendAck sel asel ch cmd q =
     (if sel \<noteq> Sent then (Some ''command dropped: channel full after 5s'', q)
      else ((case asel of AckReceived err \<Rightarrow> err | _ \<Rightarrow> Some ''command write ack timed out after 5s''),
            q @ [\<lparr>qc_cmd = cmd, qc_ack = Some ch\<rparr>]))"

definition DaemonSink_SendAck ::
  "send_select \<Rightarrow> ack_select \<Rightarrow> nat \<Rightarrow> decision \<Rightarrow> cmd_channel \<Rightarrow> string option \<times> cmd_channel" where
  "DaemonSink_SendAck sel asel ch d q =
     (let cmd = decisionToCommand d in if cmd = '''' then (None, q) else DaemonSink_sendAck sel asel ch cmd q)"

section \<open>The broker's clients\<close>

datatype request_outcome = GotResponse command_response | BrokerDone | RequestCtxDone string

definition request :: "broker \<Rightarrow> request_outcome \<Rightarrow> string \<Rightarrow> command_response \<times> string option" where
  "request b outcome command =
     (case commandContract command of
        Inl err \<Rightarrow> (\<lparr>cr_snapshot = no_snapshot, cr_err = None\<rparr>, Some err)
      | Inr contract \<Rightarrow>
          (case outcome of
             GotResponse r \<Rightarrow> (r, cr_err r)
           | BrokerDone \<Rightarrow> (\<lparr>cr_snapshot = no_snapshot, cr_err = None\<rparr>, Some (terminalError b))
           | RequestCtxDone err \<Rightarrow> (\<lparr>cr_snapshot = no_snapshot, cr_err = None\<rparr>, Some err)))"

definition brokerStatus :: "broker \<Rightarrow> request_outcome \<Rightarrow> status_snapshot result" where
  "brokerStatus b outcome =
     (case request b outcome ''status 3'' of
        (response, Some err) \<Rightarrow> Err err
      | (response, None) \<Rightarrow> Ok (cr_snapshot response))"

text \<open>One round of \<open>commandBrokerForwarder\<close>: the command at the head of the channel is passed to the
  broker, and the result goes to its acknowledgement channel, if it has one.\<close>

definition forward_one ::
  "broker \<Rightarrow> request_outcome \<Rightarrow> cmd_channel \<Rightarrow> (nat \<times> string option) option \<times> cmd_channel" where
  "forward_one b outcome q =
     (case q of
        [] \<Rightarrow> (None, [])
      | queued # rest \<Rightarrow>
          (case request b outcome (qc_cmd queued) of
             (response, err) \<Rightarrow>
               (map_option (\<lambda>ch. (ch, case err of None \<Rightarrow> cr_err response | Some x \<Rightarrow> Some x)) (qc_ack queued), rest)))"

section \<open>A management connection\<close>

text \<open>The evictions the sweep asks for, sent one by one and each connection once. When one is not
  acknowledged, the status tells whether the client is gone anyway.\<close>

fun send_evictions ::
  "environ \<Rightarrow> ctx \<Rightarrow> sink \<Rightarrow> string list \<Rightarrow> decision list \<Rightarrow> handler \<Rightarrow> string option \<times> handler" where
  "send_evictions e c s sentEvictions [] h = (None, h)"
| "send_evictions e c s sentEvictions (eviction # rest) h =
     (let cid = d_CID eviction in
      if cid \<in> set sentEvictions \<or> \<not> ReconciledEvictionNeeded cid h
      then send_evictions e c s sentEvictions rest h
      else (case send_decision e s eviction h of
          (None, h1) \<Rightarrow> send_evictions e c s (cid # sentEvictions) rest h1
        | (Some err, h1) \<Rightarrow>
            (case query_status e h1 of
               (Inl statusErr, h2) \<Rightarrow> (Some (''bootstrap eviction reconciliation: '' @ statusErr), h2)
             | (Inr snapshot, h2) \<Rightarrow>
                 send_evictions e c s (cid # sentEvictions) rest
                   (if ClientByCID snapshot cid = None
                    then HandleEvent e c \<lparr>ev_type = EventDisconnect, ev_cid = cid, ev_kid = '''', ev_env = fmempty\<rparr> s h2
                    else h2))))"

fun drained_events :: "routed list \<Rightarrow> event list" where
  "drained_events [] = []"
| "drained_events (Notification ev # rest) = ev # drained_events rest"
| "drained_events (_ # rest) = drained_events rest"

text \<open>From the status answer to the end of the evictions.\<close>

definition bootstrap ::
  "environ \<Rightarrow> ctx \<Rightarrow> sink \<Rightarrow> string list \<Rightarrow> status_snapshot \<Rightarrow> routed list \<Rightarrow> handler \<Rightarrow> string option \<times> handler" where
  "bootstrap e c s ks snapshot notifications h =
     (let h1 = SetStatusProvider (SetLiveSink s h);
          (evictions, h2) = RebuildSessionTrackingFromSnapshot e ks snapshot h1;
          h3 = foldl (\<lambda>h ev. HandleEvent e c ev s h) h2 (drained_events notifications)
      in send_evictions e c s [] evictions h3)"

text \<open>What the event loop of the connection receives. A hold request is passed on as a command,
  unless the forwarder has stopped.\<close>

datatype conn_input =
    ConnCtxDone string
  | ConnReadErr string
  | ConnBrokerDone string
  | ConnEvent event
  | ConnHold send_select

fun serve :: "environ \<Rightarrow> ctx \<Rightarrow> sink \<Rightarrow> conn_input list \<Rightarrow> cmd_channel \<Rightarrow> handler \<Rightarrow>
    string option option \<times> cmd_channel \<times> handler" where
  "serve e c s [] q h = (None, q, h)" \<comment> \<open>still connected\<close>
| "serve e c s (i # rest) q h =
     (case i of
        ConnCtxDone err \<Rightarrow> (Some (Some err), q, h)
      | ConnReadErr err \<Rightarrow> (Some (Some err), q, h)
      | ConnBrokerDone err \<Rightarrow> (Some (Some err), q, h)
      | ConnEvent ev \<Rightarrow> serve e c s rest q (HandleEvent e c ev s h)
      | ConnHold sel \<Rightarrow>
          if sel = Sent then serve e c s rest (q @ [\<lparr>qc_cmd = ''hold release'', qc_ack = None\<rparr>]) h
          else (Some None, q, h))"

definition detach :: "handler \<Rightarrow> handler" where
  "detach h = ClearLiveSink (ClearStatusProvider h)"

text \<open>\<open>handleConnection\<close>: the outcomes of \<open>hold release\<close> and of the first status request, the map
  order \<open>ks\<close> of the sweep, the drained notifications and the inputs of the loop are given. The
  handler is detached from the connection whenever it was attached.\<close>

definition handleConnection ::
  "environ \<Rightarrow> ctx \<Rightarrow> sink \<Rightarrow> string option \<Rightarrow> status_snapshot result \<Rightarrow> string list \<Rightarrow> routed list \<Rightarrow>
   conn_input list \<Rightarrow> cmd_channel \<Rightarrow> handler \<Rightarrow> string option option \<times> cmd_channel \<times> handler" where
  "handleConnection e c s hold status ks notifications inputs q h =
     (case hold of
        Some err \<Rightarrow> (Some (Some (''bootstrap hold release: '' @ err)), q, h)
      | None \<Rightarrow>
          (case status of
             Inl err \<Rightarrow> (Some (Some err), q, h)
           | Inr snapshot \<Rightarrow>
               (case bootstrap e c s ks snapshot notifications h of
                  (Some err, h1) \<Rightarrow> (Some (Some err), q, detach h1)
                | (None, h1) \<Rightarrow>
                    (case serve e c s inputs q h1 of
                       (None, q1, h2) \<Rightarrow> (None, q1, h2)
                     | (Some r, q1, h2) \<Rightarrow> (Some r, q1, detach h2)))))"

section \<open>The daemon\<close>

record daemon =
  dm_cfg :: config
  dm_handler :: handler
  dm_cmdCh :: cmd_channel
  dm_shutdownCtx :: ctx
  dm_socketConnected :: bool

definition New :: "config \<Rightarrow> ctx \<Rightarrow> handler \<Rightarrow> daemon" where
  "New cfg shutdownCtx h =
     \<lparr>dm_cfg = cfg, dm_handler = SetLifecycleContext shutdownCtx h, dm_cmdCh = [],
      dm_shutdownCtx = shutdownCtx, dm_socketConnected = False\<rparr>"

definition SocketConnected :: "daemon \<Rightarrow> bool" where
  "SocketConnected d = dm_socketConnected d"

text \<open>The wait of \<open>gracefulShutdown\<close> for authentications in flight: at every tick it looks at the
  number of them, until it is zero or the grace period is over; \<open>None\<close> while it still waits.\<close>

datatype shutdown_select = GraceExpired | Tick nat

fun drain_loop :: "shutdown_select list \<Rightarrow> bool option" where
  "drain_loop [] = None"
| "drain_loop (GraceExpired # rest) = Some False"
| "drain_loop (Tick n # rest) = (if n = 0 then Some True else drain_loop rest)"

definition gracefulShutdown :: "shutdown_select list \<Rightarrow> handler \<Rightarrow> bool option" where
  "gracefulShutdown sels h = (if InFlight h = 0 then Some True else drain_loop sels)"

text \<open>One round of the main loop: what is observed before dialling, the outcome of the dial, the
  connection, and what is observed after it.\<close>

record round =
  rd_ctxErr :: "string option"
  rd_cbErr :: "string option"
  rd_dialErr :: "string option"
  rd_env :: environ
  rd_sink :: sink
  rd_hold :: "string option"
  rd_status :: "status_snapshot result"
  rd_ks :: "string list"
  rd_drained :: "routed list"
  rd_inputs :: "conn_input list"
  rd_cbErrAfter :: "string option"
  rd_ctxErrAfter :: "string option"
  rd_shutdown :: "shutdown_select list"

text \<open>Where the main loop is. From \<open>Dialed\<close> to \<open>Draining\<close> the socket is open: it has been dialled and
  not been closed. \<open>Dialed\<close> and \<open>Connected\<close> are before and in \<open>handleConnection\<close>, \<open>Ended\<close> is after it
  and \<open>Draining\<close> in \<open>gracefulShutdown\<close>.\<close>

datatype run_state = Running | Dialed | Connected | Ended | Draining | Returned string

text \<open>The states a round goes through, the last being where it stays or ends. What other goroutines
  read of the daemon, they read in one of these states.\<close>

definition run_round :: "round \<Rightarrow> daemon \<Rightarrow> (run_state \<times> daemon) list" where
  "run_round r d =
     (case rd_ctxErr r of
        Some err \<Rightarrow> [(Returned err, d)]
      | None \<Rightarrow>
     (case rd_cbErr r of
        Some err \<Rightarrow> [(Returned (''callback server: '' @ err), d)]
      | None \<Rightarrow>
     (case rd_dialErr r of
        Some err \<Rightarrow> [(Returned err, d)]
      | None \<Rightarrow>
          (let d0 = d\<lparr>dm_socketConnected := True\<rparr> in
           (Dialed, d0) #
           (case handleConnection (rd_env r) (dm_shutdownCtx d0) (rd_sink r) (rd_hold r) (rd_status r) (rd_ks r)
                   (rd_drained r) (rd_inputs r) (dm_cmdCh d0) (dm_handler d0) of
              (ended, q, h) \<Rightarrow>
                (let d1 = d0\<lparr>dm_handler := h, dm_cmdCh := q\<rparr> in
                 case ended of
                   None \<Rightarrow> [(Connected, d1)]
                 | Some err \<Rightarrow>
                     (Ended, d1) #
                     (case rd_cbErrAfter r of
                        Some cbErr \<Rightarrow> [(Returned (''callback server: '' @ cbErr), d1\<lparr>dm_socketConnected := False\<rparr>)]
                      | None \<Rightarrow>
                          (case rd_ctxErrAfter r of
                             Some ctxErr \<Rightarrow>
                               (Draining, d1) #
                               (if gracefulShutdown (rd_shutdown r) h = None then []
                                else [(Returned ctxErr, d1\<lparr>dm_socketConnected := False\<rparr>)])
                           | None \<Rightarrow> [(Running, d1\<lparr>dm_socketConnected := False\<rparr>)]))))))))"

fun Run_loop :: "round list \<Rightarrow> daemon \<Rightarrow> (run_state \<times> daemon) list" where
  "Run_loop [] d = [(Running, d)]"
| "Run_loop (r # rest) d =
     (let states = run_round r d in
      (Running, d) # states @
      (case last states of
         (Running, d1) \<Rightarrow> Run_loop rest d1
       | _ \<Rightarrow> []))"

definition Run :: "string option \<Rightarrow> round list \<Rightarrow> daemon \<Rightarrow> (run_state \<times> daemon) list" where
  "Run listenErr rounds d =
     (case listenErr of
        Some err \<Rightarrow>
          [(Returned (''callback server listen :'' @ itoa (CallbackPort (dm_cfg d)) @ '': '' @ err), d)]
      | None \<Rightarrow> Run_loop rounds d)"

text \<open>The heartbeat: for every tick before the context ends, the connection state and the number of
  stored sessions.\<close>

datatype heartbeat_select = HeartbeatTick bool nat | HeartbeatDone

fun heartbeats :: "heartbeat_select list \<Rightarrow> (bool \<times> nat) list" where
  "heartbeats [] = []"
| "heartbeats (HeartbeatDone # rest) = []"
| "heartbeats (HeartbeatTick connected stored # rest) = (connected, stored) # heartbeats rest"

definition heartbeatLoop :: "config \<Rightarrow> heartbeat_select list \<Rightarrow> (bool \<times> nat) list" where
  "heartbeatLoop cfg sels = (if \<not> EMFMetrics cfg \<or> EMFInterval cfg \<le> 0 then [] else heartbeats sels)"

section \<open>Evictions after a reconnect\<close>

lemma disconnect_event:
  "HandleEvent e c \<lparr>ev_type = EventDisconnect, ev_cid = cid, ev_kid = k, ev_env = env\<rparr> s h = handleDisconnect cid h"
  by (simp add: HandleEvent_def)

lemma eviction_needed_disconnect:
  "ReconciledEvictionNeeded x (handleDisconnect cid h) \<Longrightarrow> ReconciledEvictionNeeded x h"
  by (auto simp: ReconciledEvictionNeeded_def handleDisconnect_lookup split: if_splits option.splits)

lemma sends_disconnect: "sends ds h h1 \<Longrightarrow> sends ds h (handleDisconnect cid h1)"
  by (erule sends_silent)
     (auto simp: handleDisconnect_def untrack_def stop_all_def delete_session_def cancel_opt_def split: option.splits)

text \<open>What the eviction loop achieves from a state \<open>h\<close> in which \<open>prev\<close> has been sent already.\<close>

definition evicted ::
  "string list \<Rightarrow> decision list \<Rightarrow> handler \<Rightarrow> string option \<Rightarrow> decision list \<Rightarrow> handler \<Rightarrow> bool" where
  "evicted prev evictions h r ds h' \<longleftrightarrow>
     sends ds h h' \<and> distinct (map d_CID ds) \<and> set ds \<subseteq> set evictions \<and> d_CID ` set ds \<inter> set prev = {} \<and>
     (\<forall>cid. ReconciledEvictionNeeded cid h' \<longrightarrow> ReconciledEvictionNeeded cid h) \<and>
     (r = None \<longrightarrow> (\<forall>d \<in> set evictions. ReconciledEvictionNeeded (d_CID d) h' \<longrightarrow>
        d_CID d \<in> set prev \<union> d_CID ` set ds))"

lemma evicted_one:
  assumes "d_CID d \<notin> set prev" and "sends [d] h h1"
    and "\<And>cid. ReconciledEvictionNeeded cid h1 \<Longrightarrow> ReconciledEvictionNeeded cid h"
    and "evicted (d_CID d # prev) rest h1 r ds h'"
  shows "evicted prev (d # rest) h r (d # ds) h'"
proof -
  have "sends ([d] @ ds) h h'" using assms(2,4) sends_trans unfolding evicted_def by blast
  with assms(1,3,4) show ?thesis unfolding evicted_def by auto
qed

lemma send_evictions_evicted:
  "send_evictions e c s prev evictions h = (r, h') \<Longrightarrow> \<exists>ds. evicted prev evictions h r ds h'"
proof (induction evictions arbitrary: prev h)
  case Nil
  then show ?case by (auto simp: evicted_def intro!: exI [of _ "[]"] sends_refl)
next
  case (Cons d rest)
  let ?cid = "d_CID d"
  show ?case
  proof (cases "?cid \<in> set prev \<or> \<not> ReconciledEvictionNeeded ?cid h")
    case True
    then have "send_evictions e c s prev rest h = (r, h')" using Cons.prems by (simp add: Let_def)
    from Cons.IH [OF this] True show ?thesis unfolding evicted_def by fastforce
  next
    case False
    obtain x h1 where x: "send_decision e s d h = (x, h1)" by (cases "send_decision e s d h")
    have h1: "sends [d] h h1" "ReconciledEvictionNeeded cid h1 = ReconciledEvictionNeeded cid h" for cid
      using x by (auto simp: send_decision_def sends_def ReconciledEvictionNeeded_def Let_def map_filter_simps)
    show ?thesis
    proof (cases x)
      case None
      with False x Cons.prems have "send_evictions e c s (?cid # prev) rest h1 = (r, h')" by (simp add: Let_def)
      from Cons.IH [OF this] False h1 show ?thesis using evicted_one by blast
    next
      case (Some err)
      let ?h2 = "emit OStatus h1"
      have h2: "sends [d] h ?h2" "ReconciledEvictionNeeded cid ?h2 = ReconciledEvictionNeeded cid h" for cid
        using h1 by (simp_all add: sends_emit ReconciledEvictionNeeded_def)
      show ?thesis
      proof (cases "e_status e (h_out ?h2)")
        case (Inl serr)
        with False x Some Cons.prems h2 show ?thesis
          by (intro exI [of _ "[d]"]) (auto simp: evicted_def query_status_def Let_def)
      next
        case (Inr snapshot)
        let ?h3 = "if ClientByCID snapshot ?cid = None then handleDisconnect ?cid ?h2 else ?h2"
        have "send_evictions e c s (?cid # prev) rest ?h3 = (r, h')"
          using False x Some Inr Cons.prems by (simp add: query_status_def disconnect_event Let_def cong: if_cong)
        moreover have "sends [d] h ?h3" using h2(1) sends_disconnect by simp
        moreover have "ReconciledEvictionNeeded cid ?h3 \<Longrightarrow> ReconciledEvictionNeeded cid h" for cid
          using h2(2) eviction_needed_disconnect by (metis (full_types))
        ultimately show ?thesis using Cons.IH False evicted_one by blast
      qed
    qed
  qed
qed


definition sample_flagged :: handler where
  "sample_flagged = sample_handler\<lparr>h_cids := fmupd ''7'' (zero_cid_state\<lparr>cs_evictionRequested := True\<rparr>) fmempty\<rparr>"


section \<open>Attached only while connected\<close>

definition detached :: "handler \<Rightarrow> bool" where
  "detached h \<longleftrightarrow> h_liveSink h = None \<and> \<not> h_statusProvider h"

lemma detached_connection:
  assumes "handleConnection e c s hold status ks notifications inputs q h = (Some r, q', h')" and "detached h"
  shows "detached h'"
  using assms
  by (auto simp: handleConnection_def detached_def detach_def ClearLiveSink_def ClearStatusProvider_def
      split: option.splits sum.splits prod.splits)

text \<open>The flag says whether the socket is open, and the handler is attached in \<open>handleConnection\<close> only.\<close>

definition truthful :: "run_state \<times> daemon \<Rightarrow> bool" where
  "truthful s \<longleftrightarrow>
     (dm_socketConnected (snd s) \<longleftrightarrow> fst s \<in> {Dialed, Connected, Ended, Draining}) \<and>
     (fst s = Connected \<or> detached (dm_handler (snd s)))"

lemma run_round_truthful:
  assumes "truthful (Running, d)"
  shows "list_all truthful (run_round r d)"
  using assms
  by (auto simp: run_round_def truthful_def Let_def split: option.splits prod.splits dest: detached_connection)

lemma run_round_ne: "run_round r d \<noteq> []"
  by (auto simp: run_round_def Let_def split: option.splits prod.splits)

lemma Run_loop_truthful: "truthful (Running, d) \<Longrightarrow> list_all truthful (Run_loop rs d)"
proof (induction rs d rule: Run_loop.induct)
  case (2 r rest d)
  note states = run_round_truthful [OF 2(2), of r]
  obtain st d1 where l: "last (run_round r d) = (st, d1)" by (cases "last (run_round r d)")
  with states last_in_set [OF run_round_ne, of r d] have "truthful (st, d1)" by (simp add: list_all_iff)
  with 2 states l show ?case by (cases st) (simp_all add: Let_def)
qed simp

text \<open>
  C23: the daemon's view of the connection is truthful. In every state the main loop passes through,
  over any sequence of rounds (a port that is taken, failed dials, failed bootstraps, connections
  that end with an error or are closed, a failing callback server, a shutdown), the health endpoint
  answers 200 exactly while the management socket is open, from the dial to the close that ends the
  round, and 503 otherwise; and the handler is attached to a sink and to a status provider only while
  \<open>handleConnection\<close> serves the connection.
\<close>

theorem health_reflects_connection:
  assumes "(st, d) \<in> set (Run listenErr rs (New cfg ctx h))" and "detached h"
  shows "(st = Connected \<or> detached (dm_handler d)) \<and>
    fst (handleHealthz (SocketConnected d) now sv (dm_handler d)) =
      (if st \<in> {Dialed, Connected, Ended, Draining} then 200 else 503)"
proof -
  have "truthful (Running, New cfg ctx h)" "truthful (Returned err, New cfg ctx h)" for err
    using assms(2) by (simp_all add: truthful_def New_def detached_def SetLifecycleContext_def)
  with assms(1) Run_loop_truthful have "truthful (st, d)"
    by (auto simp: Run_def list_all_iff split: option.splits)
  then show ?thesis by (auto simp: truthful_def handleHealthz_def SocketConnected_def Let_def)
qed

definition sample_round :: round where
  "sample_round = \<lparr>rd_ctxErr = None, rd_cbErr = None, rd_dialErr = None, rd_env = sample_env, rd_sink = Sink 0 True,
     rd_hold = Some ''timeout'', rd_status = Err ''none'', rd_ks = [], rd_drained = [], rd_inputs = [],
     rd_cbErrAfter = None, rd_ctxErrAfter = None, rd_shutdown = []\<rparr>"

theorem health_reflects_connection_witness:
  "\<exists>d d'. (Ended, d) \<in> set (Run None [sample_round] (New sample_config Background sample_handler)) \<and>
     fst (handleHealthz (SocketConnected d) 0 sample_server (dm_handler d)) = 200 \<and>
     (Running, d') \<in> set (Run None [sample_round] (New sample_config Background sample_handler)) \<and>
     fst (handleHealthz (SocketConnected d') 0 sample_server (dm_handler d')) = 503"
proof -
  let ?d = "New sample_config Background sample_handler"
  have s: "run_round sample_round ?d = [(Dialed, ?d\<lparr>dm_socketConnected := True\<rparr>), (Ended, ?d\<lparr>dm_socketConnected := True\<rparr>),
      (Running, ?d\<lparr>dm_socketConnected := False\<rparr>)]"
    by (simp add: run_round_def sample_round_def handleConnection_def Let_def)
  then have m: "(Ended, ?d\<lparr>dm_socketConnected := True\<rparr>) \<in> set (Run None [sample_round] ?d)"
    "(Running, ?d\<lparr>dm_socketConnected := False\<rparr>) \<in> set (Run None [sample_round] ?d)"
    by (simp_all add: Run_def Let_def)
  have "detached sample_handler" by (simp add: detached_def sample_handler_def NewHandler_def)
  note h = health_reflects_connection [OF m(1) this, of 0 sample_server] health_reflects_connection [OF m(2) this, of 0 sample_server]
  have "fst (handleHealthz (SocketConnected (?d\<lparr>dm_socketConnected := True\<rparr>)) 0 sample_server
      (dm_handler (?d\<lparr>dm_socketConnected := True\<rparr>))) = 200"
    using h(1) by (simp del: daemon.simps)
  moreover have "fst (handleHealthz (SocketConnected (?d\<lparr>dm_socketConnected := False\<rparr>)) 0 sample_server
      (dm_handler (?d\<lparr>dm_socketConnected := False\<rparr>))) = 503"
    using h(2) by (simp del: daemon.simps)
  ultimately show ?thesis using m by blast
qed

section \<open>Commands outlive their acknowledgement\<close>

text \<open>
  When the acknowledgement of a grant does not arrive within five seconds, the callback reports a
  failure and marks the session failed, but the command is still in the channel and is passed to
  the broker later, in this connection or the next.
\<close>

theorem unacknowledged_grant_stays_queued:
  "\<exists>err. DaemonSink_SendAck Sent AckTimedOut ch (allow cid kid) q =
     (Some err, q @ [\<lparr>qc_cmd = ClientAuth cid kid, qc_ack = Some ch\<rparr>])"
  by (simp add: DaemonSink_SendAck_def DaemonSink_sendAck_def decisionToCommand_def allow_def mk_decision_def
      ClientAuth_def Let_def)

end
