(* ===== verification/Cognito.thy ===== *)
theory Cognito
  imports Callback
begin

text \<open>
  Package \<open>internal/cognito\<close>: the check of a user against the user pool, and the fetch of an ALB
  public key. The AWS SDK's client is a parameter: what \<open>AdminGetUser\<close> returns and the pages of
  \<open>AdminListGroupsForUser\<close>, each as a function of the user pool and the user name asked for. So are
  the HTTP client and the parsing of a key in PEM form.
\<close>

section \<open>Users and groups\<close>

datatype user_status = Confirmed | ExternalProvider | OtherStatus string

datatype get_user = UserNotFound | GetUserFailed string | GotUser bool user_status

text \<open>A page of groups; a group may come without a name.\<close>

type_synonym group_page = "string + string option list"

fun page_has :: "string \<Rightarrow> string option list \<Rightarrow> bool" where
  "page_has requiredGroup [] = False"
| "page_has requiredGroup (g # gs) = (if g = Some requiredGroup then True else page_has requiredGroup gs)"

fun search_pages :: "string \<Rightarrow> group_page list \<Rightarrow> bool result" where
  "search_pages requiredGroup [] = Ok False"
| "search_pages requiredGroup (Inl err # pages) = Err err"
| "search_pages requiredGroup (Inr groups # pages) =
     (if page_has requiredGroup groups then Ok True else search_pages requiredGroup pages)"

text \<open>The SDK's client (\<open>UserPoolId\<close> and \<open>Username\<close> are the inputs of both calls), and the checker.\<close>

record cognito_client =
  cc_AdminGetUser :: "string \<Rightarrow> string \<Rightarrow> get_user"
  cc_AdminListGroupsForUser :: "string \<Rightarrow> string \<Rightarrow> group_page list"

record checker =
  ck_client :: cognito_client
  ck_userPoolID :: string

definition NewChecker :: "cognito_client \<Rightarrow> string \<Rightarrow> checker" where
  "NewChecker client userPoolID = \<lparr>ck_client = client, ck_userPoolID = userPoolID\<rparr>"

definition CheckUser ::
  "gotime \<Rightarrow> checker \<Rightarrow> string \<Rightarrow> string \<Rightarrow> bool \<Rightarrow> identity_result \<times> string option" where
  "CheckUser now c username requiredGroup checkGroups =
     (let result = \<lparr>ir_Exists = False, ir_Enabled = False, ir_InGroup = False, ir_CheckedAt = now,
                    ir_FailureCause = ''''\<rparr> in
      case cc_AdminGetUser (ck_client c) (ck_userPoolID c) username of
        UserNotFound \<Rightarrow> (result, None)
      | GetUserFailed err \<Rightarrow> (result\<lparr>ir_FailureCause := ''cognito error: '' @ err\<rparr>, Some err)
      | GotUser enabled status \<Rightarrow>
          (let result = result\<lparr>ir_Exists := True, ir_Enabled := enabled \<and> status \<in> {Confirmed, ExternalProvider}\<rparr> in
           if checkGroups \<and> requiredGroup \<noteq> '''' then
             (case search_pages requiredGroup (cc_AdminListGroupsForUser (ck_client c) (ck_userPoolID c) username) of
                Inl err \<Rightarrow> (result\<lparr>ir_FailureCause := ''list groups error: '' @ err\<rparr>, Some err)
              | Inr found \<Rightarrow> (result\<lparr>ir_InGroup := found\<rparr>, None))
           else (result\<lparr>ir_InGroup := True\<rparr>, None)))"

definition StaticCheckUser :: "gotime \<Rightarrow> bool \<Rightarrow> string \<Rightarrow> string \<Rightarrow> bool \<Rightarrow> identity_result \<times> string option" where
  "StaticCheckUser now c_checkGroups username requiredGroup checkGroups =
     (\<lparr>ir_Exists = True, ir_Enabled = True, ir_InGroup = \<not> checkGroups \<or> requiredGroup = '''' \<or> c_checkGroups,
       ir_CheckedAt = now, ir_FailureCause = ''''\<rparr>, None)"

text \<open>The answer as the handler and the callback server take it: the result counts only without an
  error.\<close>

definition checker_answer :: "identity_result \<times> string option \<Rightarrow> string + identity_result" where
  "checker_answer r = (case r of (result, None) \<Rightarrow> Inr result | (result, Some err) \<Rightarrow> Inl err)"

lemma page_has_iff: "page_has g gs \<longleftrightarrow> Some g \<in> set gs"
  by (induction gs) auto

lemma search_pages_Ok:
  "search_pages g pages = Ok found \<Longrightarrow>
     (found \<longrightarrow> (\<exists>gs. Inr gs \<in> set pages \<and> Some g \<in> set gs)) \<and>
     (\<not> found \<longrightarrow> (\<forall>p \<in> set pages. \<exists>gs. p = Inr gs \<and> Some g \<notin> set gs))"
  by (induction g pages rule: search_pages.induct) (auto simp: page_has_iff split: if_splits)

text \<open>
  C26: the checker's answer is what the configured user pool says of the user asked for. An answer
  without error says that the user exists exactly when the pool knows the user, and is enabled
  exactly when the account is enabled and confirmed or federated; when a group is to be checked,
  membership is asserted only if a page of this user's groups names the group, and denied only if
  every page was read and none names it; a failing page or lookup is an error, never an answer.
\<close>

theorem checker_answers_pool:
  assumes "checker_answer (CheckUser now (NewChecker client pool) user grp True) = Inr r" and "grp \<noteq> ''''"
  shows "let pages = cc_AdminListGroupsForUser client pool user in
    case cc_AdminGetUser client pool user of
      UserNotFound \<Rightarrow> \<not> ir_Exists r \<and> \<not> ir_Enabled r \<and> \<not> ir_InGroup r
    | GetUserFailed err \<Rightarrow> False
    | GotUser enabled status \<Rightarrow>
        ir_Exists r \<and> (ir_Enabled r \<longleftrightarrow> enabled \<and> status \<in> {Confirmed, ExternalProvider}) \<and>
        (if ir_InGroup r then \<exists>gs. Inr gs \<in> set pages \<and> Some grp \<in> set gs
         else list_all (\<lambda>p. \<exists>gs. p = Inr gs \<and> Some grp \<notin> set gs) pages)"
proof (cases "cc_AdminGetUser client pool user")
  case (GotUser enabled status)
  then obtain found where "search_pages grp (cc_AdminListGroupsForUser client pool user) = Ok found"
    using assms by (auto simp: checker_answer_def CheckUser_def NewChecker_def Let_def split: sum.splits)
  with GotUser assms search_pages_Ok [OF this] show ?thesis
    by (auto simp: checker_answer_def CheckUser_def NewChecker_def Let_def list_all_iff)
qed (use assms in \<open>auto simp: checker_answer_def CheckUser_def NewChecker_def Let_def\<close>)

definition sample_client :: cognito_client where
  "sample_client =
     \<lparr>cc_AdminGetUser = (\<lambda>pool user. if pool = ''p'' \<and> user = ''alice'' then GotUser True Confirmed else UserNotFound),
      cc_AdminListGroupsForUser = (\<lambda>pool user. [Inr [None, Some ''staff''], Inr [Some ''vpn'']])\<rparr>"

theorem checker_answers_pool_witness:
  "\<exists>r. checker_answer (CheckUser 0 (NewChecker sample_client ''p'') ''alice'' ''vpn'' True) = Inr r
     \<and> ir_Enabled r \<and> ir_InGroup r"
proof -
  obtain r where r: "checker_answer (CheckUser 0 (NewChecker sample_client ''p'') ''alice'' ''vpn'' True) = Inr r" "ir_InGroup r"
    by (simp add: checker_answer_def CheckUser_def NewChecker_def sample_client_def Let_def)
  from checker_answers_pool [OF r(1)] r show ?thesis by (auto simp: sample_client_def Let_def)
qed

section \<open>ALB public keys\<close>

definition DefaultALBPublicKeyBaseURL :: "string \<Rightarrow> string" where
  "DefaultALBPublicKeyBaseURL region = ''https://public-keys.auth.elb.'' @ region @ ''.amazonaws.com''"

record http_reply =
  hr_status :: nat
  hr_body :: string

definition maxKeySize :: nat where "maxKeySize = 8 * 1024"

text \<open>The request to the key endpoint (\<open>get\<close>) and the PEM and PKIX parsers (\<open>parsePKIX\<close>: the key, and
  whether it is an ECDSA key) are given.\<close>

definition parseECPublicKey :: "(string \<Rightarrow> (string \<times> bool) option) \<Rightarrow> string \<Rightarrow> string option" where
  "parseECPublicKey parsePKIX pem =
     (case parsePKIX pem of Some (key, isECDSA) \<Rightarrow> if isECDSA then Some key else None | None \<Rightarrow> None)"

definition FetchALBPublicKey ::
  "(string \<Rightarrow> http_reply result) \<Rightarrow> (string \<Rightarrow> (string \<times> bool) option) \<Rightarrow> string \<Rightarrow> string \<Rightarrow> string option" where
  "FetchALBPublicKey get parsePKIX baseURL kid =
     (case get (baseURL @ ''/'' @ kid) of
        Inl err \<Rightarrow> None
      | Inr resp \<Rightarrow>
          if hr_status resp \<noteq> 200 then None
          else parseECPublicKey parsePKIX (take maxKeySize (hr_body resp)))"

definition key_base_url :: "config \<Rightarrow> string" where
  "key_base_url cfg =
     (if ALBPublicKeyBaseURL cfg = '''' then DefaultALBPublicKeyBaseURL (AWSRegion cfg) else ALBPublicKeyBaseURL cfg)"

text \<open>The server as \<open>NewServer\<close> sets it up.\<close>

definition NewServer :: "config \<Rightarrow> sink \<Rightarrow> bool \<Rightarrow> bool \<Rightarrow> gotime \<Rightarrow> server" where
  "NewServer cfg s tracker identity now =
     \<lparr>sv_cfg = cfg, sv_sink = s, sv_tracker = tracker, sv_identity = identity, sv_albARN = ALBARN cfg,
      sv_keyCache = fmempty, sv_startTime = now\<rparr>"

text \<open>Every key in the cache was fetched for its key id, from the configured base URL, as an ECDSA key.\<close>

definition cache_fetched :: "(string \<Rightarrow> string option) \<Rightarrow> server \<Rightarrow> bool" where
  "cache_fetched fetch sv \<longleftrightarrow> fmpred (\<lambda>kid key. fetch kid = Some key) (sv_keyCache sv)"

lemma cache_fetched_step:
  "cache_fetched (ce_fetch ce) sv \<Longrightarrow> cache_fetched (ce_fetch ce) (snd (getOrFetchKey ce kid sv))"
  by (auto simp: cache_fetched_def getOrFetchKey_def intro!: fmpred_upd split: option.splits)

lemma read_token_cache:
  "snd (read_token_claims ce tok hdr sv) = sv \<or>
   snd (read_token_claims ce tok hdr sv) = snd (getOrFetchKey ce (jh_Kid hdr) sv)"
  by (auto simp: read_token_claims_def case_prod_beta split: option.splits)



end
