(* ===== verification/Startup.thy ===== *)
theory Startup
  imports Settings Pages OidcDebug Emf Daemon Cognito
begin

text \<open>
  \<open>cmd/openvpn-auth-daemon/main.go\<close>: from the command line to a daemon whose parts share one session
  store, one signer and one command channel.

  \<open>start\<close> is \<open>main\<close> up to the call of \<open>daemon.Run\<close>. What the process takes from outside is a record:
  the environment, the arguments, the random bytes, the AWS configuration and secret, the template
  files and the clock. Every \<open>os.Exit(1)\<close> is the outcome \<open>StartFailed\<close> with its message.
\<close>

section \<open>Logging and version\<close>

record logging =
  lg_debug :: bool
  lg_json :: bool

definition setupLogging :: "config \<Rightarrow> logging" where
  "setupLogging cfg = \<lparr>lg_debug = ManagementRawLog cfg \<or> OIDCDebugClaims cfg, lg_json = LogFormat cfg = ''json''\<rparr>"

definition versionLine :: "string \<Rightarrow> string \<Rightarrow> string \<Rightarrow> string" where
  "versionLine version revision buildDate = version @ '' revision='' @ revision @ '' build_date='' @ buildDate"

section \<open>The parts\<close>

record start_env =
  st_uc :: "nat \<Rightarrow> nat"
  st_env :: env
  st_args :: "string list"
  st_build :: "string \<times> string \<times> string"
  st_awsErr :: "string option" \<comment> \<open>error of \<open>config.LoadDefaultConfig\<close>\<close>
  st_getSecret :: "string \<Rightarrow> string + secret_value option"
  st_randKey :: "string option"
  st_randSalt :: "string result"
  st_templates :: template_source
  st_hostname :: string
  st_now :: gotime

datatype identity_checker = StaticChecker bool | CognitoChecker string \<comment> \<open>the user pool\<close>

record components =
  cp_cfg :: config
  cp_logging :: logging
  cp_notices :: "startup_notice list"
  cp_emitter :: emitter
  cp_stdout :: bool \<comment> \<open>whether metrics are written or discarded\<close>
  cp_identity :: identity_checker
  cp_daemon :: daemon
  cp_server :: server
  cp_pages :: page_server
  cp_debug :: "oidcDebugLogger option"

datatype start_result =
    ConfigFatal parse_result
  | FlagEnd nat
  | VersionShown string
  | StartFailed string
  | Panic string
  | Started components

text \<open>\<open>loadAWSConfig\<close>: the configuration is loaded once; the result says whether it is loaded.\<close>

definition loadAWSConfig :: "start_env \<Rightarrow> bool \<Rightarrow> bool result" where
  "loadAWSConfig se loaded =
     (if loaded then Ok True else (case st_awsErr se of Some err \<Rightarrow> Err err | None \<Rightarrow> Ok True))"

text \<open>The signer of the state values, and whether the AWS configuration has been loaded for it.\<close>

definition choose_signer :: "start_env \<Rightarrow> config \<Rightarrow> start_result + static_signer \<times> bool" where
  "choose_signer se cfg =
     (if HMACSecret cfg \<noteq> '''' then
        (case NewStaticSigner (HMACSecret cfg) of
           Inl err \<Rightarrow> Inl (StartFailed ''invalid hmac-secret'')
         | Inr s \<Rightarrow> Inr (s, False))
      else if HMACSecretSecretID cfg \<noteq> '''' then
        (case loadAWSConfig se False of
           Inl err \<Rightarrow> Inl (StartFailed ''aws config failed'')
         | Inr loaded \<Rightarrow>
             (case FetchHMACSecret (st_getSecret se) (HMACSecretSecretID cfg) of
                Inl err \<Rightarrow> Inl (StartFailed ''failed to fetch hmac secret'')
              | Inr secret \<Rightarrow>
                  (case NewStaticSigner secret of
                     Inl err \<Rightarrow> Inl (StartFailed ''invalid hmac secret from Secrets Manager'')
                   | Inr s \<Rightarrow> Inr (s, loaded))))
      else (case NewRandomSigner (st_randKey se) of
          None \<Rightarrow> Inl (Panic ''crypto/rand'')
        | Some s \<Rightarrow> Inr (s, False)))"

definition choose_identity :: "start_env \<Rightarrow> config \<Rightarrow> bool \<Rightarrow> start_result + identity_checker" where
  "choose_identity se cfg awsLoaded =
     (if CognitoUserPoolID cfg = '''' then Inr (StaticChecker (CheckRequiredGroupOnReauth cfg))
      else (case loadAWSConfig se awsLoaded of
          Inl err \<Rightarrow> Inl (StartFailed ''aws config failed'')
        | Inr _ \<Rightarrow> Inr (CognitoChecker (CognitoUserPoolID cfg))))"

text \<open>The daemon's context and its command channel, as a sink that waits for acknowledgements.\<close>

definition daemon_ctx :: ctx where "daemon_ctx = Root 0"
definition daemonSink :: sink where "daemonSink = Sink 0 True"

definition build_daemon :: "config \<Rightarrow> static_signer \<Rightarrow> daemon" where
  "build_daemon cfg signer =
     (let d = New cfg daemon_ctx (NewHandler cfg NewSessionStore signer)
      in d\<lparr>dm_handler := SetTimeoutSink daemonSink (dm_handler d)\<rparr>)"

text \<open>\<open>callback.NewServer\<close>: the templates and the debug logger can fail.\<close>

definition build_server ::
  "start_env \<Rightarrow> config \<Rightarrow> (server \<times> page_server \<times> oidcDebugLogger option) result" where
  "build_server se cfg =
     (case loadTemplates (st_templates se) (TemplatesDir cfg) of
        Inl err \<Rightarrow> Err (''callback server: '' @ err)
      | Inr tmpl \<Rightarrow>
          (case newOIDCDebugLogger (st_randSalt se) (OIDCDebugClaims cfg) (LogFormat cfg) of
             Inl err \<Rightarrow> Err (''callback server: '' @ err)
           | Inr dbg \<Rightarrow>
               Ok (NewServer cfg daemonSink True True (st_now se),
                   \<lparr>pg_tmpl = tmpl, pg_hostname = st_hostname se, pg_serverName = ServerName cfg\<rparr>, dbg)))"

definition start_parts :: "start_env \<Rightarrow> config \<Rightarrow> start_result" where
  "start_parts se cfg =
     (case choose_signer se cfg of
        Inl r \<Rightarrow> r
      | Inr (signer, awsLoaded) \<Rightarrow>
          (case choose_identity se cfg awsLoaded of
             Inl r \<Rightarrow> r
           | Inr identity \<Rightarrow>
               (case build_server se cfg of
                  Inl err \<Rightarrow> StartFailed ''callback server init failed''
                | Inr (srv, pages, dbg) \<Rightarrow>
                    Started
                      \<lparr>cp_cfg = cfg, cp_logging = setupLogging cfg, cp_notices = LogStartupNotices cfg,
                       cp_emitter = NewEmitter (InstanceID cfg), cp_stdout = EMFMetrics cfg,
                       cp_identity = identity, cp_daemon = build_daemon cfg signer, cp_server = srv,
                       cp_pages = pages, cp_debug = dbg\<rparr>)))"

definition start :: "start_env \<Rightarrow> start_result" where
  "start se =
     (case Parse_config (st_uc se) (st_env se) (st_args se) of
        FlagExit n \<Rightarrow> FlagEnd n
      | Parsed cfg \<Rightarrow>
          if ShowVersion cfg then (case st_build se of (v, r, b) \<Rightarrow> VersionShown (versionLine v r b))
          else start_parts se cfg
      | other \<Rightarrow> ConfigFatal other)"

section \<open>A daemon that starts is guarded\<close>

lemma NewStaticSigner_length: "NewStaticSigner s = Inr x \<Longrightarrow> 16 \<le> length (signer_secret x)"
  by (auto simp: NewStaticSigner_def MinSecretLen_def split: if_splits)

lemma choose_signer_length:
  assumes "choose_signer se cfg = Inr (s, l)" and "\<And>k. st_randKey se = Some k \<Longrightarrow> length k = 32"
  shows "16 \<le> length (signer_secret s)"
  using assms NewStaticSigner_length
  by (fastforce simp: choose_signer_def NewRandomSigner_def split: if_splits sum.splits option.splits)

lemma start_parts_Started:
  assumes "start_parts se cfg = Started cp"
  obtains signer l where "choose_signer se cfg = Inr (signer, l)" "choose_identity se cfg l = Inr (cp_identity cp)"
    "build_server se cfg = Ok (cp_server cp, cp_pages cp, cp_debug cp)"
    "cp_daemon cp = build_daemon cfg signer" "cp_cfg cp = cfg"
proof (cases "choose_signer se cfg")
  case (Inl r)
  then have "r \<noteq> Started cp"
    by (auto simp: choose_signer_def split: if_splits sum.splits option.splits)
  with Inl assms show thesis by (simp add: start_parts_def)
next
  case (Inr sl)
  obtain signer l where sl: "sl = (signer, l)" by (cases sl)
  show thesis
  proof (cases "choose_identity se cfg l")
    case (Inl r)
    then have "r \<noteq> Started cp" by (auto simp: choose_identity_def split: if_splits sum.splits)
    with Inl Inr sl assms show thesis by (simp add: start_parts_def)
  next
    case id: (Inr identity)
    with Inr sl assms that show thesis
      by (auto simp: start_parts_def split: sum.splits prod.splits)
  qed
qed

text \<open>
  C28: A daemon that starts is guarded. Whatever the environment and the command line are, if the
  process gets as far as running the daemon then its settings passed validation and no variable was
  malformed; the state values are signed with a secret of at least 16 bytes; the handler, its
  timeouts and the callback server share one configuration and one command channel, and the
  handler's sessions end with the daemon's context; both pages can be rendered; claim diagnostics
  are logged only when they were asked for. With an ALB configured, the server insists on that
  ALB's signature and on the pool's issuer, users are checked against a user pool, and the callback
  URL is encrypted.
\<close>

theorem started_daemon_guarded:
  assumes "start se = Started cp" and "\<And>k. st_randKey se = Some k \<Longrightarrow> length k = 32"
  shows "Validate (cp_cfg cp) = Inr () \<and> all_env_errors (st_uc se) (st_env se) = [] \<and>
         16 \<le> length (signer_secret (h_signer (dm_handler (cp_daemon cp)))) \<and>
         h_cfg (dm_handler (cp_daemon cp)) = cp_cfg cp \<and> sv_cfg (cp_server cp) = cp_cfg cp \<and>
         h_timeoutSink (dm_handler (cp_daemon cp)) = Some (sv_sink (cp_server cp)) \<and>
         h_lifecycleCtx (dm_handler (cp_daemon cp)) = Some (dm_shutdownCtx (cp_daemon cp)) \<and>
         set requiredTemplates \<subseteq> set (tm_names (pg_tmpl (cp_pages cp))) \<and>
         (cp_debug cp \<noteq> None \<longleftrightarrow> OIDCDebugClaims (cp_cfg cp)) \<and>
         (ALBARN (cp_cfg cp) \<noteq> '''' \<longrightarrow>
            sv_albARN (cp_server cp) = ALBARN (cp_cfg cp) \<and> CognitoIssuerURL (cp_cfg cp) \<noteq> '''' \<and>
            cp_identity cp = CognitoChecker (CognitoUserPoolID (cp_cfg cp)) \<and> CognitoUserPoolID (cp_cfg cp) \<noteq> '''' \<and>
            HasPrefix (CallbackURL (cp_cfg cp)) ''https://'')"
proof -
  obtain cfg where p: "Parse_config (st_uc se) (st_env se) (st_args se) = Parsed cfg" "\<not> ShowVersion cfg"
    "start_parts se cfg = Started cp"
    using assms(1) by (auto simp: start_def split: parse_result.splits if_splits prod.splits)
  have v: "all_env_errors (st_uc se) (st_env se) = []" "Validate cfg = Inr ()"
    using parse_outcomes_ok p(1,2) by blast+
  from p(3) obtain signer l where parts: "choose_signer se cfg = Inr (signer, l)"
    "choose_identity se cfg l = Inr (cp_identity cp)"
    "build_server se cfg = Ok (cp_server cp, cp_pages cp, cp_debug cp)"
    "cp_daemon cp = build_daemon cfg signer" "cp_cfg cp = cfg" by (rule start_parts_Started)
  obtain tmpl where t: "loadTemplates (st_templates se) (TemplatesDir cfg) = Ok tmpl"
    and srv: "NewServer cfg daemonSink True True (st_now se) = cp_server cp"
      "\<lparr>pg_tmpl = tmpl, pg_hostname = st_hostname se, pg_serverName = ServerName cfg\<rparr> = cp_pages cp"
      "newOIDCDebugLogger (st_randSalt se) (OIDCDebugClaims cfg) (LogFormat cfg) = Ok (cp_debug cp)"
    using parts(3) by (auto simp: build_server_def split: sum.splits)
  have dbg: "cp_debug cp \<noteq> None \<longleftrightarrow> OIDCDebugClaims cfg"
    using srv(3) by (cases "cp_debug cp") (auto simp: newOIDCDebugLogger_def split: if_splits sum.splits)
  have alb: "production_ready cfg \<and> cp_identity cp = CognitoChecker (CognitoUserPoolID cfg)" if "ALBARN cfg \<noteq> ''''"
    using valid_production [OF v(2) that] parts(2)
    by (auto simp: production_ready_def choose_identity_def split: if_splits sum.splits)
  show ?thesis
    using v parts(4,5) srv(1,2) [symmetric] dbg alb choose_signer_length [OF parts(1) assms(2)]
      loadTemplates_complete [OF t]
    by (simp add: build_daemon_def New_def NewHandler_def SetTimeoutSink_def SetLifecycleContext_def NewServer_def
        production_ready_def Let_def)
qed

section \<open>Example\<close>

definition sample_flags :: "(string \<times> string) list" where
  "sample_flags = [(''callback-url'', ''https://new.example/cb''), (''alb-arn'', ''arn:alb''),
     (''cognito-user-pool-id'', ''pool''), (''cognito-issuer-url'', ''https://issuer'')]"

definition sample_start :: start_env where
  "sample_start =
     \<lparr>st_uc = id, st_env = sample_environment, st_args = map flag_text sample_flags,
      st_build = (''dev'', ''unknown'', ''unknown''), st_awsErr = None, st_getSecret = (\<lambda>_. Inl ''unused''),
      st_randKey = Some (replicate 32 (CHR ''k'')), st_randSalt = Err ''unused'',
      st_templates = \<lparr>ts_stat = (\<lambda>_. StatNotExist ''unused''), ts_parseFiles = (\<lambda>_. Err ''unused''),
                      ts_embedded = Ok sample_templates\<rparr>,
      st_hostname = ''host'', st_now = 0\<rparr>"

definition sample_started :: config where
  "sample_started = sample_settings\<lparr>CallbackURL := ''https://new.example/cb'', ALBARN := ''arn:alb'',
     CognitoUserPoolID := ''pool'', CognitoIssuerURL := ''https://issuer''\<rparr>"

lemma sample_started_valid: "Validate sample_started = Inr ()" "\<not> ShowVersion sample_started"
  by (simp_all add: Validate_def default_groups_source_def problems_of_def problem_if_def sample_settings_def
      zero_config_def isValidGroupsSource_def validGroupsSources_def GroupsSourceCognitoAPI_def
      GroupsSourceJWTClaim_def time_second_def sample_started_def)

lemma sample_start_parsed:
  "Parse_config (st_uc sample_start) (st_env sample_start) (st_args sample_start) = Parsed sample_started"
proof -
  have "fst ` set sample_flags \<subseteq> set string_names"
    by (simp add: string_names_def string_settings_def sample_flags_def)
  from parse_assignments [OF this, of sample_settings]
  have "parse_args (map flag_of declarations) (map flag_text sample_flags) sample_settings = Inr sample_started"
    by (simp only: foldl.simps prod.case assign_simps sample_flags_def sample_started_def)
  then show ?thesis
    using sample_started_valid
    by (simp only: Parse_config_def sample_defaults prod.case sum.case if_False not_False_eq_True simp_thms
        sample_start_def start_env.simps)
qed

lemma sample_start_Started: "\<exists>cp. start sample_start = Started cp"
proof -
  have "\<exists>cp. start_parts sample_start sample_started = Started cp"
    by (simp add: start_parts_def choose_signer_def sample_started_def sample_settings_def zero_config_def
        NewRandomSigner_def sample_start_def choose_identity_def loadAWSConfig_def build_server_def
        loadTemplates_def sample_templates_def newOIDCDebugLogger_def requiredTemplates_def)
  then show ?thesis by (simp only: start_def sample_start_parsed parse_result.case sample_started_valid if_False)
qed

theorem started_daemon_guarded_witness:
  "\<exists>cp. start sample_start = Started cp \<and> Validate (cp_cfg cp) = Inr () \<and>
     16 \<le> length (signer_secret (h_signer (dm_handler (cp_daemon cp))))"
proof -
  obtain cp where cp: "start sample_start = Started cp" using sample_start_Started by blast
  have "length k = 32" if "st_randKey sample_start = Some k" for k
    using that by (auto simp: sample_start_def)
  with started_daemon_guarded [OF cp] cp show ?thesis by blast
qed

end
