(* ===== verification/MgmtClient.thy ===== *)
theory MgmtClient
  imports GoStrings
begin

text \<open>
  \<open>internal/mgmt/client.go\<close>: dialling the management socket with a growing delay, and the password
  exchange. A connection is the bytes the peer sends before it closes and the lines written to
  it; the outcome of every dial and of every wait is an input.
\<close>

section \<open>Lines\<close>

text \<open>\<open>bufio.ScanLines\<close>: a line ends at a newline or at the end of the input, and a carriage return
  before its end is dropped.\<close>

definition drop_cr :: "string \<Rightarrow> string" where
  "drop_cr s = (if s \<noteq> [] \<and> last s = CHR 0x0D then butlast s else s)"

definition raw_line :: "string \<Rightarrow> string" where
  "raw_line s = takeWhile (\<lambda>c. c \<noteq> CHR 0x0A) s"

definition split_line :: "string \<Rightarrow> (string \<times> string) option" where
  "split_line s = (if s = [] then None else Some (drop_cr (raw_line s), drop (Suc (length (raw_line s))) s))"

text \<open>\<open>bufio.Scanner\<close> with the default buffer: a line and its newline must fit into 64 KB; a
  longer line stops the scanner with \<open>ErrTooLong\<close>.\<close>

definition MaxScanTokenSize :: nat where "MaxScanTokenSize = 65536"

definition scan_err :: "string \<Rightarrow> string option" where
  "scan_err s = (if MaxScanTokenSize \<le> length (raw_line s) then Some ''bufio.Scanner: token too long'' else None)"

definition scan_line :: "string \<Rightarrow> (string \<times> string) option" where
  "scan_line s = (case scan_err s of Some err \<Rightarrow> None | None \<Rightarrow> split_line s)"

text \<open>The bytes of \<open>WriteLine\<close>, when the socket takes them.\<close>

definition WriteLine :: "string \<Rightarrow> string" where
  "WriteLine line = line @ [CHR 0x0A]"

text \<open>The lines of the bytes that were sent, for a reader without limit, and the lines that a
  scanner returns with the error that stopped it.\<close>

lemma split_line_shorter: "split_line s = Some (l, rest) \<Longrightarrow> length rest < length s"
  by (auto simp: split_line_def split: if_splits)

function lines_of :: "string \<Rightarrow> string list" where
  "lines_of s = (case split_line s of None \<Rightarrow> [] | Some (l, rest) \<Rightarrow> l # lines_of rest)"
  by pat_completeness auto
termination
  by (relation "measure length") (auto simp: split_line_shorter)

lemma scan_line_split: "scan_line s = Some r \<Longrightarrow> split_line s = Some r"
  by (simp add: scan_line_def split: option.splits)

function scan_lines :: "string \<Rightarrow> string list \<times> string option" where
  "scan_lines s =
     (case scan_line s of
        None \<Rightarrow> ([], scan_err s)
      | Some (l, rest) \<Rightarrow> (case scan_lines rest of (ls, err) \<Rightarrow> (l # ls, err)))"
  by pat_completeness auto
termination
  by (relation "measure length") (auto dest!: scan_line_split simp: split_line_shorter)

declare lines_of.simps [simp del] scan_lines.simps [simp del]

lemma lines_of_Nil [simp]: "lines_of [] = []"
  by (simp add: lines_of.simps split_line_def)

lemma scan_lines_Nil [simp]: "scan_lines [] = ([], None)"
  by (simp add: scan_lines.simps scan_line_def scan_err_def raw_line_def split_line_def MaxScanTokenSize_def)

lemma raw_line_written: "CHR 0x0A \<notin> set l \<Longrightarrow> raw_line (l @ CHR 0x0A # rest) = l"
  unfolding raw_line_def by (subst takeWhile_append2) auto

lemma scan_lines_written:
  assumes "CHR 0x0A \<notin> set l" and "length l < MaxScanTokenSize"
  shows "scan_lines (l @ CHR 0x0A # rest) = (drop_cr l # fst (scan_lines rest), snd (scan_lines rest))"
proof -
  have "scan_line (l @ CHR 0x0A # rest) = Some (drop_cr l, rest)"
    using assms by (simp add: scan_line_def scan_err_def split_line_def raw_line_written)
  then show ?thesis by (simp add: scan_lines.simps [of "l @ CHR 0x0A # rest"] case_prod_beta)
qed

lemma lines_of_written:
  assumes "CHR 0x0A \<notin> set l"
  shows "lines_of (l @ CHR 0x0A # rest) = drop_cr l # lines_of rest"
proof -
  have "split_line (l @ CHR 0x0A # rest) = Some (drop_cr l, rest)"
    by (simp add: split_line_def raw_line_written [OF assms])
  then show ?thesis by (simp add: lines_of.simps [of "l @ CHR 0x0A # rest"])
qed

text \<open>Where every line fits, the scanner returns all of them and no error.\<close>

definition lines_fit :: "string \<Rightarrow> bool" where
  "lines_fit s \<longleftrightarrow> (\<forall>pre suf. s = pre @ suf \<and> (pre = [] \<or> last pre = CHR 0x0A) \<longrightarrow> length (raw_line suf) < MaxScanTokenSize)"

lemma scan_lines_fit: "lines_fit s \<Longrightarrow> scan_lines s = (lines_of s, None)"
proof (induction s rule: lines_of.induct)
  case (1 s)
  from "1.prems" have short: "length (raw_line s) < MaxScanTokenSize" unfolding lines_fit_def by blast
  then have sc: "scan_err s = None" "scan_line s = split_line s" by (simp_all add: scan_line_def scan_err_def)
  show ?case
  proof (cases "split_line s")
    case None
    then show ?thesis by (simp add: scan_lines.simps [of s] lines_of.simps [of s] sc)
  next
    case (Some r)
    obtain l rest where r: "r = (l, rest)" by (cases r)
    have "lines_fit rest"
      unfolding lines_fit_def
    proof (intro allI impI)
      fix pre suf
      assume a: "rest = pre @ suf \<and> (pre = [] \<or> last pre = CHR 0x0A)"
      let ?n = "length (raw_line s)"
      show "length (raw_line suf) < MaxScanTokenSize"
      proof (cases "?n < length s")
        case True
        then have nl: "s ! ?n = CHR 0x0A"
          unfolding raw_line_def using nth_length_takeWhile [of "\<lambda>c. c \<noteq> CHR 0x0A" s] by simp
        have rest: "rest = drop (Suc ?n) s" using Some r by (auto simp: split_line_def split: if_splits)
        have "s = (take (Suc ?n) s @ pre) @ suf" using a rest by (metis append.assoc append_take_drop_id)
        moreover have "last (take (Suc ?n) s @ pre) = CHR 0x0A"
          using a nl True by (auto simp: take_Suc_conv_app_nth)
        ultimately show ?thesis using "1.prems" unfolding lines_fit_def by blast
      next
        case False
        then have "rest = []" using Some r by (auto simp: split_line_def split: if_splits)
        then show ?thesis using a by (simp add: raw_line_def MaxScanTokenSize_def)
      qed
    qed
    with "1.IH" [OF Some r [symmetric]] Some r sc show ?thesis
      by (simp add: scan_lines.simps [of s] lines_of.simps [of s])
  qed
qed

lemma drop_cr_same: "last s \<noteq> CHR 0x0D \<Longrightarrow> drop_cr s = s"
  by (simp add: drop_cr_def)

section \<open>Authentication\<close>

record connection =
  cn_in :: string \<comment> \<open>the bytes still to be read\<close>
  cn_out :: "string list" \<comment> \<open>the lines written\<close>

text \<open>What the operating system reports while authenticating.\<close>

record auth_io =
  io_file :: "string result" \<comment> \<open>the password file\<close>
  io_setDeadline :: "string option"
  io_clearDeadline :: "string option"
  io_write :: "string option"

definition prompt :: string where "prompt = ''ENTER PASSWORD:''"

text \<open>The result is the connection as the scanner will read it: on a socket without password the 15
  bytes that were read are put back in front.\<close>

definition authenticate :: "auth_io \<Rightarrow> connection \<Rightarrow> connection result" where
  "authenticate io c =
     (case io_file io of
        Inl err \<Rightarrow> Err (''read management password: '' @ err)
      | Inr bytes \<Rightarrow>
          (let password = TrimSpace bytes in
           if password = '''' then Err ''management password file is empty''
           else if io_setDeadline io \<noteq> None then Err ''set read deadline''
           else if length (cn_in c) < 15 then Err ''read password prompt''
           else if io_clearDeadline io \<noteq> None then Err ''clear read deadline''
           else (let buf = take 15 (cn_in c); rest = drop 15 (cn_in c) in
             if buf \<noteq> prompt then Ok (c\<lparr>cn_in := buf @ rest\<rparr>)
             else if io_write io \<noteq> None then Err ''write management password''
             else (case scan_line rest of
                 None \<Rightarrow>
                   (case scan_err rest of
                      Some err \<Rightarrow> Err (''read auth response: '' @ err)
                    | None \<Rightarrow> Err ''socket closed before auth response'')
               | Some (line, rest') \<Rightarrow>
                   if HasPrefix line ''SUCCESS:'' then Ok (c\<lparr>cn_in := rest', cn_out := cn_out c @ [password]\<rparr>)
                   else Err (''management authentication failed: '' @ line)))))"

section \<open>Dialling\<close>

datatype wait_select = WaitTimer | WaitCtx string

datatype attempt =
    DialOk auth_io connection
  | DialFailed "string option" wait_select \<comment> \<open>the context's error after the dial, the outcome of the wait\<close>

definition time_millisecond :: duration where "time_millisecond = 1000000"

definition initial_backoff :: duration where "initial_backoff = 100 * time_millisecond"

definition next_backoff :: "duration \<Rightarrow> duration \<Rightarrow> duration" where
  "next_backoff maxBackoff backoff = (let b = i64 (backoff * 2) in if maxBackoff < b then maxBackoff else b)"

text \<open>The waits made and the result; \<open>None\<close> while the attempts go on.\<close>

fun dial_loop :: "duration \<Rightarrow> duration \<Rightarrow> attempt list \<Rightarrow> duration list \<times> connection result option" where
  "dial_loop maxBackoff backoff [] = ([], None)"
| "dial_loop maxBackoff backoff (DialOk io c # rest) = ([], Some (authenticate io c))"
| "dial_loop maxBackoff backoff (DialFailed (Some err) sel # rest) = ([], Some (Err err))"
| "dial_loop maxBackoff backoff (DialFailed None sel # rest) =
     (case sel of
        WaitCtx err \<Rightarrow> ([backoff], Some (Err err))
      | WaitTimer \<Rightarrow>
          (case dial_loop maxBackoff (next_backoff maxBackoff backoff) rest of (ws, r) \<Rightarrow> (backoff # ws, r)))"

definition Dial :: "duration \<Rightarrow> attempt list \<Rightarrow> duration list \<times> connection result option" where
  "Dial maxBackoff attempts = dial_loop maxBackoff initial_backoff attempts"

section \<open>What is guaranteed\<close>

lemma next_backoff_step:
  assumes "0 \<le> m" and "m < 2 ^ 62" and "b = min (initial_backoff * 2 ^ k) m"
  shows "next_backoff m b = min (initial_backoff * 2 ^ Suc k) m"
proof -
  have "0 \<le> b" "b \<le> m" using assms by (simp_all add: initial_backoff_def time_millisecond_def)
  then have "i64 (b * 2) = b * 2" using assms(2) by (intro i64_id) (simp add: in_i64_def i64_min_def i64_max_def)
  with assms show ?thesis by (auto simp: next_backoff_def Let_def min_def)
qed

lemma dial_loop_waits:
  assumes "0 \<le> m" and "m < 2 ^ 62"
  shows "\<forall>i < length (fst (dial_loop m (min (initial_backoff * 2 ^ k) m) as)).
    fst (dial_loop m (min (initial_backoff * 2 ^ k) m) as) ! i = min (initial_backoff * 2 ^ (k + i)) m"
proof (induction as arbitrary: k)
  case (Cons a as)
  show ?case
  proof (cases "a = DialFailed None WaitTimer")
    case True
    have n: "next_backoff m (min (initial_backoff * 2 ^ k) m) = min (initial_backoff * 2 ^ Suc k) m"
      by (rule next_backoff_step [OF assms refl])
    show ?thesis
    proof (intro allI impI)
      fix i
      assume i: "i < length (fst (dial_loop m (min (initial_backoff * 2 ^ k) m) (a # as)))"
      then show "fst (dial_loop m (min (initial_backoff * 2 ^ k) m) (a # as)) ! i = min (initial_backoff * 2 ^ (k + i)) m"
        using True n Cons.IH [of "Suc k"] by (cases i) (auto simp: case_prod_beta)
    qed
  next
    case False
    then show ?thesis
      by (cases "(m, min (initial_backoff * 2 ^ k) m, a # as)" rule: dial_loop.cases) (auto split: wait_select.splits)
  qed
qed simp

text \<open>
  The reconnect delay grows as intended. For a maximum between the initial 100 ms and the range
  of a duration, the i-th wait between two dials is the initial delay doubled i times, capped at
  the maximum, so no wait is longer than the maximum and none is negative.
\<close>

theorem dial_backoff:
  assumes "initial_backoff \<le> m" and "m < 2 ^ 62" and "i < length (fst (Dial m attempts))"
  shows "fst (Dial m attempts) ! i = min (initial_backoff * 2 ^ i) m \<and>
    initial_backoff \<le> fst (Dial m attempts) ! i \<and> fst (Dial m attempts) ! i \<le> m"
proof -
  have p: "0 \<le> initial_backoff" by (simp add: initial_backoff_def time_millisecond_def)
  with assms(1) have m: "min (initial_backoff * 2 ^ 0) m = initial_backoff" "0 \<le> m" by simp_all
  have "initial_backoff * 1 \<le> initial_backoff * 2 ^ i" using p by (intro mult_left_mono) simp_all
  with dial_loop_waits [OF m(2) assms(2), of 0 attempts] m(1) assms(1,3) show ?thesis by (simp add: Dial_def)
qed

theorem dial_backoff_witness:
  "fst (Dial (5 * time_second) (replicate 9 (DialFailed None WaitTimer))) ! 8 = 5 * time_second"
proof -
  have "fst (Dial (5 * time_second) (replicate 9 (DialFailed None WaitTimer))) ! 8 =
      min (initial_backoff * 2 ^ 8) (5 * time_second)"
    using dial_backoff [of "5 * time_second" 8 "replicate 9 (DialFailed None WaitTimer)"]
    by (simp add: Dial_def numeral_eq_Suc case_prod_beta initial_backoff_def time_millisecond_def time_second_def)
  then show ?thesis by (simp add: initial_backoff_def time_millisecond_def time_second_def)
qed

text \<open>
  C35: authenticating loses no byte of the management stream. When it succeeds on a socket that asks
  for no password, the reader still sees the whole stream from its first byte; on one that asks,
  the trimmed password was written as one line and the reader continues right behind the \<open>SUCCESS\<close>
  line; and nothing else leads to success.
\<close>

theorem authenticate_keeps_stream:
  assumes "authenticate io c = Ok c'"
  shows "(\<not> HasPrefix (cn_in c) prompt \<and> c' = c) \<or>
    (\<exists>pw line tail. io_file io = Ok pw \<and> TrimSpace pw \<noteq> '''' \<and> scan_line (drop (length prompt) (cn_in c)) = Some (line, tail) \<and>
       HasPrefix (cn_in c) prompt \<and> HasPrefix line ''SUCCESS:'' \<and>
       c' = c\<lparr>cn_in := tail, cn_out := cn_out c @ [TrimSpace pw]\<rparr>)"
proof -
  from assms obtain pw where pw: "io_file io = Ok pw" "TrimSpace pw \<noteq> ''''" "15 \<le> length (cn_in c)"
    by (auto simp: authenticate_def Let_def split: sum.splits if_splits)
  have pre: "HasPrefix (cn_in c) prompt \<longleftrightarrow> take 15 (cn_in c) = prompt"
  proof
    assume "HasPrefix (cn_in c) prompt"
    then obtain t where "cn_in c = prompt @ t" unfolding HasPrefix_iff by blast
    then show "take 15 (cn_in c) = prompt" by (simp add: prompt_def)
  next
    assume "take 15 (cn_in c) = prompt"
    then have "cn_in c = prompt @ drop 15 (cn_in c)" by (metis append_take_drop_id)
    then show "HasPrefix (cn_in c) prompt" unfolding HasPrefix_iff by blast
  qed
  have len: "length prompt = 15" by (simp add: prompt_def)
  show ?thesis
    using assms pw
    by (auto simp: authenticate_def pre len Let_def split: if_splits option.splits prod.splits)
qed

theorem authenticate_keeps_stream_witness:
  "\<exists>c'. authenticate \<lparr>io_file = Ok ''secret'', io_setDeadline = None, io_clearDeadline = None, io_write = None\<rparr>
      \<lparr>cn_in = ''>INFO:OpenVPN Management Interface'', cn_out = []\<rparr> = Ok c' \<and>
    c' = \<lparr>cn_in = ''>INFO:OpenVPN Management Interface'', cn_out = []\<rparr>"
proof -
  let ?io = "\<lparr>io_file = Ok ''secret'', io_setDeadline = None, io_clearDeadline = None, io_write = None\<rparr>"
  let ?c = "\<lparr>cn_in = ''>INFO:OpenVPN Management Interface'', cn_out = []\<rparr>"
  have "TrimSpace ''secret'' = ''secret''" by code_simp
  then have "\<exists>c'. authenticate ?io ?c = Ok c'" by (simp add: authenticate_def prompt_def Let_def)
  then obtain c' where a: "authenticate ?io ?c = Ok c'" by blast
  moreover have "\<not> HasPrefix (cn_in ?c) prompt" by (simp add: prompt_def)
  ultimately have "c' = ?c" using authenticate_keeps_stream [OF a] by blast
  with a show ?thesis by blast
qed

end
