(* ===== verification/Wire.thy ===== *)
theory Wire
  imports Broker MgmtClient
begin

text \<open>
  The daemon's commands on the wire: what the management interface reads, line by line, of the
  commands that \<open>internal/mgmt/commands.go\<close> formats and \<open>WriteLine\<close> sends.
\<close>

text \<open>Text that stays within its line and does not end in a carriage return.\<close>

definition line_text :: "string \<Rightarrow> bool" where
  "line_text s \<longleftrightarrow> CHR 0x0A \<notin> set s \<and> (s \<noteq> '''' \<longrightarrow> last s \<noteq> CHR 0x0D)"

definition wire_decision :: "decision \<Rightarrow> bool" where
  "wire_decision d \<longleftrightarrow> line_text (d_CID d) \<and> line_text (d_KID d) \<and> line_text (d_KillMode d) \<and>
     CHR 0x0A \<notin> set (d_URL d) \<and> CHR 0x0A \<notin> set (d_Reason d)"

text \<open>The lines a decision consists of: a grant is the one command with a block, which \<open>END\<close> closes
  at once; every other command is a line of its own.\<close>

definition command_lines :: "decision \<Rightarrow> string list" where
  "command_lines d =
     (case d_Type d of
        DecisionAllow \<Rightarrow> [''client-auth '' @ d_CID d @ '' '' @ d_KID d, ''END'']
      | _ \<Rightarrow> [decisionToCommand d])"

lemma line_text_append: "CHR 0x0A \<notin> set a \<Longrightarrow> line_text b \<Longrightarrow> b \<noteq> '''' \<or> line_text a \<Longrightarrow> line_text (a @ b)"
  by (auto simp: line_text_def last_append)

lemma line_text_itoa: "CHR 0x0A \<notin> set (itoa i)" "last (itoa i) \<noteq> CHR 0x0D" "itoa i \<noteq> ''''"
proof -
  have d: "\<not> is_digit (CHR 0x0A)" "\<not> is_digit (CHR 0x0D)" by (simp_all add: is_digit_def byte_def)
  have a: "list_all is_digit (nat_digits n)" "nat_digits n \<noteq> []" for n by (simp_all add: nat_digits_all)
  then have "CHR 0x0A \<notin> set (nat_digits n)" "last (nat_digits n) \<noteq> CHR 0x0D" for n
    using d last_in_set [of "nat_digits n"] by (metis list_all_iff)+
  with a(2) show "CHR 0x0A \<notin> set (itoa i)" "last (itoa i) \<noteq> CHR 0x0D" "itoa i \<noteq> ''''"
    by (auto simp: itoa_def)
qed

lemma command_one_line:
  assumes "wire_decision d" and "d_Type d \<noteq> DecisionAllow"
  shows "line_text (decisionToCommand d)"
proof (cases "d_Type d")
  case DecisionPending
  let ?a = "''client-pending-auth '' @ d_CID d @ '' '' @ d_KID d @ '' '' @ [CHR 0x22] @ ''WEB_AUTH::'' @ d_URL d @ [CHR 0x22] @ '' ''"
  have "line_text (?a @ itoa (d_Timeout d))"
    using assms(1) line_text_itoa by (intro line_text_append) (simp_all add: wire_decision_def line_text_def)
  with DecisionPending show ?thesis by (simp add: decisionToCommand_def ClientPendingAuth_def)
qed (use assms newline_escape in \<open>auto simp: wire_decision_def line_text_def decisionToCommand_def ClientAuthNT_def
    ClientDeny_def ClientKill_def Let_def last_append\<close>)

lemma command_read:
  assumes "wire_decision d"
  shows "lines_of (WriteLine (decisionToCommand d) @ rest) = command_lines d @ lines_of rest"
proof (cases "d_Type d = DecisionAllow")
  case True
  let ?c = "''client-auth '' @ d_CID d @ '' '' @ d_KID d"
  have "line_text ?c" using assms by (auto simp: wire_decision_def line_text_def last_append)
  then have "CHR 0x0A \<notin> set ?c" "drop_cr ?c = ?c" by (auto simp: line_text_def intro: drop_cr_same)
  then have c: "lines_of (?c @ CHR 0x0A # r) = ?c # lines_of r" for r by (metis lines_of_written)
  have "lines_of (''END'' @ CHR 0x0A # rest) = ''END'' # lines_of rest"
    by (subst lines_of_written) (simp_all add: drop_cr_def)
  with c [of "''END'' @ CHR 0x0A # rest"] True show ?thesis
    by (simp add: WriteLine_def decisionToCommand_def ClientAuth_def command_lines_def)
next
  case False
  from command_one_line [OF assms False] have l: "CHR 0x0A \<notin> set (decisionToCommand d)"
    "drop_cr (decisionToCommand d) = decisionToCommand d" by (auto simp: line_text_def drop_cr_def)
  from False have "command_lines d = [decisionToCommand d]" by (cases "d_Type d") (simp_all add: command_lines_def)
  with l lines_of_written [OF l(1), of rest] show ?thesis by (simp add: WriteLine_def)
qed

text \<open>
  C21: commands arrive as they were decided. Whatever decisions the daemon writes one after the
  other, the management interface reads exactly their lines, in order: each denial, kill, pending
  message and re-authentication as one line, each grant as its command and the empty block's \<open>END\<close>.
  No command is split, joined with the next or followed by a line that no decision asked for, as
  long as the ids end like words and neither they nor the URL and the reason hold a line break.
\<close>

theorem commands_arrive_whole:
  assumes "list_all wire_decision ds"
  shows "lines_of (concat (map (\<lambda>d. WriteLine (decisionToCommand d)) ds)) = concat (map command_lines ds)"
  using assms by (induction ds) (simp_all add: command_read)

theorem commands_arrive_whole_witness:
  "lines_of (concat (map (\<lambda>d. WriteLine (decisionToCommand d))
     [deny ''7'' ''2'' ''say no'', mk_decision DecisionAllow ''9'' ''1'', kill ''7'' ''''])) =
   [''client-deny 7 2 '' @ [CHR 0x22] @ ''say no'' @ [CHR 0x22], ''client-auth 9 1'', ''END'', ''client-kill 7'']"
proof -
  have "list_all wire_decision [deny ''7'' ''2'' ''say no'', mk_decision DecisionAllow ''9'' ''1'', kill ''7'' '''']" by code_simp
  note commands_arrive_whole [OF this]
  also have "concat (map command_lines [deny ''7'' ''2'' ''say no'', mk_decision DecisionAllow ''9'' ''1'', kill ''7'' '''']) =
      [''client-deny 7 2 '' @ [CHR 0x22] @ ''say no'' @ [CHR 0x22], ''client-auth 9 1'', ''END'', ''client-kill 7'']"
    by code_simp
  finally show ?thesis .
qed

section \<open>Ids read from the socket\<close>

lemma lines_of_no_newline: "l \<in> set (lines_of s) \<Longrightarrow> CHR 0x0A \<notin> set l"
proof (induction s rule: lines_of.induct)
  case (1 s)
  have d: "set (drop_cr x) \<subseteq> set x" for x by (auto simp: drop_cr_def dest: in_set_butlastD)
  have t: "CHR 0x0A \<notin> set (takeWhile (\<lambda>c. c \<noteq> CHR 0x0A) s)" by (auto dest: set_takeWhileD)
  show ?case
  proof (cases "split_line s")
    case None
    with "1.prems" show ?thesis by (simp add: lines_of.simps [of s])
  next
    case (Some r)
    obtain x rest where r: "r = (x, rest)" by (cases r)
    with Some have "x = drop_cr (takeWhile (\<lambda>c. c \<noteq> CHR 0x0A) s)"
      by (auto simp: split_line_def raw_line_def split: if_splits)
    with t d have "CHR 0x0A \<notin> set x" by blast
    with "1.prems" "1.IH" [OF Some r [symmetric]] Some r show ?thesis by (auto simp: lines_of.simps [of s])
  qed
qed

lemma trimmed_line_text:
  assumes "CHR 0x0A \<notin> set s"
  shows "line_text (TrimSpace s)"
proof -
  let ?es = "map rev space_encodings" and ?t = "trim_front space_encodings s"
  let ?u = "trim_front ?es (rev ?t)"
  obtain j k where "?t = drop j s" "?u = drop k (rev ?t)" using trim_front_drop by metis
  then have "set ?t \<subseteq> set s" "set ?u \<subseteq> set ?t" using set_drop_subset [of k "rev ?t"] set_drop_subset by simp_all
  then have "set (TrimSpace s) \<subseteq> set s" by (simp add: TrimSpace_def)
  moreover have "hd ?u \<noteq> CHR 0x0D" if "?u \<noteq> []"
  proof
    assume "hd ?u = CHR 0x0D"
    with that have "HasPrefix ?u [CHR 0x0D]" by (cases ?u) (simp_all add: HasPrefix_iff)
    moreover have "[CHR 0x0D] \<in> set ?es" by code_simp
    ultimately obtain e where e: "find (HasPrefix ?u) ?es = Some e" by (metis find_None_iff option.exhaust)
    then have "e \<in> set ?es" by (auto simp: find_Some_iff)
    then have "e \<noteq> []" using space_encodings_ends by (auto simp: list_all_iff)
    with e trim_front_done [of ?es "rev ?t"] that show False by (simp add: leading_def)
  qed
  ultimately show ?thesis using assms by (auto simp: line_text_def TrimSpace_def last_rev)
qed

lemma header_ids:
  assumes "ParseHeader line = Ok (typ, cid, kid)" and "CHR 0x0A \<notin> set line"
  shows "line_text cid \<and> line_text kid"
proof -
  have p: "CHR 0x0A \<notin> set (TrimPrefix line q)" for q
    using assms(2) by (auto simp: TrimPrefix_def dest: in_set_dropD)
  have s: "\<forall>x \<in> set (Split t c). CHR 0x0A \<notin> set x" if "CHR 0x0A \<notin> set t" for t c
    using that by (induction t) (auto split: list.splits)
  have f: "line_text (first_field (TrimPrefix line q))" for q
    using p [of q] by (auto simp: first_field_def SplitN2_def intro!: trimmed_line_text dest: in_set_takeD split: option.splits)
  have c: "line_text a \<and> line_text b" if "parseCIDKID ty (TrimPrefix line q) = Ok (ty', a, b)" for q ty ty' a b
    using that s [OF p [of q], of "CHR '',''"]
    by (auto simp: parseCIDKID_def Let_def intro!: trimmed_line_text split: list.splits if_splits)
  have e: "line_text ''''" by (simp add: line_text_def)
  show ?thesis
    using assms(1) c f e by (auto simp: ParseHeader_def Let_def split: if_splits)
qed

lemma read_env_ids: "read_env ev err ls = (Ok ev', rest) \<Longrightarrow> ev_cid ev' = ev_cid ev \<and> ev_kid ev' = ev_kid ev"
  by (induction ev err ls rule: read_env.induct) (auto simp: Let_def split: if_splits option.splits)

text \<open>
  The ids of the events that the daemon answers stay within their line: whatever bytes arrive on the
  socket, an event that is read from them has a client id and a key id without line break, so the
  commands that answer it meet the condition on ids.
\<close>

theorem event_ids_stay_in_line:
  assumes "hdr \<in> set (lines_of bytes)" and "ReadEvent hdr err ls = (Ok ev, rest)"
  shows "line_text (ev_cid ev) \<and> line_text (ev_kid ev)"
proof -
  obtain ty cid kid where h: "ParseHeader hdr = Ok (ty, cid, kid)"
    using assms(2) by (auto simp: ReadEvent_def split: sum.splits)
  with assms(2) have "ev_cid ev = cid \<and> ev_kid ev = kid"
    by (auto simp: ReadEvent_def Let_def dest: read_env_ids split: if_splits)
  with header_ids [OF h lines_of_no_newline [OF assms(1)]] show ?thesis by simp
qed

end
