(* ===== verification/MgmtMock.thy ===== *)
theory MgmtMock
  imports Reader Status Wire
begin

text \<open>
  \<open>cmd/mgmt-mock/main.go\<close>: the stand-in for OpenVPN's management interface that a developer runs
  beside the daemon. It asks for the password, sends \<open>CLIENT\<close> notifications typed on its standard
  input, answers \<open>client-auth\<close> with an established connection and \<open>status 3\<close> with the list of the
  authorised clients.

  Two goroutines share the state: the loop that accepts and serves the daemon's connections, and
  the loop over standard input. Each takes the locks for its updates of the shared maps only, so an
  operation is its update together with the list of its writes, one string per call of \<open>Fprintf\<close>;
  errors of these writes are ignored by the code, and a write to a closed connection sends nothing.
  The current time in seconds, the order in which
  Go iterates over a map, and the outcome of the two writes that are checked are arguments.
\<close>

section \<open>Words\<close>

text \<open>\<open>strings.Fields\<close>: the text split around runs of white space.\<close>

function fields_from :: "string \<Rightarrow> string \<Rightarrow> string list" where
  "fields_from cur [] = (if cur = [] then [] else [cur])"
| "fields_from cur (c # s) =
     (if leading space_encodings (c # s) = 0 then fields_from (cur @ [c]) s
      else (if cur = [] then [] else [cur]) @ fields_from [] (drop (leading space_encodings (c # s)) (c # s)))"
  by pat_completeness auto
termination
  by (relation "measure (\<lambda>(cur, s). length s)") auto

declare fields_from.simps [simp del]

definition Fields :: "string \<Rightarrow> string list" where
  "Fields s = fields_from [] s"

section \<open>State\<close>

record active_session = \<comment> \<open>\<open>activeSession\<close>\<close>
  as_username :: string
  as_connectedAt :: int

text \<open>\<open>activeConn\<close>: \<open>nil\<close>, an open connection, or one that was closed and not reset to \<open>nil\<close>.\<close>

datatype conn = NoConn | ConnOpen | ConnClosed

text \<open>Where the goroutine that serves connections stands: in \<open>Accept\<close>, waiting for the password, in
  the loop over the daemon's lines, or in the inner loop that skips a \<open>client-auth\<close> block.\<close>

datatype serving = Accepting | AwaitPassword | Reading | SkipBlock string

record mock =
  mk_cidKID :: "(string, int) fmap"
  mk_sessions :: "(string, active_session) fmap"
  mk_defaultSSO :: string
  mk_conn :: conn
  mk_serving :: serving

definition new_mock :: mock where
  "new_mock = \<lparr>mk_cidKID = fmempty, mk_sessions = fmempty, mk_defaultSSO = ''webauth'', mk_conn = NoConn,
     mk_serving = Accepting\<rparr>"

definition mockClientVersion :: string where "mockClientVersion = ''2.7.5''"

definition mockServerTitle :: string where "mockServerTitle = ''OpenVPN 2.7.5 mock''"

definition nextKID :: "string \<Rightarrow> mock \<Rightarrow> string \<times> mock" where
  "nextKID cid m =
     (let n = i64 ((case fmlookup (mk_cidKID m) cid of None \<Rightarrow> 0 | Some k \<Rightarrow> k) + 1)
      in (itoa n, m\<lparr>mk_cidKID := fmupd cid n (mk_cidKID m)\<rparr>))"

definition resetKID :: "string \<Rightarrow> mock \<Rightarrow> mock" where
  "resetKID cid m = m\<lparr>mk_cidKID := fmdrop cid (mk_cidKID m)\<rparr>"

section \<open>The password file\<close>

datatype file_read = FileBytes string | FileMissing | FileError string

text \<open>The argument \<open>write_err\<close> is the outcome of creating the file.\<close>

definition mock_password :: "file_read \<Rightarrow> string option \<Rightarrow> string result" where
  "mock_password file write_err =
     (let bytes = (case file of
            FileBytes s \<Rightarrow> Ok s
          | FileMissing \<Rightarrow> (case write_err of
                None \<Rightarrow> Ok (''test-password'' @ [CHR 0x0A])
              | Some err \<Rightarrow> Err (''cannot create /tmp/mgmt-pw: '' @ err))
          | FileError err \<Rightarrow> Err (''cannot read /tmp/mgmt-pw: '' @ err))
      in case bytes of
           Inl err \<Rightarrow> Err err
         | Inr s \<Rightarrow> if TrimSpace s = '''' then Err ''/tmp/mgmt-pw is empty'' else Ok (TrimSpace s))"

section \<open>What is sent\<close>

definition crlf :: "string \<Rightarrow> string" where
  "crlf s = s @ [CHR 0x0D, CHR 0x0A]"

definition hold_line :: string where
  "hold_line = ''>HOLD:Waiting for hold release:0''"

definition sendConnect :: "string \<Rightarrow> string \<Rightarrow> string \<Rightarrow> string \<Rightarrow> string \<Rightarrow> mock \<Rightarrow> mock \<times> string list" where
  "sendConnect cid kid username sso password m =
     (let sess = (case fmlookup (mk_sessions m) cid of
            Some s \<Rightarrow> s\<lparr>as_username := username\<rparr>
          | None \<Rightarrow> \<lparr>as_username = username, as_connectedAt = 0\<rparr>)
      in (m\<lparr>mk_sessions := fmupd cid sess (mk_sessions m)\<rparr>,
          map crlf ([''>CLIENT:CONNECT,'' @ cid @ '','' @ kid,
                     ''>CLIENT:ENV,username='' @ username,
                     ''>CLIENT:ENV,common_name='' @ username,
                     ''>CLIENT:ENV,IV_SSO='' @ sso]
                    @ (if password \<noteq> '''' then [''>CLIENT:ENV,password='' @ password] else [])
                    @ [''>CLIENT:ENV,untrusted_ip=10.0.0.2'',
                       ''>CLIENT:ENV,untrusted_port=51234'',
                       ''>CLIENT:ENV,IV_VER='' @ mockClientVersion,
                       ''>CLIENT:ENV,IV_PLAT=linux'',
                       ''>CLIENT:ENV,END''])))"

definition sendReauth :: "string \<Rightarrow> string \<Rightarrow> string \<Rightarrow> string list" where
  "sendReauth cid kid username =
     map crlf [''>CLIENT:REAUTH,'' @ cid @ '','' @ kid,
               ''>CLIENT:ENV,username='' @ username,
               ''>CLIENT:ENV,common_name='' @ username,
               ''>CLIENT:ENV,IV_SSO=webauth'',
               ''>CLIENT:ENV,END'']"

definition sendDisconnect :: "string \<Rightarrow> mock \<Rightarrow> mock \<times> string list" where
  "sendDisconnect cid m =
     (m\<lparr>mk_sessions := fmdrop cid (mk_sessions m)\<rparr>,
      map crlf [''>CLIENT:DISCONNECT,'' @ cid,
                ''>CLIENT:ENV,time_duration=120'',
                ''>CLIENT:ENV,END''])"

text \<open>\<open>order\<close> lists the sessions in the order of the iteration over the map.\<close>

definition status_header :: string where
  "status_header = ''HEADER,CLIENT_LIST,Common Name,Real Address,Bytes Received,Bytes Sent,''
     @ ''Connected Since (time_t),Username,Client ID,Peer ID''"

definition status_row :: "string \<times> active_session \<Rightarrow> string" where
  "status_row = (\<lambda>(cid, sess). ''CLIENT_LIST,'' @ as_username sess @ '',10.0.0.2:51234,1,2,''
     @ itoa (as_connectedAt sess) @ '','' @ as_username sess @ '','' @ cid @ '',0'')"

definition writeStatus :: "int \<Rightarrow> (string \<times> active_session) list \<Rightarrow> string list" where
  "writeStatus now order =
     map crlf ([''TITLE,'' @ mockServerTitle, status_header, ''TIME,'' @ itoa now]
               @ map status_row (filter (\<lambda>(cid, sess). as_connectedAt sess \<noteq> 0) order)
               @ [''END''])"

definition established_writes :: "string \<Rightarrow> string list" where
  "established_writes cid =
     map crlf [''>CLIENT:ESTABLISHED,'' @ cid,
               ''>CLIENT:ENV,time_unix=1234567890'',
               ''>CLIENT:ENV,END'',
               ''>CLIENT:ADDRESS,'' @ cid @ '',10.8.0.2,1'']"

section \<open>Serving the daemon\<close>

text \<open>A connection was accepted. \<open>sent\<close> says whether the prompt could be written; a connection that
  fails the handshake is closed, but \<open>activeConn\<close> still refers to it.\<close>

definition accept_conn :: "string \<Rightarrow> bool \<Rightarrow> mock \<Rightarrow> mock \<times> string list" where
  "accept_conn expectedPw sent m =
     (let m1 = m\<lparr>mk_conn := ConnOpen\<rparr> in
      if expectedPw = '''' then (m1\<lparr>mk_serving := Reading\<rparr>, [crlf hold_line])
      else if \<not> sent then (m1\<lparr>mk_conn := ConnClosed, mk_serving := Accepting\<rparr>, [])
      else (m1\<lparr>mk_serving := AwaitPassword\<rparr>, [''ENTER PASSWORD:'']))"

definition password_line :: "string \<Rightarrow> bool \<Rightarrow> string \<Rightarrow> mock \<Rightarrow> mock \<times> string list" where
  "password_line expectedPw sent got m =
     (if got \<noteq> expectedPw then
        (m\<lparr>mk_conn := ConnClosed, mk_serving := Accepting\<rparr>, [crlf ''ERROR: bad password''])
      else if \<not> sent then (m\<lparr>mk_conn := ConnClosed, mk_serving := Accepting\<rparr>, [])
      else (m\<lparr>mk_serving := Reading\<rparr>, [crlf ''SUCCESS: password is correct'', crlf hold_line]))"

definition authorise :: "int \<Rightarrow> string \<Rightarrow> mock \<Rightarrow> mock" where
  "authorise now cid m =
     (let username = (case fmlookup (mk_sessions m) cid of Some sess \<Rightarrow> as_username sess | None \<Rightarrow> '''')
      in m\<lparr>mk_sessions := fmupd cid \<lparr>as_username = username, as_connectedAt = now\<rparr> (mk_sessions m)\<rparr>)"

definition command_line ::
  "int \<Rightarrow> (string \<times> active_session) list \<Rightarrow> string \<Rightarrow> mock \<Rightarrow> mock \<times> string list" where
  "command_line now order line m =
     (if HasPrefix line ''client-auth '' \<or> HasPrefix line ''client-auth-nt '' then
        (case Fields line of
           a # cid # b # _ \<Rightarrow>
             if HasPrefix line ''client-auth '' then ((authorise now cid m)\<lparr>mk_serving := SkipBlock cid\<rparr>, [])
             else (authorise now cid m, established_writes cid)
         | _ \<Rightarrow> (m, []))
      else if HasPrefix line ''client-kill '' then
        (case Fields line of
           a # cid # _ \<Rightarrow> (m\<lparr>mk_sessions := fmdrop cid (mk_sessions m)\<rparr>, [])
         | _ \<Rightarrow> (m, []))
      else if TrimSpace line = ''status 3'' then (m, writeStatus now order)
      else (m, []))"

text \<open>One line from the daemon, wherever the serving goroutine waits for it.\<close>

definition daemon_line ::
  "string \<Rightarrow> bool \<Rightarrow> int \<Rightarrow> (string \<times> active_session) list \<Rightarrow> string \<Rightarrow> mock \<Rightarrow> mock \<times> string list" where
  "daemon_line expectedPw sent now order line m =
     (case mk_serving m of
        Accepting \<Rightarrow> (m, [])
      | AwaitPassword \<Rightarrow> password_line expectedPw sent line m
      | Reading \<Rightarrow> command_line now order line m
      | SkipBlock cid \<Rightarrow>
          if line = ''END'' then (m\<lparr>mk_serving := Reading\<rparr>, established_writes cid) else (m, []))"

text \<open>The daemon's side of the connection ends. A block that is cut off is answered all the same.\<close>

definition daemon_gone :: "mock \<Rightarrow> mock \<times> string list" where
  "daemon_gone m =
     (case mk_serving m of
        Accepting \<Rightarrow> (m, [])
      | AwaitPassword \<Rightarrow> (m\<lparr>mk_conn := ConnClosed, mk_serving := Accepting\<rparr>, [])
      | Reading \<Rightarrow> (m\<lparr>mk_conn := NoConn, mk_serving := Accepting\<rparr>, [])
      | SkipBlock cid \<Rightarrow> (m\<lparr>mk_conn := NoConn, mk_serving := Accepting\<rparr>, established_writes cid))"

section \<open>Standard input\<close>

datatype stdin_end = Continue | Exit | Panic

definition or_next :: "string \<Rightarrow> string \<Rightarrow> mock \<Rightarrow> string \<times> mock" where
  "or_next kid cid m = (if kid = '''' then nextKID cid m else (kid, m))"

definition nth_or :: "string list \<Rightarrow> nat \<Rightarrow> string \<Rightarrow> string" where
  "nth_or parts i d = (if i < length parts then parts ! i else d)"

definition stdin_command :: "string \<Rightarrow> string list \<Rightarrow> mock \<Rightarrow> mock \<times> string list" where
  "stdin_command cmd parts m =
     (if cmd = ''connect'' then
        (if length parts < 3 then (m, [])
         else (case or_next (nth_or parts 5 '''') (parts ! 1) m of
             (kid, m1) \<Rightarrow> sendConnect (parts ! 1) kid (parts ! 2) (nth_or parts 3 (mk_defaultSSO m))
               (nth_or parts 4 '''') m1))
      else if cmd = ''reauth'' then
        (if length parts < 3 then (m, [])
         else (case or_next (nth_or parts 3 '''') (parts ! 1) m of
             (kid, m1) \<Rightarrow> (m1, sendReauth (parts ! 1) kid (parts ! 2))))
      else if cmd = ''disconnect'' then
        (if length parts < 2 then (m, [])
         else (case sendDisconnect (parts ! 1) m of (m1, ws) \<Rightarrow> (resetKID (parts ! 1) m1, ws)))
      else if cmd = ''sso'' then
        (if length parts < 2 then (m, []) else (m\<lparr>mk_defaultSSO := parts ! 1\<rparr>, []))
      else if cmd = ''hold'' then (m, [crlf hold_line])
      else (m, []))"

text \<open>One line of standard input; \<open>Panic\<close> would be the index of an empty list. What is written to a
  connection that was closed but is still registered is lost.\<close>

definition stdin_line :: "(nat \<Rightarrow> nat) \<Rightarrow> string \<Rightarrow> mock \<Rightarrow> mock \<times> string list \<times> stdin_end" where
  "stdin_line uc input m =
     (let line = TrimSpace input in
      if line = '''' then (m, [], Continue)
      else (case Fields line of
          [] \<Rightarrow> (m, [], Panic)
        | p # ps \<Rightarrow>
            (let cmd = ToLower uc p in
             if cmd = ''help'' then (m, [], Continue)
             else if cmd = ''quit'' \<or> cmd = ''exit'' then
               ((if mk_conn m = NoConn then m else m\<lparr>mk_conn := ConnClosed\<rparr>), [], Exit)
             else if mk_conn m = NoConn then (m, [], Continue)
             else (case stdin_command cmd (p # ps) m of
                 (m1, ws) \<Rightarrow> (m1, if mk_conn m = ConnClosed then [] else ws, Continue)))))"

section \<open>Words and lines\<close>

lemma fields_from_ne: "cur \<noteq> [] \<Longrightarrow> fields_from cur s \<noteq> []"
  by (induction cur s rule: fields_from.induct) (simp_all add: fields_from.simps)

lemma Fields_trimmed: "TrimSpace s \<noteq> '''' \<Longrightarrow> Fields (TrimSpace s) \<noteq> []"
  using leading_TrimSpace [of s]
  by (cases "TrimSpace s") (simp_all add: Fields_def fields_from.simps(2) fields_from_ne)

text \<open>A word as it can be typed: no white space, ASCII only, and at most 8 KB, so that neither the
  line typed nor a line sent reaches the limit of the scanners.\<close>

definition mock_word :: "string \<Rightarrow> bool" where
  "mock_word w \<longleftrightarrow> w \<noteq> '''' \<and> list_all plain_char w \<and> length w \<le> 8192"

lemma fields_from_word: "list_all plain_char w \<Longrightarrow> fields_from cur (w @ rest) = fields_from (cur @ w) rest"
proof (induction w arbitrary: cur)
  case (Cons c w)
  then have "leading space_encodings (c # w @ rest) = 0" by (intro leading_plain) simp
  with Cons show ?case by (simp add: fields_from.simps)
qed simp

lemma fields_from_blank:
  "fields_from cur (CHR '' '' # s) = (if cur = [] then [] else [cur]) @ fields_from [] s"
proof -
  have "leading space_encodings (CHR '' '' # s) = 1"
    by (simp add: leading_def space_encodings_def ascii_spaces_def)
  then show ?thesis by (simp add: fields_from.simps)
qed

lemma Fields_words: "list_all mock_word ws \<Longrightarrow> Fields (join '' '' ws) = ws"
proof (induction ws rule: induct_list012)
  case (2 w)
  then show ?case
    using fields_from_word [of w "[]" "[]"] by (simp add: Fields_def mock_word_def fields_from.simps)
next
  case (3 w v ws)
  then have "Fields (join '' '' (v # ws)) = v # ws" by simp
  with 3 show ?case
    using fields_from_word [of w "[]"] by (simp add: Fields_def mock_word_def fields_from_blank)
qed (simp add: Fields_def fields_from.simps)

lemma join_hd_last:
  assumes "list_all mock_word ws" and "ws \<noteq> []"
  shows "join '' '' ws \<noteq> [] \<and> plain_char (hd (join '' '' ws)) \<and> plain_char (last (join '' '' ws))"
  using assms
proof (induction ws rule: induct_list012)
  case (2 w)
  then show ?case by (simp add: mock_word_def list_all_iff)
next
  case (3 w v ws)
  then show ?case by (auto simp: mock_word_def neq_Nil_conv)
qed simp

lemma TrimSpace_words: "list_all mock_word ws \<Longrightarrow> TrimSpace (join '' '' ws) = join '' '' ws"
  using join_hd_last [of ws] by (cases "ws = []") (simp_all add: TrimSpace_plain)

text \<open>A line that the daemon's scanner takes, with the carriage return that the mock adds.\<close>

definition mock_line :: "string \<Rightarrow> bool" where
  "mock_line l \<longleftrightarrow> CHR 0x0A \<notin> set l \<and> Suc (length l) < MaxScanTokenSize"

lemma crlf_written: "crlf l @ rest = (l @ [CHR 0x0D]) @ CHR 0x0A # rest" "drop_cr (l @ [CHR 0x0D]) = l"
  by (simp_all add: crlf_def drop_cr_def)

lemma scan_line_crlf:
  assumes "mock_line l"
  shows "scan_line (crlf l @ rest) = Some (l, rest)"
proof -
  have "raw_line (crlf l @ rest) = l @ [CHR 0x0D]"
    unfolding crlf_written(1) using assms by (intro raw_line_written) (simp add: mock_line_def)
  then show ?thesis using assms by (simp add: scan_line_def scan_err_def split_line_def mock_line_def crlf_written(2)) (simp add: crlf_def)
qed

lemma scan_lines_crlf: "list_all mock_line ls \<Longrightarrow> scan_lines (concat (map crlf ls)) = (ls, None)"
proof (induction ls)
  case (Cons l ls)
  then have "mock_line l" by simp
  with Cons scan_line_crlf [OF this] show ?case by (simp add: scan_lines.simps [of "crlf l @ concat (map crlf ls)"])
qed simp

lemma lines_of_line:
  assumes "CHR 0x0A \<notin> set l"
  shows "lines_of (crlf l @ rest) = l # lines_of rest"
  unfolding crlf_written(1) using assms by (subst lines_of_written) (simp_all add: crlf_written(2))

lemma lines_of_crlf: "list_all (\<lambda>l. CHR 0x0A \<notin> set l) ls \<Longrightarrow> lines_of (concat (map crlf ls)) = ls"
  by (induction ls) (simp_all add: lines_of_line)

section \<open>The daemon reads what is typed\<close>

text \<open>What the daemon's scanner and its reader make of the writes when nothing else is sent.\<close>

definition seen :: "string list \<Rightarrow> routed list" where
  "seen ws = (case scan_lines (concat ws) of (lines, err) \<Rightarrow> fst (readManagement (\<lambda>_. True) err lines))"

definition mock_id :: "string \<Rightarrow> bool" where
  "mock_id w \<longleftrightarrow> mock_word w \<and> CHR '','' \<notin> set w"

lemma not_plain: "\<not> plain_char (CHR 0x0A)" "\<not> plain_char (CHR 0x09)"
  by (simp_all add: plain_char_def ascii_spaces_def)

lemma mock_word_line: "mock_word w \<Longrightarrow> CHR 0x0A \<notin> set w"
  using not_plain by (auto simp: mock_word_def list_all_iff)

lemma mock_id_ident: "mock_id w \<Longrightarrow> ident w"
  by (auto simp: mock_id_def ident_def mock_word_def list_all_iff intro: TrimSpace_all_plain)

lemma mock_word_length: "mock_word w \<Longrightarrow> length w \<le> 8192"
  by (simp add: mock_word_def)

lemma itoa_chars: "c \<in> set (itoa n) \<Longrightarrow> plain_char c \<and> c \<noteq> CHR '',''"
proof -
  assume "c \<in> set (itoa n)"
  then have "c = CHR ''-'' \<or> c \<in> set (nat_digits (nat \<bar>n\<bar>))"
    by (auto simp: itoa_def split: if_splits)
  then have "c = CHR ''-'' \<or> is_digit c" using nat_digits_all [of "nat \<bar>n\<bar>"] by (auto simp: list_all_iff)
  then show ?thesis
  proof
    assume "c = CHR ''-''"
    then show ?thesis by (simp add: plain_char_def ascii_spaces_def)
  next
    assume d: "is_digit c"
    then have "(of_char c :: nat) < 128" by (simp add: is_digit_def byte_def)
    moreover have "x \<in> set (CHR '','' # ascii_spaces) \<Longrightarrow> \<not> is_digit x" for x
      by (auto simp: ascii_spaces_def is_digit_def byte_def)
    ultimately show ?thesis using d by (auto simp: plain_char_def)
  qed
qed

lemma mock_id_itoa:
  assumes "in_i64 n"
  shows "mock_id (itoa n)"
proof -
  have "\<bar>n\<bar> < 10 ^ 19" using assms by (auto simp: in_i64_def i64_min_def i64_max_def abs_less_iff)
  then have "nat \<bar>n\<bar> < 10 ^ 19" by (simp add: nat_less_iff)
  then have "length (nat_digits (nat \<bar>n\<bar>)) \<le> 19" using nat_digits_length [of "nat \<bar>n\<bar>" 18] by simp
  then have "length (itoa n) \<le> 8192" by (cases "n < 0") (simp_all add: itoa_def)
  moreover have "itoa n \<noteq> ''''" by (simp add: itoa_def)
  ultimately show ?thesis using itoa_chars [of _ n] unfolding mock_id_def mock_word_def list_all_iff by blast
qed

lemma seen_items:
  assumes "list_all item_ok its" and "list_all mock_line (concat (map item_lines its))"
  shows "seen (map crlf (concat (map item_lines its))) = concat (map item_routed its)"
  using read_items [OF assms(1), of None "[]" "[]"] assms(2)
  by (simp add: seen_def readManagement_def scan_lines_crlf read_lines.simps)

lemma seen_block:
  assumes "ParseHeader header = Ok (ty, cid, kid)" and "HasPrefix header ''>CLIENT:''"
    and "ty \<noteq> EventIgnored" and "ty \<noteq> EventUnknown" and "list_all (\<lambda>kv. var_name (fst kv)) kvs"
    and "list_all mock_line (header # map env_line kvs)"
  shows "seen (map crlf (header # map env_line kvs @ [env_end])) =
    [Notification \<lparr>ev_type = ty, ev_cid = cid, ev_kid = kid, ev_env = env_of kvs\<rparr>]"
  using seen_items [of "[Block header ty cid kid kvs]"] assms by (simp add: env_end_def mock_line_def MaxScanTokenSize_def)

text \<open>The variables of a connection as the mock describes it.\<close>

definition connect_env :: "string \<Rightarrow> string \<Rightarrow> string \<Rightarrow> (string \<times> string) list" where
  "connect_env user sso password =
     [(''username'', user), (''common_name'', user), (''IV_SSO'', sso)]
     @ (if password \<noteq> '''' then [(''password'', password)] else [])
     @ [(''untrusted_ip'', ''10.0.0.2''), (''untrusted_port'', ''51234''), (''IV_VER'', mockClientVersion),
        (''IV_PLAT'', ''linux'')]"

definition reauth_env :: "string \<Rightarrow> (string \<times> string) list" where
  "reauth_env user = [(''username'', user), (''common_name'', user), (''IV_SSO'', ''webauth'')]"

lemma sendConnect_lines:
  "snd (sendConnect cid kid user sso password m) =
     map crlf ((''>CLIENT:CONNECT,'' @ cid @ CHR '','' # kid) # map env_line (connect_env user sso password) @ [env_end])"
  by (simp add: sendConnect_def connect_env_def env_line_def env_end_def Let_def)

lemma sendReauth_lines:
  "sendReauth cid kid user =
     map crlf ((''>CLIENT:REAUTH,'' @ cid @ CHR '','' # kid) # map env_line (reauth_env user) @ [env_end])"
  by (simp add: sendReauth_def reauth_env_def env_line_def env_end_def)

lemma sendDisconnect_lines:
  "snd (sendDisconnect cid m) =
     map crlf ((''>CLIENT:DISCONNECT,'' @ cid) # map env_line [(''time_duration'', ''120'')] @ [env_end])"
  by (simp add: sendDisconnect_def env_line_def env_end_def)

lemma header_read:
  assumes "ident cid"
  shows "ident kid \<Longrightarrow> ParseHeader (''>CLIENT:CONNECT,'' @ cid @ CHR '','' # kid) = Ok (EventConnect, cid, kid)"
    and "ident kid \<Longrightarrow> ParseHeader (''>CLIENT:REAUTH,'' @ cid @ CHR '','' # kid) = Ok (EventReauth, cid, kid)"
    and "ParseHeader (''>CLIENT:DISCONNECT,'' @ cid) = Ok (EventDisconnect, cid, '''')"
    and "ParseHeader (''>CLIENT:ESTABLISHED,'' @ cid) = Ok (EventEstablished, cid, '''')"
  using assms
  by (simp_all add: ParseHeader_def parseCIDKID_ident TrimPrefix_def first_field_def ident_def SplitN2_no_sep Let_def)

lemma seen_connect:
  assumes "mock_id cid" and "mock_id kid" and "mock_word user" and "mock_word sso" and "password = '''' \<or> mock_word password"
  shows "seen (snd (sendConnect cid kid user sso password m)) =
    [Notification \<lparr>ev_type = EventConnect, ev_cid = cid, ev_kid = kid, ev_env = env_of (connect_env user sso password)\<rparr>]"
  unfolding sendConnect_lines
proof (rule seen_block)
  show "ParseHeader (''>CLIENT:CONNECT,'' @ cid @ CHR '','' # kid) = Ok (EventConnect, cid, kid)"
    using assms(1,2) by (intro header_read mock_id_ident)
  show "list_all mock_line
      ((''>CLIENT:CONNECT,'' @ cid @ CHR '','' # kid) # map env_line (connect_env user sso password))"
    using assms mock_word_length [of cid] mock_word_length [of kid] mock_word_length [of user] mock_word_length [of sso]
      mock_word_length [of password]
    by (auto simp: connect_env_def env_line_def mock_id_def mock_word_line mockClientVersion_def mock_line_def MaxScanTokenSize_def)
qed (simp_all add: connect_env_def var_name_def)

lemma seen_reauth:
  assumes "mock_id cid" and "mock_id kid" and "mock_word user"
  shows "seen (sendReauth cid kid user) =
    [Notification \<lparr>ev_type = EventReauth, ev_cid = cid, ev_kid = kid, ev_env = env_of (reauth_env user)\<rparr>]"
  unfolding sendReauth_lines
proof (rule seen_block)
  show "ParseHeader (''>CLIENT:REAUTH,'' @ cid @ CHR '','' # kid) = Ok (EventReauth, cid, kid)"
    using assms(1,2) by (intro header_read mock_id_ident)
  show "list_all mock_line ((''>CLIENT:REAUTH,'' @ cid @ CHR '','' # kid) # map env_line (reauth_env user))"
    using assms mock_word_length [of cid] mock_word_length [of kid] mock_word_length [of user]
    by (simp add: reauth_env_def env_line_def mock_id_def mock_word_line mock_line_def MaxScanTokenSize_def)
qed (simp_all add: reauth_env_def var_name_def)

lemma seen_disconnect:
  assumes "mock_id cid"
  shows "seen (snd (sendDisconnect cid m)) =
    [Notification \<lparr>ev_type = EventDisconnect, ev_cid = cid, ev_kid = '''',
       ev_env = env_of [(''time_duration'', ''120'')]\<rparr>]"
  unfolding sendDisconnect_lines
proof (rule seen_block)
  show "ParseHeader (''>CLIENT:DISCONNECT,'' @ cid) = Ok (EventDisconnect, cid, '''')"
    using assms by (intro header_read mock_id_ident)
  show "list_all mock_line ((''>CLIENT:DISCONNECT,'' @ cid) # map env_line [(''time_duration'', ''120'')])"
    using assms mock_word_length [of cid] by (simp add: env_line_def mock_id_def mock_word_line mock_line_def MaxScanTokenSize_def)
qed (simp_all add: var_name_def)

definition mock_commands :: "string list" where
  "mock_commands = [''connect'', ''reauth'', ''disconnect'', ''sso'', ''hold'']"

lemma mock_commands_plain:
  "list_all (\<lambda>w. mock_word w \<and> ascii w \<and> map lower_char w = w \<and> w \<notin> set [''help'', ''quit'', ''exit'']) mock_commands"
  by code_simp

lemma stdin_words:
  assumes "cmd \<in> set mock_commands" and "list_all mock_word args" and "mk_conn m = ConnOpen"
  shows "stdin_line uc (join '' '' (cmd # args)) m =
    (case stdin_command cmd (cmd # args) m of (m1, ws) \<Rightarrow> (m1, ws, Continue))"
proof -
  have w: "mock_word cmd" "ToLower uc cmd = cmd" "cmd \<notin> set [''help'', ''quit'', ''exit'']"
    using assms(1) mock_commands_plain by (auto simp: list_all_iff ToLower_ascii)
  then have "list_all mock_word (cmd # args)" using assms(2) by simp
  then have "TrimSpace (join '' '' (cmd # args)) = join '' '' (cmd # args)"
    "Fields (join '' '' (cmd # args)) = cmd # args" "join '' '' (cmd # args) \<noteq> ''''"
    using join_hd_last [of "cmd # args"] by (simp_all only: TrimSpace_words Fields_words) simp
  with w(2,3) assms(3) show ?thesis by (simp add: stdin_line_def Let_def)
qed

text \<open>No line of standard input makes the loop panic.\<close>

lemma stdin_no_panic: "snd (snd (stdin_line uc input m)) \<noteq> Panic"
  using Fields_trimmed [of input]
  by (cases "TrimSpace input = ''''") (simp_all add: stdin_line_def Let_def split: list.split prod.split)

text \<open>The key ids counted for a client so far; the next one is the successor.\<close>

definition kid_count :: "mock \<Rightarrow> string \<Rightarrow> int" where
  "kid_count m cid = (case fmlookup (mk_cidKID m) cid of None \<Rightarrow> 0 | Some k \<Rightarrow> k)"

lemma or_next_counts:
  assumes "in_i64 (kid_count m cid + 1)"
  shows "fst (or_next kid cid m) = (if kid = '''' then itoa (kid_count m cid + 1) else kid)"
    and "kid_count (snd (or_next kid cid m)) =
      (if kid = '''' then (kid_count m)(cid := kid_count m cid + 1) else kid_count m)"
proof -
  have n: "i64 ((case fmlookup (mk_cidKID m) cid of None \<Rightarrow> 0 | Some k \<Rightarrow> k) + 1) = kid_count m cid + 1"
    using i64_id [OF assms] by (simp add: kid_count_def)
  then show "fst (or_next kid cid m) = (if kid = '''' then itoa (kid_count m cid + 1) else kid)"
    by (simp add: or_next_def nextKID_def Let_def)
  show "kid_count (snd (or_next kid cid m)) =
      (if kid = '''' then (kid_count m)(cid := kid_count m cid + 1) else kid_count m)"
    unfolding or_next_def nextKID_def n Let_def by (auto simp: kid_count_def)
qed

lemma kid_count_other:
  "kid_count (fst (sendConnect c k user sso password m)) = kid_count m"
  "kid_count (resetKID cid (fst (sendDisconnect cid m))) = (kid_count m)(cid := 0)"
  by (auto simp: sendConnect_def sendDisconnect_def resetKID_def kid_count_def Let_def)

text \<open>
  C40: the daemon reads from the mock's connection exactly the events that were typed. While the mock
  serves a daemon that gave the password, \<open>connect\<close> with an id, a name and up to three further words
  (the \<open>IV_SSO\<close> value, a password, a key id), \<open>reauth\<close> with an id, a name and perhaps a key id, and
  \<open>disconnect\<close> with an id each put one notification on the stream, with that id and exactly the
  variables of the connection (a password only when one was typed). The key id is the one typed;
  without one it is the number of key ids counted for this client so far plus one, which is then the
  new count, no other client's count changes, and \<open>disconnect\<close> starts the count of its client anew.
\<close>

theorem mock_events_read:
  assumes "mk_conn m = ConnOpen" and "mk_serving m \<notin> {Accepting, AwaitPassword}"
    and "mock_id cid" and "mock_word user" and "list_all mock_word opts"
    and "length opts \<le> 3" and "length opts = 3 \<Longrightarrow> mock_id (opts ! 2)" and "kid = '''' \<or> mock_id kid"
    and "mock_word (mk_defaultSSO m)" and "in_i64 (kid_count m cid + 1)"
  shows "(case stdin_line uc (join '' '' (''connect'' # cid # user # opts)) m of (m', ws, end) \<Rightarrow>
      end = Continue \<and>
      seen ws = [Notification \<lparr>ev_type = EventConnect, ev_cid = cid,
         ev_kid = (if length opts = 3 then opts ! 2 else itoa (kid_count m cid + 1)),
         ev_env = env_of (connect_env user (if opts = [] then mk_defaultSSO m else hd opts)
           (if length opts < 2 then '''' else opts ! 1))\<rparr>] \<and>
      kid_count m' = (if length opts = 3 then kid_count m else (kid_count m)(cid := kid_count m cid + 1))) \<and>
    (case stdin_line uc (join '' '' (''reauth'' # cid # user # (if kid = '''' then [] else [kid]))) m of (m', ws, end) \<Rightarrow>
      end = Continue \<and>
      seen ws = [Notification \<lparr>ev_type = EventReauth, ev_cid = cid,
         ev_kid = (if kid \<noteq> '''' then kid else itoa (kid_count m cid + 1)), ev_env = env_of (reauth_env user)\<rparr>] \<and>
      kid_count m' = (if kid \<noteq> '''' then kid_count m else (kid_count m)(cid := kid_count m cid + 1))) \<and>
    (case stdin_line uc (join '' '' [''disconnect'', cid]) m of (m', ws, end) \<Rightarrow>
      end = Continue \<and>
      seen ws = [Notification \<lparr>ev_type = EventDisconnect, ev_cid = cid, ev_kid = '''',
         ev_env = env_of [(''time_duration'', ''120'')]\<rparr>] \<and>
      kid_count m' = (kid_count m)(cid := 0))"
proof (intro conjI)
  have w: "mock_word cid" using assms(3) by (simp add: mock_id_def)
  let ?k = "nth_or opts 2 ''''"
  have ne: "opts ! 2 \<noteq> ''''" if "length opts = 3" using assms(7) [OF that] by (simp add: mock_id_def mock_word_def)
  have k3: "?k = '''' \<longleftrightarrow> length opts \<noteq> 3" "length opts = 3 \<Longrightarrow> ?k = opts ! 2"
    using assms(6) ne by (auto simp: nth_or_def)
  have kid: "mock_id (fst (or_next x cid m))" if "x = '''' \<or> mock_id x" for x
    using that mock_id_itoa [OF assms(10)] by (auto simp: or_next_counts [OF assms(10)])
  have opt: "nth_or opts 0 (mk_defaultSSO m) = (if opts = [] then mk_defaultSSO m else hd opts)"
    "nth_or opts 1 '''' = (if length opts < 2 then '''' else opts ! 1)"
    by (cases opts; simp add: nth_or_def)+
  have sso: "mock_word (nth_or opts 0 (mk_defaultSSO m))" "nth_or opts 1 '''' = '''' \<or> mock_word (nth_or opts 1 '''')"
    using assms(5,9) by (auto simp: nth_or_def list_all_length)
  have s: "nth_or (a # b # c # xs) 5 d = nth_or xs 2 d" "nth_or (a # b # c # xs) 4 d = nth_or xs 1 d"
    "nth_or (a # b # c # xs) 3 d = nth_or xs 0 d" for a b c d :: string and xs
    by (simp_all add: nth_or_def numeral_eq_Suc)
  have "stdin_line uc (join '' '' (''connect'' # cid # user # opts)) m =
      (case stdin_command ''connect'' (''connect'' # cid # user # opts) m of (m1, ws) \<Rightarrow> (m1, ws, Continue))"
    using w assms(1,4,5) by (intro stdin_words) (simp_all add: mock_commands_def)
  moreover have k: "?k = '''' \<or> mock_id ?k" using k3 assms(7) by metis
  have "stdin_command ''connect'' (''connect'' # cid # user # opts) m =
      sendConnect cid (fst (or_next ?k cid m)) user (nth_or opts 0 (mk_defaultSSO m)) (nth_or opts 1 '''') (snd (or_next ?k cid m))"
    by (simp add: stdin_command_def s case_prod_beta)
  moreover have "fst (or_next ?k cid m) = (if length opts = 3 then opts ! 2 else itoa (kid_count m cid + 1))"
    "kid_count (snd (or_next ?k cid m)) = (if length opts = 3 then kid_count m else (kid_count m)(cid := kid_count m cid + 1))"
    using or_next_counts [OF assms(10), of ?k] k3 by (cases "length opts = 3"; simp)+
  ultimately show "case stdin_line uc (join '' '' (''connect'' # cid # user # opts)) m of (m', ws, end) \<Rightarrow>
      end = Continue \<and>
      seen ws = [Notification \<lparr>ev_type = EventConnect, ev_cid = cid,
         ev_kid = (if length opts = 3 then opts ! 2 else itoa (kid_count m cid + 1)),
         ev_env = env_of (connect_env user (if opts = [] then mk_defaultSSO m else hd opts)
           (if length opts < 2 then '''' else opts ! 1))\<rparr>] \<and>
      kid_count m' = (if length opts = 3 then kid_count m else (kid_count m)(cid := kid_count m cid + 1))"
    using seen_connect [OF assms(3) kid [OF k] assms(4) sso, of "snd (or_next ?k cid m)"]
    by (simp only: opt case_prod_beta fst_conv snd_conv kid_count_other simp_thms)
  have "stdin_line uc (join '' '' (''reauth'' # cid # user # (if kid = '''' then [] else [kid]))) m =
      (case stdin_command ''reauth'' (''reauth'' # cid # user # (if kid = '''' then [] else [kid])) m of
         (m1, ws) \<Rightarrow> (m1, ws, Continue))"
    using w assms(1,4,8) by (intro stdin_words) (auto simp: mock_commands_def mock_id_def)
  moreover have "nth_or (if kid = '''' then [] else [kid]) 0 '''' = kid" by (simp add: nth_or_def)
  then have "stdin_command ''reauth'' (''reauth'' # cid # user # (if kid = '''' then [] else [kid])) m =
      (snd (or_next kid cid m), sendReauth cid (fst (or_next kid cid m)) user)"
    by (simp only: stdin_command_def s) (simp add: case_prod_beta)
  ultimately show "case stdin_line uc (join '' '' (''reauth'' # cid # user # (if kid = '''' then [] else [kid]))) m of (m', ws, end) \<Rightarrow>
      end = Continue \<and>
      seen ws = [Notification \<lparr>ev_type = EventReauth, ev_cid = cid,
         ev_kid = (if kid \<noteq> '''' then kid else itoa (kid_count m cid + 1)), ev_env = env_of (reauth_env user)\<rparr>] \<and>
      kid_count m' = (if kid \<noteq> '''' then kid_count m else (kid_count m)(cid := kid_count m cid + 1))"
    using seen_reauth [OF assms(3) kid [OF assms(8)] assms(4)] or_next_counts [OF assms(10), of kid]
    by (cases "kid = ''''") (simp_all del: join.simps)
  have "stdin_line uc (join '' '' [''disconnect'', cid]) m =
      (case stdin_command ''disconnect'' [''disconnect'', cid] m of (m1, ws) \<Rightarrow> (m1, ws, Continue))"
    using w assms(1) by (intro stdin_words) (simp_all add: mock_commands_def)
  then show "case stdin_line uc (join '' '' [''disconnect'', cid]) m of (m', ws, end) \<Rightarrow>
      end = Continue \<and>
      seen ws = [Notification \<lparr>ev_type = EventDisconnect, ev_cid = cid, ev_kid = '''',
         ev_env = env_of [(''time_duration'', ''120'')]\<rparr>] \<and>
      kid_count m' = (kid_count m)(cid := 0)"
    using seen_disconnect [OF assms(3)] by (simp add: stdin_command_def case_prod_beta kid_count_other)
qed

theorem mock_events_read_witness:
  "seen (fst (snd (stdin_line id ''connect 3 alice'' (new_mock\<lparr>mk_conn := ConnOpen, mk_serving := Reading\<rparr>)))) =
     [Notification \<lparr>ev_type = EventConnect, ev_cid = ''3'', ev_kid = ''1'', ev_env = env_of (connect_env ''alice'' ''webauth'' '''')\<rparr>]"
proof -
  have "mock_id ''3''" "mock_word ''alice''" "itoa 1 = ''1''" "mock_word ''webauth''" "in_i64 1" by code_simp+
  then show ?thesis
    using mock_events_read [of "new_mock\<lparr>mk_conn := ConnOpen, mk_serving := Reading\<rparr>" "''3''" "''alice''" "[]" "''''" id]
    by (simp add: new_mock_def kid_count_def case_prod_beta)
qed

section \<open>The daemon reads the mock's status\<close>

definition mock_columns :: "string list" where
  "mock_columns = [''Common Name'', ''Real Address'', ''Bytes Received'', ''Bytes Sent'',
     ''Connected Since (time_t)'', ''Username'', ''Client ID'', ''Peer ID'']"

definition mock_cols :: "string \<times> active_session \<Rightarrow> string list" where
  "mock_cols = (\<lambda>(cid, sess). [''CLIENT_LIST'', as_username sess, ''10.0.0.2:51234'', ''1'', ''2'',
     itoa (as_connectedAt sess), as_username sess, cid, ''0''])"

definition field_text :: "string \<Rightarrow> bool" where
  "field_text s \<longleftrightarrow> CHR '','' \<notin> set s \<and> CHR 0x09 \<notin> set s \<and> CHR 0x0A \<notin> set s"

definition mock_session_ok :: "string \<times> active_session \<Rightarrow> bool" where
  "mock_session_ok = (\<lambda>(cid, sess). cid \<noteq> '''' \<and> field_text cid \<and> field_text (as_username sess) \<and>
     in_i64 (as_connectedAt sess))"

definition mock_client :: "string \<times> active_session \<Rightarrow> status_client" where
  "mock_client = (\<lambda>(cid, sess). \<lparr>sc_cid = cid, sc_cn = as_username sess, sc_realAddress = ''10.0.0.2:51234'',
     sc_virtualAddress = '''', sc_connectedAt = time_Unix (as_connectedAt sess), sc_established = False,
     sc_routingConfirmed = False\<rparr>)"

lemma splitStatusLine_commas:
  assumes "ps \<noteq> []" and "list_all field_text ps"
  shows "splitStatusLine (join '','' ps) = ps"
proof -
  have "CHR 0x09 \<notin> set (join '','' ps)"
    using assms(2) by (induction ps rule: induct_list012) (simp_all add: field_text_def)
  then have "\<not> Contains (join '','' ps) [CHR 0x09]" by (auto simp: Contains_iff)
  moreover have "Split (join '','' ps) (CHR '','') = ps"
    using assms by (intro Split_join) (auto simp: field_text_def list_all_iff)
  ultimately show ?thesis by (simp add: splitStatusLine_def)
qed

lemma field_text_itoa: "field_text (itoa n)"
  using itoa_chars [of _ n] not_plain by (auto simp: field_text_def)

lemma mock_row_cols:
  assumes "mock_session_ok s"
  shows "splitStatusLine (status_row s) = mock_cols s"
proof -
  have "status_row s = join '','' (mock_cols s)"
    by (simp add: status_row_def mock_cols_def case_prod_beta)
  moreover have "list_all field_text (mock_cols s)"
    using assms field_text_itoa by (auto simp: mock_cols_def mock_session_ok_def) (simp_all add: field_text_def)
  moreover have "mock_cols s \<noteq> []" by (simp add: mock_cols_def case_prod_beta)
  ultimately show ?thesis using splitStatusLine_commas by metis
qed

lemma mock_header_cols: "splitStatusLine status_header = ''HEADER'' # ''CLIENT_LIST'' # mock_columns"
proof -
  have "status_header = join '','' (''HEADER'' # ''CLIENT_LIST'' # mock_columns)"
    by (simp add: status_header_def mock_columns_def)
  moreover have "list_all field_text (''HEADER'' # ''CLIENT_LIST'' # mock_columns)" by code_simp
  ultimately show ?thesis using splitStatusLine_commas list.distinct(1) by metis
qed

lemma mock_index:
  "map (\<lambda>n. fmlookup (column_index mock_columns) (column_name n))
     [''Client ID'', ''Common Name'', ''Connected Since (time_t)'', ''Real Address'', ''Virtual Address'', ''VirtualAddress'']
   = [Some 7, Some 1, Some 5, Some 2, None, None]"
proof -
  have "map column_name (mock_columns @ [''Virtual Address'', ''VirtualAddress'']) = [''commonname'', ''realaddress'',
      ''bytesreceived'', ''bytessent'', ''connectedsincetimet'', ''username'', ''clientid'', ''peerid'',
      ''virtualaddress'', ''virtualaddress'']"
    by code_simp
  then show ?thesis by (simp add: mock_columns_def column_index_def)
qed

lemma parse_mock_row:
  assumes "mock_session_ok s" and "sp_clientHeader p = column_index mock_columns"
  shows "parseClient uc p (mock_cols s) = Ok (if as_username (snd s) = '''' then None else Some (mock_client s))"
proof -
  have mem: "''Client ID'' \<in> set header_names" "''Common Name'' \<in> set header_names"
    "''Connected Since (time_t)'' \<in> set header_names" "''Real Address'' \<in> set header_names"
    "''Virtual Address'' \<in> set header_names" "''VirtualAddress'' \<in> set header_names"
    by (simp_all add: header_names_def client_header_def)
  have v: "statusValue uc (mock_cols s) (sp_clientHeader p) (name # names) = mock_cols s ! i"
    if "name \<in> set header_names" "fmlookup (column_index mock_columns) (column_name name) = Some i" "i < 9"
    for name names i
    using that statusValue_first by (simp add: assms(2) mock_cols_def case_prod_beta)
  have n: "statusValue uc (mock_cols s) (sp_clientHeader p) [''Virtual Address'', ''VirtualAddress''] = ''''"
    using mock_index mem by (simp add: statusValue.simps normalizeHeader_names assms(2))
  have idx: "fmlookup (column_index mock_columns) (column_name ''Client ID'') = Some 7"
    "fmlookup (column_index mock_columns) (column_name ''Common Name'') = Some 1"
    "fmlookup (column_index mock_columns) (column_name ''Connected Since (time_t)'') = Some 5"
    "fmlookup (column_index mock_columns) (column_name ''Real Address'') = Some 2"
    using mock_index by simp_all
  note vs = v [OF mem(1) idx(1)] v [OF mem(2) idx(2)] v [OF mem(3) idx(3)] v [OF mem(4) idx(4)]
  have "mock_cols s ! 7 = fst s" "mock_cols s ! Suc 0 = as_username (snd s)"
    "mock_cols s ! 5 = itoa (as_connectedAt (snd s))" "mock_cols s ! 2 = ''10.0.0.2:51234''"
    by (simp_all add: mock_cols_def case_prod_beta)
  moreover have "itoa (as_connectedAt (snd s)) \<noteq> ''''" by (simp add: itoa_def)
  ultimately show ?thesis
    using assms(1)
    by (simp add: parseClient_def n vs mock_client_def mock_session_ok_def case_prod_beta ParseInt_itoa)
qed

lemma consume_mock_row:
  assumes "mock_session_ok s" and "sp_clientHeader p = column_index mock_columns"
  shows "consume uc p (status_row s) =
    Ok (False, p\<lparr>sp_clients := sp_clients p @ (if as_username (snd s) = '''' then [] else [mock_client s])\<rparr>)"
proof -
  have "status_row s \<noteq> ''END''" by (simp add: status_row_def case_prod_beta)
  moreover have "\<exists>cs. mock_cols s = ''CLIENT_LIST'' # cs" by (simp add: mock_cols_def case_prod_beta)
  ultimately show ?thesis
    using parse_mock_row [OF assms] by (auto simp: consume_def mock_row_cols [OF assms(1)])
qed

lemma consume_mock_rows:
  assumes "list_all mock_session_ok ss" and "sp_clientHeader p = column_index mock_columns"
  shows "consume_all uc p (map status_row ss @ rest) =
    consume_all uc (p\<lparr>sp_clients := sp_clients p @ map mock_client (filter (\<lambda>s. as_username (snd s) \<noteq> '''') ss)\<rparr>) rest"
  using assms by (induction ss arbitrary: p) (simp_all add: consume_mock_row)

lemma consume_mock_head:
  "consume uc p (''TITLE,'' @ mockServerTitle) = Ok (False, p)"
  "consume uc p status_header = Ok (False, p\<lparr>sp_clientHeader := column_index mock_columns\<rparr>)"
  "consume uc p (''TIME,'' @ itoa now) = Ok (False, p)"
proof -
  have title: "splitStatusLine (''TITLE,'' @ mockServerTitle) = [''TITLE'', mockServerTitle]"
    using splitStatusLine_commas [of "[''TITLE'', mockServerTitle]"] by (simp add: field_text_def mockServerTitle_def)
  then show "consume uc p (''TITLE,'' @ mockServerTitle) = Ok (False, p)" by (simp add: consume_def)
  have "splitStatusLine (''TIME,'' @ itoa now) = [''TIME'', itoa now]"
    using splitStatusLine_commas [of "[''TIME'', itoa now]"] field_text_itoa by (simp add: field_text_def)
  then show "consume uc p (''TIME,'' @ itoa now) = Ok (False, p)" by (simp add: consume_def)
  have "set mock_columns \<subseteq> set header_names"
    by (simp add: mock_columns_def header_names_def client_header_def)
  moreover have "status_header \<noteq> ''END''" "3 \<le> length (''HEADER'' # ''CLIENT_LIST'' # mock_columns)"
    by (simp_all add: status_header_def mock_columns_def)
  ultimately show "consume uc p status_header = Ok (False, p\<lparr>sp_clientHeader := column_index mock_columns\<rparr>)"
    by (simp add: consume_def mock_header_cols header_index_names Let_def) (simp add: mock_columns_def)
qed

lemma consume_preamble:
  "consume_all uc p ((''TITLE,'' @ mockServerTitle) # status_header # (''TIME,'' @ itoa now) # rest) =
     consume_all uc (p\<lparr>sp_clientHeader := column_index mock_columns\<rparr>) rest"
  by (simp only: consume_all.simps consume_mock_head sum.case prod.case bool.case)

lemma status_line_whole: "mock_session_ok s \<Longrightarrow> CHR 0x0A \<notin> set (status_row s)"
  using field_text_itoa [of "as_connectedAt (snd s)"]
  by (auto simp: status_row_def mock_session_ok_def field_text_def case_prod_beta)

text \<open>
  What the daemon learns from the mock's answer to \<open>status 3\<close>. In whatever order the map is
  iterated, the listing is accepted and names exactly the authorised clients with a user name, each
  with its id, name and the time of its authorisation. But the mock announces no column for the
  virtual address, so every client is reported as pending and none as established: a daemon that
  reconnects to the mock finds no session to track again.
\<close>

theorem mock_status_read:
  assumes "list_all mock_session_ok order"
  shows "ParseStatusLines uc (lines_of (concat (writeStatus now order))) =
    Ok \<lparr>ss_clients = map mock_client
          (filter (\<lambda>s. as_username (snd s) \<noteq> '''') (filter (\<lambda>s. as_connectedAt (snd s) \<noteq> 0) order)),
        ss_established = []\<rparr>"
proof -
  let ?listed = "filter (\<lambda>s. as_connectedAt (snd s) \<noteq> 0) order"
  have ok: "list_all mock_session_ok ?listed" using assms by (auto simp: list_all_iff)
  then have "list_all (\<lambda>l. CHR 0x0A \<notin> set l) (map status_row ?listed)"
    by (auto simp: list_all_iff status_line_whole)
  moreover have "CHR 0x0A \<notin> set (itoa now)" using field_text_itoa by (simp add: field_text_def)
  ultimately have l: "lines_of (concat (writeStatus now order)) =
      [''TITLE,'' @ mockServerTitle, status_header, ''TIME,'' @ itoa now] @ map status_row ?listed @ [''END'']"
    unfolding writeStatus_def case_prod_beta
    by (intro lines_of_crlf) (simp add: mockServerTitle_def status_header_def)
  have f: "finalize_client {} (mock_client s) = mock_client s" "sc_established (mock_client s) = False" for s
    by (simp_all add: finalize_client_def mock_client_def case_prod_beta)
  have e: "consume_all uc p [''END''] = Ok (sp_snapshot (finalize p))" for p by (simp add: consume_def)
  have "ParseStatusLines uc (lines_of (concat (writeStatus now order))) =
      consume_all uc (new_parser\<lparr>sp_clientHeader := column_index mock_columns\<rparr>) (map status_row ?listed @ [''END''])"
    using consume_preamble [of uc new_parser now "map status_row ?listed @ [''END'']"]
    by (simp add: l ParseStatusLines_def del: consume_all.simps)
  also have "\<dots> = Ok (sp_snapshot (finalize
      ((new_parser\<lparr>sp_clientHeader := column_index mock_columns\<rparr>)
        \<lparr>sp_clients := map mock_client (filter (\<lambda>s. as_username (snd s) \<noteq> '''') ?listed)\<rparr>)))"
    by (subst consume_mock_rows [OF ok]) (simp_all add: e new_parser_def del: consume_all.simps)
  finally show ?thesis
    by (simp add: finalize_def new_parser_def empty_snapshot_def f comp_def Let_def)
qed

theorem mock_status_read_witness:
  "ParseStatusLines id (lines_of (concat (writeStatus 1700000100
      [(''3'', \<lparr>as_username = ''alice'', as_connectedAt = 1700000000\<rparr>), (''4'', \<lparr>as_username = ''bob'', as_connectedAt = 0\<rparr>)]))) =
    Ok \<lparr>ss_clients = [mock_client (''3'', \<lparr>as_username = ''alice'', as_connectedAt = 1700000000\<rparr>)], ss_established = []\<rparr>"
proof -
  have "list_all mock_session_ok
      [(''3'', \<lparr>as_username = ''alice'', as_connectedAt = 1700000000\<rparr>), (''4'', \<lparr>as_username = ''bob'', as_connectedAt = 0\<rparr>)]"
    by (simp add: mock_session_ok_def field_text_def in_i64_def i64_min_def i64_max_def)
  from mock_status_read [OF this, of id 1700000100] show ?thesis by simp
qed

section \<open>Decisions and the password\<close>

lemma seen_established:
  assumes "mock_id cid"
  shows "seen (established_writes cid) =
    [Notification \<lparr>ev_type = EventEstablished, ev_cid = cid, ev_kid = '''', ev_env = env_of [(''time_unix'', ''1234567890'')]\<rparr>]"
proof -
  let ?its = "[Block (''>CLIENT:ESTABLISHED,'' @ cid) EventEstablished cid '''' [(''time_unix'', ''1234567890'')],
    Address (cid @ '',10.8.0.2,1'')]"
  have e: "established_writes cid = map crlf (concat (map item_lines ?its))"
    by (simp add: established_writes_def env_line_def env_end_def)
  have "ParseHeader (''>CLIENT:ESTABLISHED,'' @ cid) = Ok (EventEstablished, cid, '''')"
    using assms by (intro header_read mock_id_ident)
  then have "list_all item_ok ?its" by (simp add: var_name_def)
  moreover have "list_all mock_line (concat (map item_lines ?its))"
    using assms mock_word_length [of cid]
    by (simp add: mock_id_def mock_word_line env_line_def env_end_def mock_line_def MaxScanTokenSize_def)
  ultimately show ?thesis unfolding e by (subst seen_items) simp_all
qed

text \<open>The commands are those of \<open>internal/mgmt/commands.go\<close>, one line at a time.\<close>

primrec daemon_lines ::
  "string \<Rightarrow> int \<Rightarrow> (string \<times> active_session) list \<Rightarrow> string list \<Rightarrow> mock \<Rightarrow> mock \<times> string list" where
  "daemon_lines pw now order [] m = (m, [])"
| "daemon_lines pw now order (l # ls) m =
     (case daemon_line pw True now order l m of
        (m1, ws) \<Rightarrow> (case daemon_lines pw now order ls m1 of (m2, ws2) \<Rightarrow> (m2, ws @ ws2)))"

lemma command_words: "mock_word ''client-auth''" "mock_word ''client-auth-nt''"
  by code_simp+

lemma ClientAuth_lines:
  assumes "mock_id cid" and "mock_id kid"
  shows "lines_of (WriteLine (ClientAuth cid kid)) = [join '' '' [''client-auth'', cid, kid], ''END'']"
    and "lines_of (WriteLine (ClientAuthNT cid kid)) = [join '' '' [''client-auth-nt'', cid, kid]]"
proof -
  have "line_text w" if "mock_id w" for w
    using that not_plain by (auto simp: mock_id_def mock_word_def line_text_def list_all_iff plain_char_def ascii_spaces_def)
  with assms have w: "wire_decision (mk_decision t cid kid)" for t
    by (simp add: wire_decision_def mk_decision_def line_text_def)
  show "lines_of (WriteLine (ClientAuth cid kid)) = [join '' '' [''client-auth'', cid, kid], ''END'']"
    "lines_of (WriteLine (ClientAuthNT cid kid)) = [join '' '' [''client-auth-nt'', cid, kid]]"
    using command_read [OF w [of DecisionAllow], of "[]"] command_read [OF w [of DecisionAllowNT], of "[]"]
    by (simp_all add: command_lines_def decisionToCommand_def mk_decision_def ClientAuthNT_def)
qed

text \<open>
  How the mock answers a grant. When the daemon's \<open>client-auth\<close> or \<open>client-auth-nt\<close> command for a
  connection arrives, the mock records the time of the authorisation under the name it knows and
  the daemon sees exactly one thing: the connection is established. In particular no line that
  answers the command is sent, where OpenVPN reports its success.
\<close>

theorem mock_answers_grant:
  assumes "mk_serving m = Reading" and "mock_id cid" and "mock_id kid"
  shows "daemon_lines pw now order (lines_of (WriteLine (ClientAuth cid kid))) m = (authorise now cid m, established_writes cid) \<and>
    daemon_lines pw now order (lines_of (WriteLine (ClientAuthNT cid kid))) m = (authorise now cid m, established_writes cid) \<and>
    seen (established_writes cid) =
      [Notification \<lparr>ev_type = EventEstablished, ev_cid = cid, ev_kid = '''', ev_env = env_of [(''time_unix'', ''1234567890'')]\<rparr>] \<and>
    fmlookup (mk_sessions (authorise now cid m)) cid =
      Some \<lparr>as_username = (case fmlookup (mk_sessions m) cid of Some sess \<Rightarrow> as_username sess | None \<Rightarrow> ''''), as_connectedAt = now\<rparr>"
proof (intro conjI)
  have w: "list_all mock_word [''client-auth'', cid, kid]" "list_all mock_word [''client-auth-nt'', cid, kid]"
    using command_words assms(2,3) by (simp_all add: mock_id_def)
  have keep: "m\<lparr>mk_sessions := s\<rparr>\<lparr>mk_serving := Reading\<rparr> = m\<lparr>mk_sessions := s\<rparr>" for s
    using assms(1) by (cases m) simp
  have "daemon_line pw True now order (join '' '' [''client-auth'', cid, kid]) m =
      ((authorise now cid m)\<lparr>mk_serving := SkipBlock cid\<rparr>, [])"
    unfolding daemon_line_def command_line_def Fields_words [OF w(1)] using assms(1) by simp
  then show "daemon_lines pw now order (lines_of (WriteLine (ClientAuth cid kid))) m = (authorise now cid m, established_writes cid)"
    unfolding ClientAuth_lines [OF assms(2,3)] by (simp add: daemon_line_def authorise_def Let_def keep del: join.simps)
  have "daemon_line pw True now order (join '' '' [''client-auth-nt'', cid, kid]) m = (authorise now cid m, established_writes cid)"
    unfolding daemon_line_def command_line_def Fields_words [OF w(2)] using assms(1) by simp
  then show "daemon_lines pw now order (lines_of (WriteLine (ClientAuthNT cid kid))) m = (authorise now cid m, established_writes cid)"
    unfolding ClientAuth_lines [OF assms(2,3)] by (simp del: join.simps)
  show "seen (established_writes cid) =
      [Notification \<lparr>ev_type = EventEstablished, ev_cid = cid, ev_kid = '''', ev_env = env_of [(''time_unix'', ''1234567890'')]\<rparr>]"
    by (rule seen_established [OF assms(2)])
  show "fmlookup (mk_sessions (authorise now cid m)) cid =
      Some \<lparr>as_username = (case fmlookup (mk_sessions m) cid of Some sess \<Rightarrow> as_username sess | None \<Rightarrow> ''''), as_connectedAt = now\<rparr>"
    by (simp add: authorise_def Let_def)
qed

theorem mock_answers_grant_witness:
  "daemon_lines ''pw'' 1700000000 [] (lines_of (WriteLine (ClientAuthNT ''3'' ''1''))) (new_mock\<lparr>mk_serving := Reading\<rparr>) =
     (authorise 1700000000 ''3'' (new_mock\<lparr>mk_serving := Reading\<rparr>), established_writes ''3'')"
proof -
  have "mock_id ''3''" "mock_id ''1''" by code_simp+
  then show ?thesis
    using mock_answers_grant [of "new_mock\<lparr>mk_serving := Reading\<rparr>" "''3''" "''1''" "''pw''" 1700000000 "[]"] by simp
qed

text \<open>
  The mock and the daemon agree on the password file. When both read the same password (one line), the mock's
  prompt and its answer to the trimmed password that the daemon writes let the daemon
  authenticate, and what the daemon reads next is the hold request; a daemon with another
  password is refused.
\<close>

theorem mock_login:
  assumes "mock_password (FileBytes file) None = Ok pw" and "mk_serving m = Accepting"
    and "io = \<lparr>io_file = Ok file', io_setDeadline = None, io_clearDeadline = None, io_write = None\<rparr>" and "TrimSpace file' \<noteq> ''''"
    and "accept_conn pw True m = (m1, ws1)" and "daemon_line pw True now order (TrimSpace file') m1 = (m2, ws2)"
  shows "if TrimSpace file' = TrimSpace file
    then authenticate io \<lparr>cn_in = concat (ws1 @ ws2), cn_out = []\<rparr> = Ok \<lparr>cn_in = crlf hold_line, cn_out = [pw]\<rparr> \<and>
      mk_serving m2 = Reading \<and> mk_conn m2 = ConnOpen
    else (\<exists>err. authenticate io \<lparr>cn_in = concat (ws1 @ ws2), cn_out = []\<rparr> = Err err) \<and> mk_serving m2 = Accepting"
proof -
  have pw: "pw = TrimSpace file" "pw \<noteq> ''''" using assms(1) by (auto simp: mock_password_def split: if_splits)
  have a: "m1 = m\<lparr>mk_conn := ConnOpen, mk_serving := AwaitPassword\<rparr>" "ws1 = [prompt]"
    using assms(5) pw(2) by (auto simp: accept_conn_def prompt_def)
  have len: "length prompt = 15" by (simp add: prompt_def)
  have p: "password_line pw True (TrimSpace file') m1 = (m2, ws2)" using assms(6) a(1) by (simp add: daemon_line_def)
  have ok: "authenticate io \<lparr>cn_in = concat ([prompt] @ [crlf l, rest]), cn_out = []\<rparr> =
      (if HasPrefix l ''SUCCESS:'' then Ok \<lparr>cn_in = rest, cn_out = [TrimSpace file']\<rparr>
       else Err (''management authentication failed: '' @ l))" if "mock_line l" for l rest
    using that assms(3,4) len by (simp add: authenticate_def scan_line_crlf)
  show ?thesis
  proof (cases "TrimSpace file' = TrimSpace file")
    case True
    then have "ws2 = [crlf ''SUCCESS: password is correct'', crlf hold_line]" "m2 = m1\<lparr>mk_serving := Reading\<rparr>"
      using p pw(1) by (auto simp: password_line_def)
    then show ?thesis
      using True a pw(1) ok [of "''SUCCESS: password is correct''" "crlf hold_line"] by (simp add: mock_line_def MaxScanTokenSize_def)
  next
    case False
    then have "ws2 = [crlf ''ERROR: bad password'']" "mk_serving m2 = Accepting"
      using p pw(1) by (auto simp: password_line_def)
    then show ?thesis
      using False a(2) ok [of "''ERROR: bad password''" "''''"] by (simp add: mock_line_def MaxScanTokenSize_def)
  qed
qed

theorem mock_login_witness:
  "authenticate \<lparr>io_file = Ok ''pw'', io_setDeadline = None, io_clearDeadline = None, io_write = None\<rparr>
     \<lparr>cn_in = ''ENTER PASSWORD:'' @ crlf ''SUCCESS: password is correct'' @ crlf hold_line, cn_out = []\<rparr> =
   Ok \<lparr>cn_in = crlf hold_line, cn_out = [''pw'']\<rparr>"
proof -
  have t: "TrimSpace (''pw'' @ [CHR 0x0A]) = ''pw''" "TrimSpace ''pw'' = ''pw''" by code_simp+
  let ?m1 = "new_mock\<lparr>mk_conn := ConnOpen, mk_serving := AwaitPassword\<rparr>"
  have "mock_password (FileBytes (''pw'' @ [CHR 0x0A])) None = Ok ''pw''" "mk_serving new_mock = Accepting"
    "accept_conn ''pw'' True new_mock = (?m1, [''ENTER PASSWORD:''])"
    using t by (simp_all add: mock_password_def new_mock_def accept_conn_def)
  moreover have "daemon_line ''pw'' True 0 [] (TrimSpace ''pw'') ?m1 =
      (?m1\<lparr>mk_serving := Reading\<rparr>, [crlf ''SUCCESS: password is correct'', crlf hold_line])"
    by (simp add: t daemon_line_def password_line_def)
  ultimately have "if TrimSpace ''pw'' = TrimSpace (''pw'' @ [CHR 0x0A])
    then authenticate \<lparr>io_file = Ok ''pw'', io_setDeadline = None, io_clearDeadline = None, io_write = None\<rparr>
        \<lparr>cn_in = concat ([''ENTER PASSWORD:''] @ [crlf ''SUCCESS: password is correct'', crlf hold_line]), cn_out = []\<rparr> =
        Ok \<lparr>cn_in = crlf hold_line, cn_out = [''pw'']\<rparr> \<and>
      mk_serving (?m1\<lparr>mk_serving := Reading\<rparr>) = Reading \<and> mk_conn (?m1\<lparr>mk_serving := Reading\<rparr>) = ConnOpen
    else (\<exists>err. authenticate \<lparr>io_file = Ok ''pw'', io_setDeadline = None, io_clearDeadline = None, io_write = None\<rparr>
        \<lparr>cn_in = concat ([''ENTER PASSWORD:''] @ [crlf ''SUCCESS: password is correct'', crlf hold_line]), cn_out = []\<rparr> = Err err) \<and>
      mk_serving (?m1\<lparr>mk_serving := Reading\<rparr>) = Accepting"
    using t(2) by (intro mock_login [OF _ _ refl]) simp_all
  then show ?thesis using t by simp
qed

section \<open>The two loops together\<close>

text \<open>The steps of the two goroutines, in any interleaving, until standard input ends the process.\<close>

inductive mock_step :: "string \<Rightarrow> mock \<Rightarrow> mock \<Rightarrow> bool" for pw where
  accepted: "mk_serving m = Accepting \<Longrightarrow> accept_conn pw sent m = (m', ws) \<Longrightarrow> mock_step pw m m'"
| received: "daemon_line pw sent now order line m = (m', ws) \<Longrightarrow> mock_step pw m m'"
| hung_up: "daemon_gone m = (m', ws) \<Longrightarrow> mock_step pw m m'"
| typed: "stdin_line uc input m = (m', ws, Continue) \<Longrightarrow> mock_step pw m m'"

definition mock_ok :: "mock \<Rightarrow> bool" where
  "mock_ok m \<longleftrightarrow> (mk_serving m \<noteq> Accepting \<longrightarrow> mk_conn m = ConnOpen) \<and>
     (\<forall>cid k. fmlookup (mk_cidKID m) cid = Some k \<longrightarrow> in_i64 k)"

lemma mock_ok_cong:
  "mk_serving m' = mk_serving m \<Longrightarrow> mk_conn m' = mk_conn m \<Longrightarrow> mk_cidKID m' = mk_cidKID m \<Longrightarrow> mock_ok m' = mock_ok m"
  by (simp add: mock_ok_def)

lemma mock_ok_authorise [simp]: "mock_ok (authorise now cid m) = mock_ok m"
  by (rule mock_ok_cong) (simp_all add: authorise_def Let_def)

lemma mock_ok_nextKID: "mock_ok m \<Longrightarrow> mock_ok (snd (or_next kid cid m))"
  by (auto simp: or_next_def nextKID_def Let_def mock_ok_def)

lemma mock_ok_sends:
  "mock_ok m \<Longrightarrow> mock_ok (fst (sendConnect cid kid user sso password m))"
  "mock_ok m \<Longrightarrow> mock_ok (resetKID cid (fst (sendDisconnect cid m)))"
  by (simp_all add: sendConnect_def sendDisconnect_def resetKID_def mock_ok_def Let_def)

lemma mock_ok_command:
  assumes "mock_ok m"
  shows "mock_ok (fst (stdin_command cmd parts m))"
proof -
  have sso: "mock_ok (m\<lparr>mk_defaultSSO := x\<rparr>)" for x using assms by (simp add: mock_ok_def)
  show ?thesis
    unfolding stdin_command_def case_prod_beta
    by (simp add: assms sso mock_ok_nextKID mock_ok_sends)
qed

lemma mock_ok_received: "mock_ok m \<Longrightarrow> daemon_line pw sent now order line m = (m', ws) \<Longrightarrow> mock_ok m'"
proof (cases "mk_serving m")
  case Reading
  assume a: "mock_ok m" "daemon_line pw sent now order line m = (m', ws)"
  have s: "mock_ok ((authorise now cid m)\<lparr>mk_serving := SkipBlock cid\<rparr>)" "mock_ok (m\<lparr>mk_sessions := fmdrop cid (mk_sessions m)\<rparr>)" for cid
    using a(1) Reading by (simp_all add: mock_ok_def authorise_def Let_def)
  from a Reading show ?thesis
    by (auto simp: daemon_line_def command_line_def s split: if_splits list.splits)
qed (auto simp: daemon_line_def password_line_def mock_ok_def split: if_splits)

interpretation mock_loops: transition_system "\<lambda>m. m = new_mock" "mock_step pw" mock_ok for pw
proof
  show "m = new_mock \<Longrightarrow> mock_ok m" for m by (simp add: new_mock_def mock_ok_def)
  show "mock_ok m'" if ok: "mock_ok m" and "mock_step pw m m'" for m m'
    using that(2)
  proof (cases rule: mock_step.cases)
    case (accepted sent ws)
    with ok show ?thesis by (auto simp: accept_conn_def mock_ok_def Let_def split: if_splits)
  next
    case (received sent now order line ws)
    then show ?thesis using ok by (rule mock_ok_received [rotated])
  next
    case (hung_up ws)
    with ok show ?thesis by (auto simp: daemon_gone_def mock_ok_def split: serving.splits)
  next
    case (typed uc input ws)
    with ok mock_ok_command [OF ok] show ?thesis
      by (auto simp: stdin_line_def Let_def case_prod_beta split: if_splits list.splits)
  qed
qed

text \<open>
  While a daemon is served, what is typed reaches it: in every interleaving of the two loops, a mock
  that waits for a line of the daemon has an open connection that the commands write to. (The
  converse fails: after a refused password the connection stays registered though it is closed, and
  what is typed then is lost.)
\<close>

theorem mock_serves_open_connection:
  assumes "reachable_from (\<lambda>m. m = new_mock) (mock_step pw) m" and "mk_serving m \<noteq> Accepting"
  shows "mk_conn m = ConnOpen"
  using mock_loops.reachable_inv [OF assms(1)] assms(2) by (simp add: mock_ok_def)

lemma refused_connection_stays_registered:
  "mk_conn (fst (password_line pw sent got m)) = ConnClosed" if "got \<noteq> pw"
  using that by (simp add: password_line_def)

end
