(* ===== verification/AlbMock.thy ===== *)
theory AlbMock
  imports JsonText Callback
begin

text \<open>
  \<open>cmd/alb-mock/main.go\<close>: the stand-in for the ALB and Cognito in local development. It forwards a
  callback to the daemon with an unsigned token of a configured identity. The HTTP client (what
  becomes of a request with given headers) is a parameter, and a request is the decoded path
  suffix and \<open>state\<close> parameter. The maps marshalled by the code hold strings, an \<open>int64\<close> and a
  slice of strings only, for which \<open>json.Marshal\<close> has no error; its error branches are left out.
\<close>

section \<open>Settings\<close>

record mock_config =
  mc_daemonAddr :: string
  mc_email :: string
  mc_sub :: string
  mc_groups :: "string list"

definition splitGroups :: "string \<Rightarrow> string list" where
  "splitGroups s =
     (if s = '''' then [] else filter (\<lambda>p. p \<noteq> '''') (map TrimSpace (Split s (CHR '',''))))"

definition mustEnv :: "(string \<Rightarrow> string) \<Rightarrow> string \<Rightarrow> string result" where
  "mustEnv env key = (if env key = '''' then Err ''required env var not set'' else Ok (env key))"

definition mock_getenv :: "(string \<Rightarrow> string) \<Rightarrow> string \<Rightarrow> string \<Rightarrow> string" where
  "mock_getenv env key fallback = (if env key \<noteq> '''' then env key else fallback)"

text \<open>The settings and the address to listen on, from the environment.\<close>

definition mock_settings :: "(string \<Rightarrow> string) \<Rightarrow> (mock_config \<times> string) result" where
  "mock_settings env =
     (case mustEnv env ''DAEMON_ADDR'' of
        Inl err \<Rightarrow> Err err
      | Inr addr \<Rightarrow>
          Ok (\<lparr>mc_daemonAddr = addr,
               mc_email = mock_getenv env ''MOCK_EMAIL'' ''test@example.com'',
               mc_sub = mock_getenv env ''MOCK_SUB'' ''test-sub-123'',
               mc_groups = splitGroups (mock_getenv env ''MOCK_GROUPS'' '''')\<rparr>,
              mock_getenv env ''LISTEN_ADDR'' '':8080''))"

section \<open>The token\<close>

definition mock_header :: json where
  "mock_header = JObj (gomap [(''alg'', JStr ''none''), (''typ'', JStr ''JWT''), (''kid'', JStr ''mock-kid'')])"

definition mock_claims :: "string \<Rightarrow> string \<Rightarrow> string list \<Rightarrow> int \<Rightarrow> json" where
  "mock_claims email sub groups now =
     JObj (gomap
       [(''sub'', JStr sub),
        (''email'', JStr email),
        (''exp'', JNum (itoa (i64 (now + 3600)))),
        (''iss'', JStr ''mock-issuer''),
        (''cognito:groups'', JArr (map JStr groups))])"

definition buildUnsignedJWT :: "string \<Rightarrow> string \<Rightarrow> string list \<Rightarrow> int \<Rightarrow> string" where
  "buildUnsignedJWT email sub groups now =
     EncodeToString (encode_json mock_header) @ ''.'' @
     EncodeToString (encode_json (mock_claims email sub groups now)) @ ''.''"

section \<open>Forwarding\<close>

record mock_request =
  ar_path :: string
  ar_state :: string

datatype daemon_answer =
    BadRequest \<comment> \<open>the request cannot be built\<close>
  | Unreachable
  | Answered nat string string \<comment> \<open>status, content type, body\<close>

datatype alb_reply = Reply nat string string

definition http_Error :: "string \<Rightarrow> nat \<Rightarrow> alb_reply" where
  "http_Error msg status = Reply status ''text/plain; charset=utf-8'' (msg @ [CHR 0x0A])"

definition daemon_url :: "mock_config \<Rightarrow> mock_request \<Rightarrow> string" where
  "daemon_url cfg r =
     (let query = (if ar_state r = '''' then '''' else ''state='' @ ar_state r);
          url = ''http://'' @ mc_daemonAddr cfg @ ''/callback/'' @ ar_path r
      in if query \<noteq> '''' then url @ ''?'' @ query else url)"

definition oidc_request_headers :: "mock_config \<Rightarrow> int \<Rightarrow> (string \<times> string) list" where
  "oidc_request_headers cfg now =
     [(''x-amzn-oidc-data'', buildUnsignedJWT (mc_email cfg) (mc_sub cfg) (mc_groups cfg) now),
      (''x-amzn-oidc-identity'', mc_sub cfg),
      (''x-amzn-oidc-accesstoken'', ''mock-access-token'')]"

definition mock_callback ::
  "(string \<Rightarrow> (string \<times> string) list \<Rightarrow> daemon_answer) \<Rightarrow> mock_config \<Rightarrow> int \<Rightarrow> mock_request \<Rightarrow> alb_reply" where
  "mock_callback client cfg now r =
     (case client (daemon_url cfg r) (oidc_request_headers cfg now) of
        BadRequest \<Rightarrow> http_Error ''internal error'' 500
      | Unreachable \<Rightarrow> http_Error ''daemon unreachable'' 502
      | Answered status contentType body \<Rightarrow> Reply status contentType body)"

section \<open>The daemon reads the mocked identity\<close>

lemma splitGroups_clean: "list_all clean (splitGroups s)"
  by (auto simp: splitGroups_def list_all_iff clean_def)

lemma groupsFromArray_clean: "list_all clean gs \<Longrightarrow> groupsFromArray (map JStr gs) = gs"
  by (induction gs) (auto simp: clean_def)

lemma float64_ok_itoa:
  assumes "0 \<le> i" and "i < 2 ^ 63"
  shows "float64_ok (itoa i)"
proof -
  have i: "itoa i = nat_digits (nat i)" using assms(1) by (simp add: itoa_def)
  have d: "\<And>c. c \<in> set (nat_digits (nat i)) \<Longrightarrow> is_digit c" using nat_digits_all by (auto simp: list_all_iff)
  have n: "\<not> is_digit (CHR ''e'')" "\<not> is_digit (CHR ''E'')" "\<not> is_digit (CHR ''.'')" "\<not> is_digit (CHR ''-'')"
    by (simp_all add: is_digit_def byte_def)
  have parts: "takeWhile (\<lambda>c. c \<noteq> CHR ''e'' \<and> c \<noteq> CHR ''E'') (nat_digits (nat i)) = nat_digits (nat i)"
    "dropWhile (\<lambda>c. c \<noteq> CHR ''e'' \<and> c \<noteq> CHR ''E'') (nat_digits (nat i)) = []"
    "dropWhile (\<lambda>c. c \<noteq> CHR ''.'') (nat_digits (nat i)) = []"
    "filter (\<lambda>c. c \<noteq> CHR ''-'') (nat_digits (nat i)) = nat_digits (nat i)"
    "filter is_digit (nat_digits (nat i)) = nat_digits (nat i)"
    using d n by (auto simp: takeWhile_eq_all_conv dropWhile_eq_Nil_conv filter_id_conv)
  have "num_parts (itoa i) = (nat i, 0)" by (simp add: num_parts_def i Let_def parts del: filter_filter)
  moreover have "i < 2 ^ 1024 - 2 ^ 970" using assms(2) by (rule less_trans) simp
  ultimately show ?thesis using assms(1) by (simp add: float64_ok_def)
qed

lemma map_of_members:
  assumes "by_key m"
  shows "fmlookup (members m) k = map_of m k"
proof -
  have "map_of (rev m) = map_of m"
    using by_key_distinct [OF assms] by (subst map_of_inject_set) (simp_all add: rev_map [symmetric])
  then show ?thesis by (simp add: members_def fmap_of_list.rep_eq)
qed

lemma unmarshal_written:
  assumes "fits 2 (JObj (gomap kvs))" and "list_all (\<lambda>(k, v). floats_ok v) kvs"
  shows "\<exists>m. unmarshal_map (encode_json (JObj (gomap kvs))) = Some m \<and> fmlookup m = map_of (rev kvs)"
proof -
  have "json_parse (encode_json (JObj (gomap kvs))) = Some (JObj (gomap kvs))"
    by (rule fits_roundtrip, rule fits_mono [OF assms(1)]) (simp add: max_nesting_def)
  moreover have "floats_ok (JObj (gomap kvs))" using assms(2) set_gomap [of kvs] by (auto simp: list_all_iff)
  ultimately have "unmarshal_map (encode_json (JObj (gomap kvs))) = Some (members (gomap kvs))"
    by (simp add: unmarshal_map_def unmarshal_any_def)
  moreover have "fmlookup (members (gomap kvs)) = map_of (rev kvs)"
    using map_of_members [OF by_key_gomap] map_of_gomap by (auto simp: fun_eq_iff)
  ultimately show ?thesis by blast
qed

lemma token_parts:
  "Split (buildUnsignedJWT email sub groups now) (CHR ''.'') =
     [EncodeToString (encode_json mock_header), EncodeToString (encode_json (mock_claims email sub groups now)), '''']"
proof -
  have "CHR ''.'' \<notin> set (EncodeToString s)" for s
    using EncodeToString_symbols [of "CHR ''.''" s] b64_symbol_excl by auto
  then show ?thesis by (simp add: buildUnsignedJWT_def Split_append)
qed

lemma decode_part: "decodeBase64URL (EncodeToString s) = Some s"
proof -
  have "\<not> b64_symbol (CHR ''='')" by code_simp
  then have "EncodeToString s = [] \<or> last (EncodeToString s) \<noteq> CHR ''=''"
    by (metis EncodeToString_symbols last_in_set)
  then have "TrimRight (EncodeToString s) (CHR ''='') = EncodeToString s"
    by (cases "EncodeToString s" rule: rev_cases) (auto simp: TrimRight_def)
  then show ?thesis by (simp add: decodeBase64URL_def DecodeString_EncodeToString)
qed

lemma token_read:
  assumes "ascii email" and "email \<noteq> ''''" and "ascii sub" and "list_all ascii (splitGroups s)"
    and "0 \<le> now" and "now + 3600 < 2 ^ 63" and "sv_albARN sv = ''''" and "GroupsClaim (sv_cfg sv) = ''cognito:groups''"
  shows "read_token_claims ce (buildUnsignedJWT email sub (splitGroups s) now) hdr sv =
    (Claims \<lparr>jc_alb = \<lparr>ac_Sub = sub, ac_Email = email, ac_Iss = ''mock-issuer'', ac_CognitoUsername = ''''\<rparr>,
       jc_Groups = splitGroups s, jc_GroupsClaimPresent = True\<rparr>, sv)"
proof -
  let ?kvs = "[(''sub'', JStr sub), (''email'', JStr email), (''exp'', JNum (itoa (i64 (now + 3600)))),
    (''iss'', JStr ''mock-issuer''), (''cognito:groups'', JArr (map JStr (splitGroups s)))]"
  have x: "i64 (now + 3600) = now + 3600" using assms(5,6) by (intro i64_id) (simp add: in_i64_def i64_min_def i64_max_def)
  have n: "int_text (itoa (now + 3600))" unfolding int_text_def using assms(5) by (intro exI [of _ "now + 3600"]) simp
  have f: "floats_ok (JNum (itoa (now + 3600)))" using assms(5,6) by (simp add: float64_ok_itoa)
  have g: "fits 1 (JArr (map JStr (splitGroups s)))"
    using assms(4) fits_JArr [of 0 "map JStr (splitGroups s)"] by (simp add: list_all_iff)
  have "list_all (\<lambda>(k, v). ascii k \<and> fits 1 v) ?kvs"
    using assms(1,3) n g by (simp add: x ascii_def byte_def)
  then have "fits 2 (JObj (gomap ?kvs))" using fits_gomap [of 1 ?kvs] by (simp add: numeral_2_eq_2)
  moreover have "list_all (\<lambda>(k, v). floats_ok v) ?kvs" using f by (simp add: x list_all_iff)
  ultimately obtain m where m: "unmarshal_map (encode_json (JObj (gomap ?kvs))) = Some m" "fmlookup m = map_of (rev ?kvs)"
    using unmarshal_written by blast
  have c: "claim_string m ''email'' = email" "claim_string m ''sub'' = sub" "claim_string m ''iss'' = ''mock-issuer''"
    "claim_string m ''cognito:username'' = ''''" "claim_string m ''username'' = ''''"
    by (simp_all add: claim_string_def m(2))
  have "fmlookup m ''cognito:groups'' = Some (JArr (map JStr (splitGroups s)))" by (simp add: m(2))
  then have "extractGroupsFromRaw m ''cognito:groups'' = (splitGroups s, True)"
    by (simp add: extractGroupsFromRaw_def groupsFromArray_clean splitGroups_clean)
  then show ?thesis
    using assms(2,7,8) m(1) c
    by (simp add: read_token_claims_def parseJWTClaimsUnsafe_def token_parts decode_part mock_claims_def extractALBClaims_def)
qed

text \<open>
  The daemon reads from the mock's token the identity the mock was configured with. For an
  ASCII identity with an email and for any ASCII list of groups in \<open>MOCK_GROUPS\<close>, a daemon
  without ALB ARN takes from the token the configured subject and email, the mock's issuer and, under
  the claim \<open>cognito:groups\<close>, exactly the configured groups in their order, also when there are none.
\<close>

theorem mock_token_read:
  assumes "ascii email" and "email \<noteq> ''''" and "ascii sub" and "list_all ascii (splitGroups s)"
    and "0 \<le> now" and "now + 3600 < 2 ^ 63" and "sv_albARN sv = ''''" and "GroupsClaim (sv_cfg sv) = ''cognito:groups''"
  shows "read_token_claims ce (buildUnsignedJWT email sub (splitGroups s) now) hdr sv =
    (Claims \<lparr>jc_alb = \<lparr>ac_Sub = sub, ac_Email = email, ac_Iss = ''mock-issuer'', ac_CognitoUsername = ''''\<rparr>,
       jc_Groups = splitGroups s, jc_GroupsClaimPresent = True\<rparr>, sv)"
  using assms by (rule token_read)

theorem mock_token_read_witness:
  "read_token_claims sample_callback_env (buildUnsignedJWT ''dev@example.com'' ''sub-1'' (splitGroups ''vpn-users, ,admins'') 1700000000) \<lparr>jh_Kid = ''mock-kid'', jh_Signer = ''''\<rparr>
     (sample_server\<lparr>sv_albARN := '''', sv_cfg := (sv_cfg sample_server)\<lparr>GroupsClaim := ''cognito:groups''\<rparr>\<rparr>) =
   (Claims \<lparr>jc_alb = \<lparr>ac_Sub = ''sub-1'', ac_Email = ''dev@example.com'', ac_Iss = ''mock-issuer'', ac_CognitoUsername = ''''\<rparr>,
      jc_Groups = [''vpn-users'', ''admins''], jc_GroupsClaimPresent = True\<rparr>,
    sample_server\<lparr>sv_albARN := '''', sv_cfg := (sv_cfg sample_server)\<lparr>GroupsClaim := ''cognito:groups''\<rparr>\<rparr>)"
proof -
  have g: "splitGroups ''vpn-users, ,admins'' = [''vpn-users'', ''admins'']"
    "ascii ''dev@example.com''" "ascii ''sub-1''" "list_all ascii [''vpn-users'', ''admins'']"
    by code_simp+
  show ?thesis
    using g mock_token_read [of "''dev@example.com''" "''sub-1''" "''vpn-users, ,admins''" 1700000000
        "sample_server\<lparr>sv_albARN := '''', sv_cfg := (sv_cfg sample_server)\<lparr>GroupsClaim := ''cognito:groups''\<rparr>\<rparr>"]
    by simp
qed

end
