(* ===== verification/Login.thy ===== *)
theory Login
  imports Outcomes AlbMock
begin

text \<open>
  The other direction of the callback's checks: a login that meets them is granted. With
  \<open>callback_grant_requires\<close> of \<open>Callback\<close> this says exactly when the daemon grants access. The
  development set-up, where the ALB mock supplies the token, is an instance.
\<close>

lemma cn_ok_check: "cn_ok e s cl \<Longrightarrow> cn_check (e_uc e) s cl = None"
  by (auto simp: cn_ok_def cn_check_def)

lemma group_ok_check:
  assumes "group_ok e (h_out h) sv s cl" and "sv_identity sv" and "ps_RequiredGroup s \<noteq> ''''"
  shows "\<exists>h1 xs. checkGroup e sv s cl h = (Some True, h1) \<and> h_out h1 = h_out h @ xs \<and> List.map_filter sent xs = []"
  using assms
  by (auto simp: group_ok_def checkGroup_def check_membership_def member_loop_iff Let_def emit_def map_filter_def)

lemma decisions_emit:
  "h_out h' = h_out h @ xs \<Longrightarrow> decisions h h' = List.map_filter sent xs"
  by (simp add: decisions_def new_effects_def)

lemma grant_accepted:
  assumes "\<And>out. e_send e out = None"
  shows "\<exists>h'. grant_session e sv s cl h = (Resp 200 ''Success'', h') \<and>
    (\<exists>x. sent x = Some (allow (ps_CID s) (ps_KID s)) \<and> h_out h' = h_out h @ [x, OMetric AuthSuccess])"
proof -
  let ?x = "if sink_acks (sv_sink sv) then OSendAck (sv_sink sv) (allow (ps_CID s) (ps_KID s))
    else OSend (sv_sink sv) (allow (ps_CID s) (ps_KID s))"
  have "sent ?x = Some (allow (ps_CID s) (ps_KID s))" by simp
  moreover have "\<exists>h'. grant_session e sv s cl h = (Resp 200 ''Success'', h') \<and> h_out h' = h_out h @ [?x, OMetric AuthSuccess]"
    using assms by (simp add: grant_session_def send_decision_def MarkAuthenticated_def metric_def emit_def Let_def)
  ultimately show ?thesis by blast
qed

lemma authorized:
  assumes "cn_ok e s cl" and "group_ok e (h_out h) sv s cl" and "sv_identity sv" and "\<And>out. e_send e out = None"
  shows "\<exists>h'. authorize_claims e sv s cl h = (Resp 200 ''Success'', h') \<and>
    (\<exists>xs. h_out h' = h_out h @ xs \<and> List.map_filter sent xs = [allow (ps_CID s) (ps_KID s)])"
proof -
  obtain h1 xs where h1: "authorize_claims e sv s cl h = grant_session e sv s cl h1" "h_out h1 = h_out h @ xs"
    "List.map_filter sent xs = []"
  proof (cases "ps_RequiredGroup s = ''''")
    case True
    with cn_ok_check [OF assms(1)] that [of h "[]"] show ?thesis by (simp add: authorize_claims_def map_filter_def)
  next
    case False
    with group_ok_check [OF assms(2,3)] obtain h1 xs where
      g: "checkGroup e sv s cl h = (Some True, h1)" "h_out h1 = h_out h @ xs" "List.map_filter sent xs = []" by blast
    with that [of h1 xs] g(2,3) False cn_ok_check [OF assms(1)] show ?thesis by (simp add: authorize_claims_def g(1))
  qed
  obtain h' x where "grant_session e sv s cl h1 = (Resp 200 ''Success'', h')"
    "sent x = Some (allow (ps_CID s) (ps_KID s))" "h_out h' = h_out h1 @ [x, OMetric AuthSuccess]"
    using grant_accepted [where e = e, OF assms(4)] by blast
  moreover from this have "h_out h' = h_out h @ xs @ [x, OMetric AuthSuccess]"
    "List.map_filter sent (xs @ [x, OMetric AuthSuccess]) = [allow (ps_CID s) (ps_KID s)]"
    using h1(2,3) by (simp_all add: map_filter_def)
  ultimately show ?thesis using h1(1) by metis
qed

lemma checks_status:
  "cn_ok e (s\<lparr>ps_Status := x\<rparr>) cl = cn_ok e s cl" "group_ok e out sv (s\<lparr>ps_Status := x\<rparr>) cl = group_ok e out sv s cl"
  by (simp_all add: cn_ok_def group_ok_def)

lemma login_granted:
  assumes "payload_ok p" and "unix_seconds (e_now e (h_out h @ [OMetric CallbackReceived])) \<le> sp_EXP p"
    and "artifact \<in> set ['''', [CHR 0x27], ''%27'']" and "rq_state rq = EncodeState p (Sign (h_signer h)) @ artifact"
    and "fmlookup (h_sessions h) (sp_SID p) = Some s" and "ps_Status s = SessionPending"
    and "parseJWTHeader (rq_oidcData rq) = Some hdr" and "read_token_claims ce (rq_oidcData rq) hdr sv = (Claims cl, sv1)"
    and "cn_ok e s cl" and "group_ok e (h_out h @ [OMetric CallbackReceived]) sv s cl" and "sv_identity sv"
    and "\<And>out. e_send e out = None"
  shows "\<exists>h'. handleCallback ce e rq sv h = (Resp 200 ''Success'', sv1, h') \<and>
    decisions h h' = [allow (ps_CID s) (ps_KID s)]"
proof -
  let ?s = "s\<lparr>ps_Status := SessionProcessing\<rparr>"
  let ?h1 = "(metric CallbackReceived h)\<lparr>h_sessions := fmupd (sp_SID p) ?s (h_sessions h)\<rparr>"
  have st: "trim_state (rq_state rq) = EncodeState p (Sign (h_signer h))"
    using assms(3,4) trim_state_blob by auto
  have ne: "EncodeState p (Sign (h_signer h)) \<noteq> ''''" by (simp add: EncodeState_def Let_def)
  have "DecodeState (e_now e (h_out h @ [OMetric CallbackReceived])) (EncodeState p (Sign (h_signer h))) (Verify (h_signer h)) = Inr p"
    by (rule static.decode_encode [OF assms(1,2)])
  then have c: "callback_claim e rq h = (Inr ?s, ?h1)"
    using assms(5,6) ne by (simp add: callback_claim_def st time_now_def metric_def emit_def TryProcess_def claim_def Let_def)
  have d: "rq_oidcData rq \<noteq> ''''" using assms(7) by (auto simp: parseJWTHeader_def)
  have out: "h_out ?h1 = h_out h @ [OMetric CallbackReceived]" by (simp add: metric_def emit_def)
  have "cn_ok e ?s cl" "group_ok e (h_out ?h1) sv ?s cl" using assms(9,10) unfolding out by (simp_all only: checks_status)
  from authorized [OF this assms(11,12)] obtain h' xs where
    a: "authorize_claims e sv ?s cl ?h1 = (Resp 200 ''Success'', h')" "h_out h' = h_out ?h1 @ xs"
      "List.map_filter sent xs = [allow (ps_CID s) (ps_KID s)]" by auto
  have "handleCallback ce e rq sv h = (Resp 200 ''Success'', sv1, h')"
    using c d a(1) assms(7,8) by (simp add: handleCallback_def callback_decide_def Let_def)
  moreover have "decisions h h' = [allow (ps_CID s) (ps_KID s)]"
    using a(2,3) out decisions_emit [of h' h "OMetric CallbackReceived # xs"] by (simp add: map_filter_def)
  ultimately show ?thesis by blast
qed

text \<open>
  C6: a legitimate login succeeds. When the request brings back the state the daemon signed for a
  pending session before it expires (with or without the artifacts of a terminal), a token whose
  claims the server accepts, the name of the certificate and the required group, and the daemon
  takes the command, then the browser is told of the success and exactly one decision is sent, the
  grant for this connection.
\<close>

theorem legitimate_login_granted:
  assumes "payload_ok p" and "unix_seconds (e_now e (h_out h @ [OMetric CallbackReceived])) \<le> sp_EXP p"
    and "artifact \<in> set ['''', [CHR 0x27], ''%27'']" and "rq_state rq = EncodeState p (Sign (h_signer h)) @ artifact"
    and "fmlookup (h_sessions h) (sp_SID p) = Some s" and "ps_Status s = SessionPending"
    and "parseJWTHeader (rq_oidcData rq) = Some hdr" and "read_token_claims ce (rq_oidcData rq) hdr sv = (Claims cl, sv1)"
    and "cn_ok e s cl" and "group_ok e (h_out h @ [OMetric CallbackReceived]) sv s cl" and "sv_identity sv"
    and "\<And>out. e_send e out = None"
  shows "\<exists>h'. handleCallback ce e rq sv h = (Resp 200 ''Success'', sv1, h') \<and>
    decisions h h' = [allow (ps_CID s) (ps_KID s)]"
  using assms by (rule login_granted)

lemma sample_claims_read:
  "\<exists>sv1. read_token_claims sample_callback_env (rq_oidcData sample_request) \<lparr>jh_Kid = '''', jh_Signer = ''a''\<rparr> sample_server =
     (Claims \<lparr>jc_alb = \<lparr>ac_Sub = '''', ac_Email = ''alice'', ac_Iss = ''https://issuer'', ac_CognitoUsername = ''alice''\<rparr>,
        jc_Groups = [], jc_GroupsClaimPresent = False\<rparr>, sv1)"
  by (simp add: read_token_claims_def sample_server_def getOrFetchKey_def sample_callback_env_def
      validateALBJWT_def albKeyFunc_def extractALBClaims_def claim_string_def sample_config_def GroupsSourceJWTClaim_def Let_def)

theorem legitimate_login_granted_witness:
  "\<exists>sv1 h'. handleCallback sample_callback_env sample_checks sample_request sample_server sample_waiting =
     (Resp 200 ''Success'', sv1, h') \<and> decisions sample_waiting h' = [allow ''9'' ''1'']"
proof -
  let ?k = "\<lparr>signer_secret = ''0123456789abcdef''\<rparr>"
  let ?cl = "\<lparr>jc_alb = \<lparr>ac_Sub = '''', ac_Email = ''alice'', ac_Iss = ''https://issuer'', ac_CognitoUsername = ''alice''\<rparr>,
    jc_Groups = [], jc_GroupsClaimPresent = False\<rparr>"
  obtain sv1 where t: "read_token_claims sample_callback_env (rq_oidcData sample_request) \<lparr>jh_Kid = '''', jh_Signer = ''a''\<rparr>
      sample_server = (Claims ?cl, sv1)" using sample_claims_read by blast
  have p: "payload_ok sample_payload" "unix_seconds (e_now sample_checks (h_out sample_waiting @ [OMetric CallbackReceived])) \<le> sp_EXP sample_payload"
    by (simp_all add: payload_ok_def sample_payload_def json_safe_def byte_def i64_max_def unix_seconds_def i64_def
        time_second_def sample_checks_def sample_env_def)
  have r: "rq_state sample_request = EncodeState sample_payload (Sign (h_signer sample_waiting)) @ ''''"
    "parseJWTHeader (rq_oidcData sample_request) = Some \<lparr>jh_Kid = '''', jh_Signer = ''a''\<rparr>"
    using sample_header by (simp_all add: sample_request_def sample_waiting_def sample_handler_def NewHandler_def)
  have s: "fmlookup (h_sessions sample_waiting) (sp_SID sample_payload) = Some sample_pending"
    "ps_Status sample_pending = SessionPending" "ps_CommonName sample_pending = ''Alice''" "ps_RequiredGroup sample_pending = ''vpn''"
    "ps_CID sample_pending = ''9''" "ps_KID sample_pending = ''1''"
    by (simp_all add: sample_waiting_def Put_def sample_pending_def new_session_def sample_payload_def
        sample_config_def sample_connect_def CommonName_def getz_def)
  have "cn_ok sample_checks sample_pending ?cl"
    using sample_identity sample_email by (simp add: cn_ok_def s sample_checks_def sample_env_def)
  moreover have "group_ok sample_checks out sample_server sample_pending ?cl" for out
    by (simp add: group_ok_def sample_server_def sample_config_def GroupsSourceJWTClaim_def sample_checks_def)
  moreover have "sv_identity sample_server" "\<And>out. e_send sample_checks out = None"
    by (simp_all add: sample_server_def sample_checks_def sample_env_def)
  ultimately show ?thesis
    using legitimate_login_granted [OF p _ r(1) s(1,2) r(2) t] by (auto simp: s)
qed

section \<open>Exactly when access is granted\<close>

text \<open>What is asked of the token of a session that has been claimed.\<close>

definition token_accepted ::
  "callback_env \<Rightarrow> environ \<Rightarrow> request \<Rightarrow> server \<Rightarrow> effect list \<Rightarrow> pending_session \<Rightarrow> bool" where
  "token_accepted ce e rq sv out s \<longleftrightarrow>
     (case parseJWTHeader (rq_oidcData rq) of
        None \<Rightarrow> False
      | Some hdr \<Rightarrow>
          (case fst (read_token_claims ce (rq_oidcData rq) hdr sv) of
             Claims cl \<Rightarrow> cn_ok e s cl \<and> group_ok e out sv s cl \<and>
               (ps_RequiredGroup s = '''' \<or> GroupsSource (sv_cfg sv) = GroupsSourceJWTClaim \<or> sv_identity sv)
           | _ \<Rightarrow> False))"

text \<open>
  The specification of a login, without the steps and their order: the state parameter is valid and
  names the pending session \<open>s\<close>, the token is readable and its claims are accepted, the certificate
  name agrees, and the membership of the required group is established by a source that is there.
\<close>

definition login_acceptable ::
  "callback_env \<Rightarrow> environ \<Rightarrow> request \<Rightarrow> server \<Rightarrow> handler \<Rightarrow> pending_session \<Rightarrow> bool" where
  "login_acceptable ce e rq sv h s \<longleftrightarrow>
     (let out = h_out h @ [OMetric CallbackReceived] in
      case DecodeState (e_now e out) (trim_state (rq_state rq)) (Verify (h_signer h)) of
        Inl err \<Rightarrow> False
      | Inr p \<Rightarrow>
          fmlookup (h_sessions h) (sp_SID p) = Some s \<and> ps_Status s = SessionPending \<and>
          token_accepted ce e rq sv out s)"

lemma checkGroup_iff:
  "fst (checkGroup e sv s cl h) = Some True \<longleftrightarrow>
     (if GroupsSource (sv_cfg sv) = GroupsSourceJWTClaim then ps_RequiredGroup s \<in> set (jc_Groups cl)
      else sv_identity sv \<and>
        (\<exists>r. e_check e (h_out h @ [OCheckUser (ac_CognitoUsername (jc_alb cl)) (ps_RequiredGroup s) True]) = Inr r
          \<and> ir_Enabled r \<and> ir_InGroup r))"
  by (auto simp: checkGroup_def check_membership_def member_loop_iff Let_def split: sum.splits)

lemma cn_check_iff: "cn_check (e_uc e) s cl = None \<longleftrightarrow> cn_ok e s cl"
  using cn_check_ok cn_ok_check by blast

lemma deny_not_allow: "deny c k r \<noteq> allow c' k'"
  by (simp add: deny_def allow_def mk_decision_def)

lemma allow_eq_iff: "allow c k = allow c' k' \<longleftrightarrow> c = c' \<and> k = k'"
  by (auto simp: allow_def mk_decision_def)

text \<open>A claimed session is settled by a denial, or by a grant when the claims pass.\<close>

lemma rejected_sends: "sends [] h h1 \<Longrightarrow> \<exists>r'. sends [deny (ps_CID s) (ps_KID s) r'] h (snd (reject_session sv s r w t h1))"
  using sends_deny by blast

lemma authorize_sends:
  "if cn_ok e s cl \<and> group_ok e (h_out h) sv s cl \<and>
      (ps_RequiredGroup s = '''' \<or> GroupsSource (sv_cfg sv) = GroupsSourceJWTClaim \<or> sv_identity sv)
   then sends [allow (ps_CID s) (ps_KID s)] h (snd (authorize_claims e sv s cl h))
   else \<exists>r. sends [deny (ps_CID s) (ps_KID s) r] h (snd (authorize_claims e sv s cl h))"
proof (cases "cn_check (e_uc e) s cl")
  case (Some x)
  then have "\<not> cn_ok e s cl" by (simp flip: cn_check_iff)
  with Some rejected_sends [OF sends_refl] show ?thesis by (cases x) (simp add: authorize_claims_def)
next
  case None
  obtain g h1 where g: "checkGroup e sv s cl h = (g, h1)" by (cases "checkGroup e sv s cl h")
  have q: "sends [] h h1" using checkGroup_quiet(1) [of h e sv s cl] g by simp
  have i: "ps_RequiredGroup s \<noteq> '''' \<Longrightarrow> g = Some True \<longleftrightarrow> group_ok e (h_out h) sv s cl \<and>
      (GroupsSource (sv_cfg sv) = GroupsSourceJWTClaim \<or> sv_identity sv)"
    using checkGroup_iff [of e sv s cl h] g by (auto simp: group_ok_def)
  have c: "cn_ok e s cl" using None by (simp add: cn_check_iff)
  consider "ps_RequiredGroup s = ''''" | "ps_RequiredGroup s \<noteq> ''''" "g = Some True"
    | "ps_RequiredGroup s \<noteq> ''''" "g = Some False" | "ps_RequiredGroup s \<noteq> ''''" "g = None" by (cases g) auto
  then show ?thesis
  proof cases
    case 1
    then show ?thesis using None c sends_allow [OF sends_refl] by (simp add: authorize_claims_def group_ok_def)
  next
    case 2
    then show ?thesis using None c g i sends_allow [OF q] by (simp add: authorize_claims_def)
  qed (use None g i rejected_sends [OF q] in \<open>auto simp: authorize_claims_def\<close>)
qed

lemma decide_sends:
  "if token_accepted ce e rq sv (h_out h) s
   then sends [allow (ps_CID s) (ps_KID s)] h (snd (snd (callback_decide ce e rq s sv h)))
   else \<exists>ds. (ds = [] \<or> (\<exists>r. ds = [deny (ps_CID s) (ps_KID s) r])) \<and>
     sends ds h (snd (snd (callback_decide ce e rq s sv h)))"
proof (cases "parseJWTHeader (rq_oidcData rq)")
  case None
  then show ?thesis
    using rejected_sends [OF sends_refl, of s h sv]
    by (simp add: token_accepted_def callback_decide_def Let_def case_prod_beta) blast
next
  case (Some hdr)
  then have d: "rq_oidcData rq \<noteq> ''''" by (auto simp: parseJWTHeader_def)
  obtain t sv1 where t: "read_token_claims ce (rq_oidcData rq) hdr sv = (t, sv1)"
    by (cases "read_token_claims ce (rq_oidcData rq) hdr sv")
  show ?thesis
  proof (cases t)
    case (Claims cl)
    then show ?thesis
      using authorize_sends [of e s cl h sv] Some d t
      by (auto simp: token_accepted_def callback_decide_def Let_def case_prod_beta split: if_splits)
  next
    case KeyUnavailable
    have "sends [] h (metric m (h\<lparr>h_sessions := st\<rparr>))" for m st
      by (intro sends_metric, rule sends_silent [OF sends_refl]) simp
    with KeyUnavailable Some d t show ?thesis by (auto simp: token_accepted_def callback_decide_def Let_def)
  next
    case (BadToken r w)
    then show ?thesis
      using rejected_sends [OF sends_refl, of s h sv] Some d t
      by (simp add: token_accepted_def callback_decide_def Let_def case_prod_beta) blast
  qed
qed

lemma claim_not_acceptable:
  assumes "callback_claim e rq h = (Inl r, h1)"
  shows "\<not> login_acceptable ce e rq sv h s"
proof
  assume "login_acceptable ce e rq sv h s"
  then obtain p where p: "DecodeState (e_now e (h_out h @ [OMetric CallbackReceived])) (trim_state (rq_state rq)) (Verify (h_signer h)) = Inr p"
    "fmlookup (h_sessions h) (sp_SID p) = Some s" "ps_Status s = SessionPending"
    by (auto simp: login_acceptable_def Let_def split: sum.splits)
  then have "trim_state (rq_state rq) \<noteq> ''''" by (auto simp: DecodeState_def SplitN2_def)
  with p assms show False
    by (simp add: callback_claim_def time_now_def metric_def emit_def TryProcess_def claim_def Let_def)
qed

text \<open>
  C3: exactly when access is granted. A callback sends \<open>client-auth\<close> for a connection, and nothing
  else, if and only if the login of the pending session of this connection is acceptable; the order
  of the steps, the retry of a failed key fetch and the answers of the sink make no difference.
\<close>

theorem callback_grants_iff:
  "decisions h (snd (snd (handleCallback ce e rq sv h))) = [allow cid kid] \<longleftrightarrow>
     (\<exists>s. login_acceptable ce e rq sv h s \<and> ps_CID s = cid \<and> ps_KID s = kid)"
proof -
  obtain c h1 where c: "callback_claim e rq h = (c, h1)" by (cases "callback_claim e rq h")
  show ?thesis
  proof (cases c)
    case (Inl r)
    then have "decisions h (snd (snd (handleCallback ce e rq sv h))) = []"
      using c claim_refused(2) [of e rq h r h1] by (simp add: handleCallback_def sends_decisions)
    with claim_not_acceptable [OF c [unfolded Inl]] show ?thesis by simp
  next
    case (Inr sess)
    from claim_ok [OF c [unfolded Inr]] obtain p s0 where p: "DecodeState
        (e_now e (h_out h @ [OMetric CallbackReceived])) (trim_state (rq_state rq)) (Verify (h_signer h)) = Inr p"
      "fmlookup (h_sessions h) (sp_SID p) = Some s0" "ps_Status s0 = SessionPending"
      "sess = s0\<lparr>ps_Status := SessionProcessing\<rparr>"
      "h1 = (metric CallbackReceived h)\<lparr>h_sessions := fmupd (sp_SID p) sess (h_sessions h)\<rparr>" by metis
    have out: "h_out h1 = h_out h @ [OMetric CallbackReceived]" by (simp add: p(5) metric_def emit_def)
    have hd: "handleCallback ce e rq sv h = callback_decide ce e rq sess sv h1" using c Inr by (simp add: handleCallback_def)
    have q: "sends [] h h1" using out by (simp add: sends_def map_filter_simps)
    have ds: "decisions h h2 = ds" if "sends ds h1 h2" for ds h2
      using sends_decisions [OF sends_trans [OF q that]] by simp
    have a: "login_acceptable ce e rq sv h s \<longleftrightarrow> s = s0 \<and> token_accepted ce e rq sv (h_out h1) sess" for s
      using p(1-3) by (auto simp: login_acceptable_def token_accepted_def p(4) out checks_status Let_def
          split: option.splits token_result.splits)
    show ?thesis
      using decide_sends [of ce e rq sv h1 sess]
      by (cases "token_accepted ce e rq sv (h_out h1) sess") (auto simp: hd a p(4) ds allow_eq_iff deny_not_allow)
  qed
qed

section \<open>The development set-up\<close>

lemma mock_token_header:
  "parseJWTHeader (buildUnsignedJWT email sub groups now) = Some \<lparr>jh_Kid = ''mock-kid'', jh_Signer = ''''\<rparr>"
proof -
  let ?ms = "[(''alg'', JStr ''none''), (''kid'', JStr ''mock-kid''), (''typ'', JStr ''JWT'')]"
  have m: "mock_header = JObj ?ms" by code_simp
  have "list_all (\<lambda>(k, v). ascii k \<and> fits 0 v) ?ms" by (simp add: ascii_def byte_def)
  then have "fits 1 mock_header" unfolding m using fits_JObj [of 0 ?ms] by simp
  then have "json_parse (encode_json mock_header) = Some mock_header"
    by (intro fits_roundtrip, rule fits_mono) (simp add: max_nesting_def)
  then have "struct_members (encode_json mock_header) = Some ?ms" by (simp add: struct_members_def m)
  moreover have "string_field '''' (field_values ''kid'' ?ms) = Some ''mock-kid''"
    "string_field '''' (field_values ''signer'' ?ms) = Some ''''" by code_simp+
  ultimately show ?thesis by (simp add: parseJWTHeader_def token_parts decode_part)
qed

text \<open>
  With the ALB mock in front of a daemon without ALB ARN that reads groups from the token, the
  mocked user gets in: for a pending session of the mocked user's certificate and a required group
  among the mocked ones, the forwarded callback is answered with success and grants the connection.
\<close>

theorem mocked_login_granted:
  assumes "payload_ok p" and "unix_seconds (e_now e (h_out h @ [OMetric CallbackReceived])) \<le> sp_EXP p"
    and "rq = \<lparr>rq_state = EncodeState p (Sign (h_signer h)), rq_oidcData = buildUnsignedJWT email sub (splitGroups g) now\<rparr>"
    and "fmlookup (h_sessions h) (sp_SID p) = Some s" and "ps_Status s = SessionPending"
    and "ascii email" and "email \<noteq> ''''" and "ascii sub" and "list_all ascii (splitGroups g)" and "0 \<le> now" and "now + 3600 < 2 ^ 63"
    and "sv_albARN sv = ''''" and "GroupsClaim (sv_cfg sv) = ''cognito:groups''" and "GroupsSource (sv_cfg sv) = GroupsSourceJWTClaim"
    and "sv_identity sv" and "NormalizeIdentity (e_uc e) email = Inr i" and "NormalizeIdentity (e_uc e) (ps_CommonName s) = Inr i"
    and "ps_RequiredGroup s \<in> set (splitGroups g)" and "\<And>out. e_send e out = None"
  shows "\<exists>h'. handleCallback ce e rq sv h = (Resp 200 ''Success'', sv, h') \<and>
    decisions h h' = [allow (ps_CID s) (ps_KID s)]"
proof -
  let ?cl = "\<lparr>jc_alb = \<lparr>ac_Sub = sub, ac_Email = email, ac_Iss = ''mock-issuer'', ac_CognitoUsername = ''''\<rparr>,
    jc_Groups = splitGroups g, jc_GroupsClaimPresent = True\<rparr>"
  have "cn_ok e s ?cl" "group_ok e out sv s ?cl" for out
    using assms(14,16-18) by (simp_all add: cn_ok_def group_ok_def)
  moreover have "read_token_claims ce (rq_oidcData rq) hdr sv = (Claims ?cl, sv)" for hdr
    using token_read [OF assms(6-13)] by (simp add: assms(3))
  moreover have "parseJWTHeader (rq_oidcData rq) = Some \<lparr>jh_Kid = ''mock-kid'', jh_Signer = ''''\<rparr>"
    by (simp add: assms(3) mock_token_header)
  moreover have "rq_state rq = EncodeState p (Sign (h_signer h)) @ ''''" by (simp add: assms(3))
  ultimately show ?thesis
    by (intro login_granted [where artifact = "''''" and cl = ?cl, OF assms(1,2) _ _ assms(4,5) _ _ _ _ assms(15,19)]) simp_all
qed

end
