(* ===== verification/Probe.thy ===== *)
theory Probe
  imports Status
begin

text \<open>
  \<open>lab/cmd/pending-status-probe/main.go\<close>: the laboratory tool that runs one client through a real
  OpenVPN server and checks what \<open>status 3\<close> lists while the client is pending, after it was
  authorised and after it was killed. The loop over the socket's lines is a state machine; what it
  reads, writes and reports is a trace, and the first failing check ends it (\<open>fatalf\<close>). A marker
  is its constant text and its arguments, an error its constant text; the time stamps of the log
  are left out. The argument \<open>werr\<close> is the outcome of each write, \<open>uc\<close> the Unicode case table.
\<close>

section \<open>The status listing\<close>

text \<open>
  \<open>csv.Reader.Read\<close> on the single line, with any number of fields: a quoted field may hold commas and
  doubled quotes; a quote inside a bare field, or text behind a closing quote, is an error.
\<close>

lemma IndexByte_less: "IndexByte s c = Some i \<Longrightarrow> length s - Suc i < length s"
  by (cases s) auto

function csv_fields :: "string \<Rightarrow> string list result"
  and csv_quoted :: "string \<Rightarrow> string \<Rightarrow> string list result" where
  "csv_fields s =
     (if HasPrefix s [CHR 0x22] then csv_quoted [] (drop 1 s)
      else (case IndexByte s (CHR '','') of
          Some i \<Rightarrow>
            if CHR 0x22 \<in> set (take i s) then Err ''bare quote in non-quoted field''
            else map_sum id (\<lambda>fs. take i s # fs) (csv_fields (drop (Suc i) s))
        | None \<Rightarrow> if CHR 0x22 \<in> set s then Err ''bare quote in non-quoted field'' else Ok [s]))"
| "csv_quoted acc [] = Err ''extraneous or missing quote in quoted field''"
| "csv_quoted acc (c # s) =
     (if c \<noteq> CHR 0x22 then csv_quoted (acc @ [c]) s
      else (case s of
          [] \<Rightarrow> Ok [acc]
        | d # t \<Rightarrow>
            if d = CHR 0x22 then csv_quoted (acc @ [CHR 0x22]) t
            else if d = CHR '','' then map_sum id (\<lambda>fs. acc # fs) (csv_fields t)
            else Err ''extraneous or missing quote in quoted field''))"
  by pat_completeness auto
termination
  by (relation "measure (\<lambda>x. case x of Inl s \<Rightarrow> length s | Inr (acc, s) \<Rightarrow> length s)")
    (auto simp: HasPrefix_iff IndexByte_less)

declare csv_fields.simps [simp del] csv_quoted.simps [simp del]

text \<open>A carriage return at the end of the input is dropped, and an empty line is the end of the input.\<close>

definition csv_line :: "string \<Rightarrow> string list result" where
  "csv_line line =
     (let l = TrimSuffix line [CHR 0x0D] in if l = '''' then Ok [] else csv_fields l)"

definition probe_splitStatusLine :: "string \<Rightarrow> string list result" where
  "probe_splitStatusLine line =
     (if Contains line [CHR 0x09] then Ok (Split line (CHR 0x09))
      else (case csv_line line of Inl err \<Rightarrow> Err (''parse line: '' @ err) | Inr cols \<Rightarrow> Ok cols))"

definition probe_normalizeHeader :: "(nat \<Rightarrow> nat) \<Rightarrow> string \<Rightarrow> string" where
  "probe_normalizeHeader uc v =
     filter (\<lambda>c. c \<notin> set [CHR '' '', CHR ''_'', CHR ''-'', CHR 0x28, CHR 0x29]) (ToLower uc (TrimSpace v))"

definition probe_header :: "(nat \<Rightarrow> nat) \<Rightarrow> string list \<Rightarrow> (string, nat) fmap" where
  "probe_header uc names =
     foldl (\<lambda>m (i, name). fmupd (probe_normalizeHeader uc name) i m) fmempty (enumerate 1 names)"

text \<open>Whether the client is listed, and its virtual address.\<close>

fun find_client ::
  "(nat \<Rightarrow> nat) \<Rightarrow> string \<Rightarrow> (string, nat) fmap option \<Rightarrow> string list \<Rightarrow> (bool \<times> string) result" where
  "find_client uc cid header [] = Ok (False, '''')"
| "find_client uc cid header (line # lines) =
     (case probe_splitStatusLine line of
        Inl err \<Rightarrow> Err err
      | Inr cols \<Rightarrow>
          if length cols < 2 then find_client uc cid header lines
          else if cols ! 0 = ''HEADER'' then
            (if cols ! 1 \<noteq> ''CLIENT_LIST'' then find_client uc cid header lines
             else find_client uc cid (Some (probe_header uc (drop 2 cols))) lines)
          else if cols ! 0 = ''CLIENT_LIST'' then
            (case header of
               None \<Rightarrow> Err ''CLIENT_LIST appeared before its header''
             | Some h \<Rightarrow>
                 (case fmlookup h (probe_normalizeHeader uc ''Client ID'') of
                    None \<Rightarrow> find_client uc cid header lines
                  | Some i \<Rightarrow>
                      if length cols \<le> i \<or> cols ! i \<noteq> cid then find_client uc cid header lines
                      else (case fmlookup h (probe_normalizeHeader uc ''Virtual Address'') of
                          None \<Rightarrow> Ok (True, '''')
                        | Some j \<Rightarrow> if length cols \<le> j then Ok (True, '''') else Ok (True, cols ! j))))
          else find_client uc cid header lines)"

definition findStatusClient :: "(nat \<Rightarrow> nat) \<Rightarrow> string list \<Rightarrow> string \<Rightarrow> (bool \<times> string) result" where
  "findStatusClient uc lines cid = find_client uc cid None lines"

section \<open>The phases\<close>

datatype phase = waitConnect | waitBeforeAuthStatus | waitAuthAck | waitAfterAuthStatus
  | waitAfterGraceStatus | waitKillAck | waitDisconnect | waitAfterKillStatus

datatype probe_output =
    Recv string
  | Send string
  | Marker string "string list"
  | Sleep int

datatype probe_end = Complete | Fatal string

record probe =
  pb_phase :: phase
  pb_cid :: string
  pb_kid :: string
  pb_statusLines :: "string list"
  pb_trace :: "probe_output list"

definition new_probe :: probe where
  "new_probe = \<lparr>pb_phase = waitConnect, pb_cid = '''', pb_kid = '''', pb_statusLines = [], pb_trace = [Marker ''PROBE_READY'' []]\<rparr>"

text \<open>A step either goes on or ends the process; the trace is kept in both cases.\<close>

type_synonym probe_step = "probe \<times> probe_end option"

definition record_output :: "probe_output \<Rightarrow> probe \<Rightarrow> probe" where
  "record_output x p = p\<lparr>pb_trace := pb_trace p @ [x]\<rparr>"

definition logMarker :: "string \<Rightarrow> string list \<Rightarrow> probe \<Rightarrow> probe" where
  "logMarker format args p = record_output (Marker format args) p"

definition fatalf :: "string \<Rightarrow> probe \<Rightarrow> probe_step" where
  "fatalf err p = (p, Some (Fatal err))"

text \<open>\<open>werr\<close> gives the error of a write, as a function of the trace so far.\<close>

definition writeLine ::
  "(probe_output list \<Rightarrow> string option) \<Rightarrow> string \<Rightarrow> (probe \<Rightarrow> probe_step) \<Rightarrow> probe \<Rightarrow> probe_step" where
  "writeLine werr line rest p =
     (let p1 = record_output (Send line) p in
      case werr (pb_trace p) of Some err \<Rightarrow> fatalf (''write: '' @ err) p1 | None \<Rightarrow> rest p1)"

definition go_on :: "probe \<Rightarrow> probe_step" where
  "go_on p = (p, None)"

definition enter_status :: "phase \<Rightarrow> probe \<Rightarrow> probe_step" where
  "enter_status ph p = go_on (p\<lparr>pb_phase := ph, pb_statusLines := []\<rparr>)"

text \<open>What follows a complete listing.\<close>

definition check_status ::
  "(probe_output list \<Rightarrow> string option) \<Rightarrow> bool \<Rightarrow> string \<Rightarrow> probe \<Rightarrow> probe_step" where
  "check_status werr found virtualAddress p =
     (case pb_phase p of
        waitBeforeAuthStatus \<Rightarrow>
          if \<not> found \<or> virtualAddress \<noteq> '''' then fatalf ''pre-auth status'' p
          else writeLine werr (''client-auth '' @ pb_cid p @ '' '' @ pb_kid p)
                 (writeLine werr ''END'' (\<lambda>q. go_on (q\<lparr>pb_phase := waitAuthAck\<rparr>)))
                 (logMarker ''PROBE_ASSERT pre_auth_pending_present'' [pb_cid p] p)
      | waitAfterAuthStatus \<Rightarrow>
          if \<not> found then fatalf ''post-ACK status'' p
          else (let q = logMarker ''PROBE_ASSERT post_ack_present'' [pb_cid p, virtualAddress] p in
                writeLine werr ''status 3'' (enter_status waitAfterGraceStatus)
                  (record_output (Sleep (5 * time_second)) q))
      | waitAfterGraceStatus \<Rightarrow>
          if \<not> found then fatalf ''post-grace status'' p
          else writeLine werr (''client-kill '' @ pb_cid p @ '' HALT'') (\<lambda>q. go_on (q\<lparr>pb_phase := waitKillAck\<rparr>))
                 (logMarker ''PROBE_ASSERT post_grace_present''
                    [pb_cid p, if virtualAddress \<noteq> '''' then ''true'' else ''false'', virtualAddress] p)
      | waitAfterKillStatus \<Rightarrow>
          if found then fatalf ''post-disconnect status'' p
          else (logMarker ''PROBE_COMPLETE'' [] (logMarker ''PROBE_ASSERT post_disconnect_absent'' [pb_cid p] p),
                Some Complete)
      | _ \<Rightarrow> go_on p)"

definition probe_react ::
  "(nat \<Rightarrow> nat) \<Rightarrow> (probe_output list \<Rightarrow> string option) \<Rightarrow> string \<Rightarrow> probe \<Rightarrow> probe_step" where
  "probe_react uc werr line p =
     (if HasPrefix line ''>HOLD:'' then writeLine werr ''hold release'' go_on p
      else if HasPrefix line ''>CLIENT:CONNECT,'' \<and> pb_phase p = waitConnect then
        (case Split line (CHR '','') of
           a # cid # kid # _ \<Rightarrow> go_on (p\<lparr>pb_cid := cid, pb_kid := kid\<rparr>)
         | _ \<Rightarrow> fatalf ''invalid CLIENT:CONNECT line'' p)
      else if line = ''>CLIENT:ENV,END'' \<and> pb_phase p = waitConnect \<and> pb_cid p \<noteq> '''' then
        writeLine werr ''status 3'' (enter_status waitBeforeAuthStatus) p
      else if HasPrefix line (''>CLIENT:ESTABLISHED,'' @ pb_cid p) then
        go_on (logMarker ''PROBE_EVENT established'' [pb_cid p] p)
      else if HasPrefix line (''>CLIENT:DISCONNECT,'' @ pb_cid p) then
        (let q = logMarker ''PROBE_EVENT disconnected'' [pb_cid p] p in
         if pb_phase p = waitDisconnect then writeLine werr ''status 3'' (enter_status waitAfterKillStatus) q
         else go_on q)
      else (case pb_phase p of
          waitAuthAck \<Rightarrow>
            if HasPrefix line ''ERROR:'' then fatalf ''client-auth failed'' p
            else if HasPrefix line ''SUCCESS:'' then
              writeLine werr ''status 3'' (enter_status waitAfterAuthStatus)
                (logMarker ''PROBE_ASSERT client_auth_ack'' [pb_cid p] p)
            else go_on p
        | waitKillAck \<Rightarrow>
            if HasPrefix line ''ERROR:'' then fatalf ''client-kill failed'' p
            else if HasPrefix line ''SUCCESS:'' then
              go_on ((logMarker ''PROBE_ASSERT client_kill_ack'' [pb_cid p] p)\<lparr>pb_phase := waitDisconnect\<rparr>)
            else go_on p
        | waitConnect \<Rightarrow> go_on p
        | waitDisconnect \<Rightarrow> go_on p
        | _ \<Rightarrow>
            if HasPrefix line ''>'' then go_on p
            else if line \<noteq> ''END'' then go_on (p\<lparr>pb_statusLines := pb_statusLines p @ [line]\<rparr>)
            else (case findStatusClient uc (pb_statusLines p) (pb_cid p) of
                Inl err \<Rightarrow> fatalf (''parse status: '' @ err) p
              | Inr (found, virtualAddress) \<Rightarrow> check_status werr found virtualAddress p)))"

definition probe_line ::
  "(nat \<Rightarrow> nat) \<Rightarrow> (probe_output list \<Rightarrow> string option) \<Rightarrow> string \<Rightarrow> probe \<Rightarrow> probe_step" where
  "probe_line uc werr line p = probe_react uc werr line (record_output (Recv line) p)"

text \<open>The loop; \<open>scan_err\<close> is the scanner's error when the lines are used up.\<close>

fun run_probe ::
  "(nat \<Rightarrow> nat) \<Rightarrow> (probe_output list \<Rightarrow> string option) \<Rightarrow> string option \<Rightarrow> string list \<Rightarrow> probe \<Rightarrow> probe \<times> probe_end" where
  "run_probe uc werr scan_err [] p =
     (p, Fatal (case scan_err of Some err \<Rightarrow> ''read management socket: '' @ err
                | None \<Rightarrow> ''management socket closed before probe completed''))"
| "run_probe uc werr scan_err (line # lines) p =
     (case probe_line uc werr line p of
        (q, Some r) \<Rightarrow> (q, r)
      | (q, None) \<Rightarrow> run_probe uc werr scan_err lines q)"

section \<open>A completed probe\<close>

text \<open>The plain lines received since the last status request, and the last line received.\<close>

definition recv_line :: "probe_output \<Rightarrow> string list" where
  "recv_line x = (case x of Recv l \<Rightarrow> if HasPrefix l ''>'' \<or> l = ''END'' then [] else [l] | _ \<Rightarrow> [])"

definition listing :: "probe_output list \<Rightarrow> string list" where
  "listing tr = concat (map recv_line (rev (takeWhile (\<lambda>x. x \<noteq> Send ''status 3'') (rev tr))))"

definition heard :: "(string \<Rightarrow> bool) \<Rightarrow> probe_output list \<Rightarrow> bool" where
  "heard P tr = (case rev tr of Recv l # _ \<Rightarrow> P l | _ \<Rightarrow> False)"

lemma listing_snoc:
  "listing (tr @ [x]) = (if x = Send ''status 3'' then [] else listing tr @ recv_line x)"
  by (simp add: listing_def)

lemma heard_snoc: "heard P (tr @ [x]) = (case x of Recv l \<Rightarrow> P l | _ \<Rightarrow> False)"
  by (simp add: heard_def split: probe_output.split)

text \<open>The output right before the last status request.\<close>

definition asked_upon :: "probe_output list \<Rightarrow> probe_output option" where
  "asked_upon tr = (case dropWhile (\<lambda>x. x \<noteq> Send ''status 3'') (rev tr) of _ # x # _ \<Rightarrow> Some x | _ \<Rightarrow> None)"

lemma asked_upon_snoc:
  "asked_upon (tr @ [x]) =
     (if x = Send ''status 3'' then (if tr = [] then None else Some (last tr)) else asked_upon tr)"
  by (cases tr rule: rev_cases) (simp_all add: asked_upon_def)

text \<open>What must have been received before a marker is reported.\<close>

definition acknowledged :: "probe_output list \<Rightarrow> bool" where
  "acknowledged tr = heard (\<lambda>l. HasPrefix l ''SUCCESS:'') tr"

definition notified :: "string \<Rightarrow> string \<Rightarrow> probe_output list \<Rightarrow> bool" where
  "notified event cid tr = heard (\<lambda>l. HasPrefix l (event @ cid)) tr"

definition listed :: "(nat \<Rightarrow> nat) \<Rightarrow> probe_output list \<Rightarrow> string \<Rightarrow> bool \<times> string \<Rightarrow> bool" where
  "listed uc tr cid r \<longleftrightarrow> heard (\<lambda>l. l = ''END'') tr \<and> findStatusClient uc (listing tr) cid = Ok r"

text \<open>A client was announced with its two ids.\<close>

definition announces :: "string \<Rightarrow> string \<Rightarrow> probe_output \<Rightarrow> bool" where
  "announces cid kid x =
     (case x of
        Recv l \<Rightarrow> HasPrefix l ''>CLIENT:CONNECT,'' \<and>
          (case Split l (CHR '','') of _ # c # k # _ \<Rightarrow> c = cid \<and> k = kid | _ \<Rightarrow> False)
      | _ \<Rightarrow> False)"

abbreviation announced :: "string \<Rightarrow> string \<Rightarrow> probe_output list \<Rightarrow> bool" where
  "announced cid kid tr \<equiv> list_ex (announces cid kid) tr"

definition evidence :: "(nat \<Rightarrow> nat) \<Rightarrow> probe_output list \<Rightarrow> probe_output \<Rightarrow> bool" where
  "evidence uc tr x =
     (case x of
        Marker f args \<Rightarrow>
          if f = ''PROBE_ASSERT pre_auth_pending_present'' then listed uc tr (args ! 0) (True, '''')
          else if f = ''PROBE_ASSERT client_auth_ack'' then acknowledged tr
          else if f = ''PROBE_ASSERT post_ack_present'' then listed uc tr (args ! 0) (True, args ! 1)
          else if f = ''PROBE_ASSERT post_grace_present'' then
            listed uc tr (args ! 0) (True, args ! 2) \<and> (args ! 1 = ''true'' \<longleftrightarrow> args ! 2 \<noteq> '''')
          else if f = ''PROBE_ASSERT client_kill_ack'' then acknowledged tr
          else if f = ''PROBE_ASSERT post_disconnect_absent'' then
            (\<exists>va. listed uc tr (args ! 0) (False, va)) \<and>
            asked_upon tr = Some (Marker ''PROBE_EVENT disconnected'' [args ! 0])
          else if f = ''PROBE_EVENT established'' then notified ''>CLIENT:ESTABLISHED,'' (args ! 0) tr
          else if f = ''PROBE_EVENT disconnected'' then notified ''>CLIENT:DISCONNECT,'' (args ! 0) tr
          else f = ''PROBE_READY'' \<or> f = ''PROBE_COMPLETE''
      | _ \<Rightarrow> True)"

definition backed :: "(nat \<Rightarrow> nat) \<Rightarrow> probe_output list \<Rightarrow> bool" where
  "backed uc tr \<longleftrightarrow> (\<forall>k < length tr. evidence uc (take k tr) (tr ! k))"

lemma backed_snoc: "backed uc (tr @ [x]) \<longleftrightarrow> backed uc tr \<and> evidence uc tr x"
  by (auto simp: backed_def less_Suc_eq nth_append)

lemma evidence_other [simp]: "evidence uc tr (Recv l)" "evidence uc tr (Send l)" "evidence uc tr (Sleep d)"
  by (simp_all add: evidence_def)

text \<open>The commands and checks, in the order in which a run makes them.\<close>

definition milestone :: "probe_output \<Rightarrow> bool" where
  "milestone x =
     (case x of
        Recv l \<Rightarrow> False
      | Send l \<Rightarrow> l \<noteq> ''hold release''
      | Marker f args \<Rightarrow> f \<noteq> ''PROBE_EVENT established'' \<and> f \<noteq> ''PROBE_EVENT disconnected''
      | Sleep d \<Rightarrow> True)"

abbreviation milestones :: "probe_output list \<Rightarrow> probe_output list" where
  "milestones tr \<equiv> filter milestone tr"

primrec phase_number :: "phase \<Rightarrow> nat" where
  "phase_number waitConnect = 0"
| "phase_number waitBeforeAuthStatus = 1"
| "phase_number waitAuthAck = 2"
| "phase_number waitAfterAuthStatus = 3"
| "phase_number waitAfterGraceStatus = 4"
| "phase_number waitKillAck = 5"
| "phase_number waitDisconnect = 6"
| "phase_number waitAfterKillStatus = 7"

function script :: "string \<Rightarrow> string \<Rightarrow> string \<Rightarrow> string \<Rightarrow> phase \<Rightarrow> probe_output list" where
  "script cid kid va vb waitConnect = [Marker ''PROBE_READY'' []]"
| "script cid kid va vb waitBeforeAuthStatus = script cid kid va vb waitConnect @ [Send ''status 3'']"
| "script cid kid va vb waitAuthAck = script cid kid va vb waitBeforeAuthStatus @
     [Marker ''PROBE_ASSERT pre_auth_pending_present'' [cid], Send (''client-auth '' @ cid @ '' '' @ kid), Send ''END'']"
| "script cid kid va vb waitAfterAuthStatus = script cid kid va vb waitAuthAck @
     [Marker ''PROBE_ASSERT client_auth_ack'' [cid], Send ''status 3'']"
| "script cid kid va vb waitAfterGraceStatus = script cid kid va vb waitAfterAuthStatus @
     [Marker ''PROBE_ASSERT post_ack_present'' [cid, va], Sleep (5 * time_second), Send ''status 3'']"
| "script cid kid va vb waitKillAck = script cid kid va vb waitAfterGraceStatus @
     [Marker ''PROBE_ASSERT post_grace_present'' [cid, if vb \<noteq> '''' then ''true'' else ''false'', vb],
      Send (''client-kill '' @ cid @ '' HALT'')]"
| "script cid kid va vb waitDisconnect = script cid kid va vb waitKillAck @ [Marker ''PROBE_ASSERT client_kill_ack'' [cid]]"
| "script cid kid va vb waitAfterKillStatus = script cid kid va vb waitDisconnect @ [Send ''status 3'']"
  by pat_completeness auto
termination
  by (relation "measure (\<lambda>(cid, kid, va, vb, ph). phase_number ph)") simp_all

definition status_phase :: "phase \<Rightarrow> bool" where
  "status_phase ph \<longleftrightarrow> ph \<in> {waitBeforeAuthStatus, waitAfterAuthStatus, waitAfterGraceStatus, waitAfterKillStatus}"

definition probe_ok :: "(nat \<Rightarrow> nat) \<Rightarrow> probe \<Rightarrow> bool" where
  "probe_ok uc p \<longleftrightarrow>
     backed uc (pb_trace p) \<and>
     (status_phase (pb_phase p) \<longrightarrow> pb_statusLines p = listing (pb_trace p)) \<and>
     (pb_phase p \<noteq> waitConnect \<longrightarrow> pb_cid p \<noteq> '''') \<and>
     (pb_phase p = waitAfterKillStatus \<longrightarrow>
        asked_upon (pb_trace p) = Some (Marker ''PROBE_EVENT disconnected'' [pb_cid p])) \<and>
     (pb_cid p \<noteq> '''' \<longrightarrow> announced (pb_cid p) (pb_kid p) (pb_trace p)) \<and>
     (\<exists>va vb. milestones (pb_trace p) = script (pb_cid p) (pb_kid p) va vb (pb_phase p))"

definition complete_ok :: "(nat \<Rightarrow> nat) \<Rightarrow> probe \<Rightarrow> bool" where
  "complete_ok uc p \<longleftrightarrow>
     backed uc (pb_trace p) \<and> pb_cid p \<noteq> '''' \<and> announced (pb_cid p) (pb_kid p) (pb_trace p) \<and>
     (\<exists>va vb. milestones (pb_trace p) = script (pb_cid p) (pb_kid p) va vb waitAfterKillStatus @
        [Marker ''PROBE_ASSERT post_disconnect_absent'' [pb_cid p], Marker ''PROBE_COMPLETE'' []])"

definition post :: "(nat \<Rightarrow> nat) \<Rightarrow> probe_step \<Rightarrow> bool" where
  "post uc s = (case snd s of None \<Rightarrow> probe_ok uc (fst s) | Some Complete \<Rightarrow> complete_ok uc (fst s) | Some (Fatal _) \<Rightarrow> True)"

lemma post_simps [simp]:
  "post uc (fatalf err p)" "post uc (go_on p) = probe_ok uc p" "post uc (p, Some Complete) = complete_ok uc p"
  "post uc (enter_status ph p) = probe_ok uc (p\<lparr>pb_phase := ph, pb_statusLines := []\<rparr>)"
  by (simp_all add: post_def fatalf_def go_on_def enter_status_def)

lemma post_writeLine: "post uc (rest (record_output (Send line) p)) \<Longrightarrow> post uc (writeLine werr line rest p)"
  by (simp add: writeLine_def Let_def split: option.split)

lemma backed_record:
  "backed uc (pb_trace (record_output x p)) \<longleftrightarrow> backed uc (pb_trace p) \<and> evidence uc (pb_trace p) x"
  by (simp add: record_output_def backed_snoc)

lemmas probe_trace = record_output_def logMarker_def listing_snoc backed_snoc heard_snoc asked_upon_snoc

text \<open>Outputs that are no milestones keep the invariant; so does the receipt of a notification.\<close>

lemma probe_ok_note:
  assumes "probe_ok uc p" and "\<not> milestone x" and "evidence uc (pb_trace p) x" and "recv_line x = []" and "x \<noteq> Send ''status 3''"
  shows "probe_ok uc (record_output x p)"
  using assms by (auto simp: probe_ok_def probe_trace)

lemma probe_ok_notification: "probe_ok uc p \<Longrightarrow> HasPrefix line ''>'' \<Longrightarrow> probe_ok uc (record_output (Recv line) p)"
  by (rule probe_ok_note) (simp_all add: milestone_def recv_line_def)

text \<open>Entering a phase with a fresh status request.\<close>

lemma probe_ok_request:
  assumes "backed uc (pb_trace p)" and "pb_cid p \<noteq> ''''" and "status_phase ph"
    and "milestones (pb_trace p) @ [Send ''status 3''] = script (pb_cid p) (pb_kid p) va vb ph"
    and "ph = waitAfterKillStatus \<Longrightarrow> pb_trace p \<noteq> [] \<and> last (pb_trace p) = Marker ''PROBE_EVENT disconnected'' [pb_cid p]"
    and "announced (pb_cid p) (pb_kid p) (pb_trace p)"
  shows "probe_ok uc ((record_output (Send ''status 3'') p)\<lparr>pb_phase := ph, pb_statusLines := []\<rparr>)"
proof -
  have "milestone (Send ''status 3'')" by (simp add: milestone_def)
  with assms show ?thesis by (auto simp: probe_ok_def probe_trace status_phase_def)
qed

lemma post_notification:
  assumes "probe_ok uc p" and "HasPrefix line ''>''"
  shows "post uc (probe_line uc werr line p)"
proof -
  let ?p = "record_output (Recv line) p"
  have ok: "probe_ok uc ?p" by (rule probe_ok_notification [OF assms])
  have same: "pb_phase ?p = pb_phase p" "pb_cid ?p = pb_cid p" by (simp_all add: record_output_def)
  have est: "probe_ok uc (logMarker ''PROBE_EVENT established'' [pb_cid p] ?p)"
    if "HasPrefix line (''>CLIENT:ESTABLISHED,'' @ pb_cid p)"
    unfolding logMarker_def using that
    by (intro probe_ok_note [OF ok]) (simp_all add: milestone_def evidence_def recv_line_def notified_def record_output_def heard_snoc)
  have dis: "probe_ok uc (logMarker ''PROBE_EVENT disconnected'' [pb_cid p] ?p)"
    if "HasPrefix line (''>CLIENT:DISCONNECT,'' @ pb_cid p)"
    unfolding logMarker_def using that
    by (intro probe_ok_note [OF ok]) (simp_all add: milestone_def evidence_def recv_line_def notified_def record_output_def heard_snoc)
  from ok obtain va vb where ok': "backed uc (pb_trace ?p)" "pb_phase ?p \<noteq> waitConnect \<longrightarrow> pb_cid ?p \<noteq> ''''"
    "milestones (pb_trace ?p) = script (pb_cid ?p) (pb_kid ?p) va vb (pb_phase ?p)"
    "pb_cid ?p \<noteq> '''' \<longrightarrow> announced (pb_cid ?p) (pb_kid ?p) (pb_trace ?p)"
    unfolding probe_ok_def by blast
  have hold: "post uc (writeLine werr ''hold release'' go_on ?p)"
    by (rule post_writeLine) (simp add: probe_ok_note [OF ok] milestone_def recv_line_def)
  have connect: "probe_ok uc (?p\<lparr>pb_cid := c, pb_kid := k\<rparr>)"
    if "pb_phase p = waitConnect" "HasPrefix line ''>CLIENT:CONNECT,''" "Split line (CHR '','') = a # c # k # r" for a c k r
  proof -
    have "announced c k (pb_trace ?p)" using that(2,3) by (simp add: announces_def record_output_def)
    then show ?thesis using ok' that(1) same by (simp add: probe_ok_def status_phase_def)
  qed
  have pending: "post uc (writeLine werr ''status 3'' (enter_status waitBeforeAuthStatus) ?p)"
    if "pb_phase p = waitConnect" "pb_cid p \<noteq> ''''"
    using that ok' same by (intro post_writeLine) (auto intro!: probe_ok_request [where va = va and vb = vb] simp: status_phase_def)
  have gone: "post uc (writeLine werr ''status 3'' (enter_status waitAfterKillStatus)
      (logMarker ''PROBE_EVENT disconnected'' [pb_cid p] ?p))"
    if "pb_phase p = waitDisconnect" "HasPrefix line (''>CLIENT:DISCONNECT,'' @ pb_cid p)"
  proof (rule post_writeLine)
    let ?q = "logMarker ''PROBE_EVENT disconnected'' [pb_cid p] ?p"
    have "milestones (pb_trace ?q) @ [Send ''status 3''] = script (pb_cid ?q) (pb_kid ?q) va vb waitAfterKillStatus"
      using ok'(3) that same by (simp add: logMarker_def record_output_def milestone_def)
    moreover have "backed uc (pb_trace ?q)" using dis [OF that(2)] by (simp add: probe_ok_def)
    moreover have "pb_cid ?q = pb_cid p" "pb_cid ?q \<noteq> ''''"
      "pb_trace ?q \<noteq> [] \<and> last (pb_trace ?q) = Marker ''PROBE_EVENT disconnected'' [pb_cid ?q]"
      "announced (pb_cid ?q) (pb_kid ?q) (pb_trace ?q)"
      using ok'(2,4) that same by (auto simp: logMarker_def record_output_def)
    ultimately show "post uc (enter_status waitAfterKillStatus (record_output (Send ''status 3'') ?q))"
      by (auto intro!: probe_ok_request simp: status_phase_def)
  qed
  have plain: "\<not> HasPrefix line ''ERROR:''" "\<not> HasPrefix line ''SUCCESS:''"
    using assms(2) by (cases line; simp)+
  show ?thesis
    using hold connect pending gone est dis ok plain assms(2)
    by (auto simp: probe_line_def probe_react_def same Let_def simp del: HasPrefix.simps split: list.split phase.split)
qed

text \<open>A plain line: the end of a listing, another line of it, or the answer to a command.\<close>

lemma plain_react:
  assumes "\<not> HasPrefix line ''>''"
  shows "\<not> HasPrefix line ''>HOLD:''" "\<not> HasPrefix line ''>CLIENT:CONNECT,''" "line \<noteq> ''>CLIENT:ENV,END''"
    "\<not> HasPrefix line (''>CLIENT:ESTABLISHED,'' @ c)" "\<not> HasPrefix line (''>CLIENT:DISCONNECT,'' @ c)"
  using assms by (cases line; auto)+

lemma check_status_ok:
  assumes "probe_ok uc p" and "status_phase (pb_phase p)"
    and "findStatusClient uc (pb_statusLines p) (pb_cid p) = Ok (found, virtualAddress)"
  shows "post uc (check_status werr found virtualAddress (record_output (Recv ''END'') p))"
proof -
  let ?p = "record_output (Recv ''END'') p"
  from assms(1,2) obtain va vb where ok: "backed uc (pb_trace p)" "pb_statusLines p = listing (pb_trace p)" "pb_cid p \<noteq> ''''"
    "milestones (pb_trace p) = script (pb_cid p) (pb_kid p) va vb (pb_phase p)"
    "announced (pb_cid p) (pb_kid p) (pb_trace p)"
    unfolding probe_ok_def status_phase_def by auto
  have upon: "asked_upon (pb_trace ?p) = Some (Marker ''PROBE_EVENT disconnected'' [pb_cid p])"
    if "pb_phase p = waitAfterKillStatus"
    using assms(1) that by (simp add: probe_ok_def probe_trace)
  have l: "listed uc (pb_trace ?p) (pb_cid p) (found, virtualAddress)"
    using assms(3) ok(2) by (simp add: listed_def probe_trace recv_line_def)
  have b: "backed uc (pb_trace ?p)" using ok(1) by (simp add: probe_trace)
  have m: "milestones (pb_trace ?p) = script (pb_cid p) (pb_kid p) va vb (pb_phase p)"
    using ok(4) by (simp add: record_output_def milestone_def)
  have r: "pb_phase ?p = pb_phase p" "pb_cid ?p = pb_cid p" "pb_kid ?p = pb_kid p" by (simp_all add: record_output_def)
  consider "pb_phase p = waitBeforeAuthStatus" | "pb_phase p = waitAfterAuthStatus"
    | "pb_phase p = waitAfterGraceStatus" | "pb_phase p = waitAfterKillStatus"
    using assms(2) by (auto simp: status_phase_def)
  then show ?thesis
  proof cases
    case 1
    have bk: "backed uc (pb_trace (record_output (Send ''END'') (record_output (Send (''client-auth '' @ pb_cid p @ '' '' @ pb_kid p))
        (logMarker ''PROBE_ASSERT pre_auth_pending_present'' [pb_cid p] ?p))))"
      if "found" "virtualAddress = ''''"
      using that l b by (simp add: backed_record logMarker_def evidence_def)
    have "probe_ok uc ((record_output (Send ''END'') (record_output (Send (''client-auth '' @ pb_cid p @ '' '' @ pb_kid p))
        (logMarker ''PROBE_ASSERT pre_auth_pending_present'' [pb_cid p] ?p)))\<lparr>pb_phase := waitAuthAck\<rparr>)"
      if "found" "virtualAddress = ''''"
      unfolding probe_ok_def using that 1 bk m ok(3) ok(5)
      by (auto simp: record_output_def logMarker_def backed_snoc evidence_def milestone_def status_phase_def)
    then show ?thesis using 1 by (auto simp: check_status_def r intro!: post_writeLine)
  next
    case 2
    let ?q = "record_output (Sleep (5 * time_second)) (logMarker ''PROBE_ASSERT post_ack_present'' [pb_cid p, virtualAddress] ?p)"
    have "probe_ok uc ((record_output (Send ''status 3'') ?q)\<lparr>pb_phase := waitAfterGraceStatus, pb_statusLines := []\<rparr>)"
      if "found"
    proof (rule probe_ok_request [where va = virtualAddress and vb = vb])
      show "backed uc (pb_trace ?q)"
        using that l b by (simp add: backed_record logMarker_def evidence_def)
      show "milestones (pb_trace ?q) @ [Send ''status 3''] = script (pb_cid ?q) (pb_kid ?q) virtualAddress vb waitAfterGraceStatus"
        using m 2 by (simp add: record_output_def logMarker_def milestone_def)
    qed (use ok(3,5) in \<open>auto simp: record_output_def logMarker_def status_phase_def\<close>)
    then show ?thesis using 2 by (auto simp: check_status_def r Let_def intro!: post_writeLine)
  next
    case 3
    have "probe_ok uc ((record_output (Send (''client-kill '' @ pb_cid p @ '' HALT'')) (logMarker ''PROBE_ASSERT post_grace_present''
        [pb_cid p, if virtualAddress \<noteq> '''' then ''true'' else ''false'', virtualAddress] ?p))\<lparr>pb_phase := waitKillAck\<rparr>)"
      if "found"
    proof -
      have "backed uc (pb_trace (record_output (Send (''client-kill '' @ pb_cid p @ '' HALT'')) (logMarker ''PROBE_ASSERT post_grace_present''
          [pb_cid p, if virtualAddress \<noteq> '''' then ''true'' else ''false'', virtualAddress] ?p)))"
        using that l b by (simp add: backed_record logMarker_def evidence_def)
      then show ?thesis
        unfolding probe_ok_def using that 3 m ok(3) ok(5)
        by (auto simp: record_output_def logMarker_def milestone_def status_phase_def)
    qed
    then show ?thesis using 3 by (auto simp: check_status_def r intro!: post_writeLine)
  next
    case 4
    have "complete_ok uc (logMarker ''PROBE_COMPLETE'' [] (logMarker ''PROBE_ASSERT post_disconnect_absent'' [pb_cid p] ?p))"
      if "\<not> found"
    proof -
      have "backed uc (pb_trace (logMarker ''PROBE_COMPLETE'' [] (logMarker ''PROBE_ASSERT post_disconnect_absent'' [pb_cid p] ?p)))"
        using that l b upon [OF 4] by (auto simp: backed_record logMarker_def evidence_def)
      then show ?thesis
        unfolding complete_ok_def using that 4 m ok(3) ok(5)
        by (auto simp: record_output_def logMarker_def milestone_def)
    qed
    then show ?thesis using 4 by (simp add: check_status_def r)
  qed
qed

lemma post_plain:
  assumes "probe_ok uc p" and "\<not> HasPrefix line ''>''"
  shows "post uc (probe_line uc werr line p)"
proof -
  let ?p = "record_output (Recv line) p"
  from assms(1) obtain va vb where ok: "backed uc (pb_trace p)" "pb_phase p \<noteq> waitConnect \<longrightarrow> pb_cid p \<noteq> ''''"
    "status_phase (pb_phase p) \<longrightarrow> pb_statusLines p = listing (pb_trace p)"
    "milestones (pb_trace p) = script (pb_cid p) (pb_kid p) va vb (pb_phase p)"
    unfolding probe_ok_def by blast
  have b: "backed uc (pb_trace ?p)" using ok(1) by (simp add: probe_trace)
  have m: "milestones (pb_trace ?p) = script (pb_cid p) (pb_kid p) va vb (pb_phase p)"
    using ok(4) by (simp add: record_output_def milestone_def)
  have r: "pb_phase ?p = pb_phase p" "pb_cid ?p = pb_cid p" "pb_kid ?p = pb_kid p"
    "pb_statusLines ?p = pb_statusLines p" by (simp_all add: record_output_def)
  have an: "announced (pb_cid p) (pb_kid p) (pb_trace ?p)" if "pb_cid p \<noteq> ''''"
    using assms(1) that by (auto simp: probe_ok_def record_output_def)
  have up: "asked_upon (pb_trace ?p) = asked_upon (pb_trace p)" by (simp add: probe_trace)
  have quiet: "probe_ok uc ?p" if "\<not> status_phase (pb_phase p)"
    using that ok(2) b m an unfolding probe_ok_def r by (auto simp: status_phase_def)
  have more: "probe_ok uc (?p\<lparr>pb_statusLines := pb_statusLines p @ [line]\<rparr>)" if "status_phase (pb_phase p)" "line \<noteq> ''END''"
    using assms(1) unfolding probe_ok_def using that ok(2,3) b m an up assms(2)
    by (auto simp: record_output_def listing_snoc recv_line_def)
  have acked: "acknowledged (pb_trace ?p)" if "HasPrefix line ''SUCCESS:''"
    using that by (simp add: acknowledged_def record_output_def heard_snoc)
  have auth: "post uc (writeLine werr ''status 3'' (enter_status waitAfterAuthStatus)
      (logMarker ''PROBE_ASSERT client_auth_ack'' [pb_cid p] ?p))"
    if "pb_phase p = waitAuthAck" "HasPrefix line ''SUCCESS:''"
  proof (rule post_writeLine)
    let ?q = "logMarker ''PROBE_ASSERT client_auth_ack'' [pb_cid p] ?p"
    have "milestones (pb_trace ?q) @ [Send ''status 3''] = script (pb_cid ?q) (pb_kid ?q) va vb waitAfterAuthStatus"
      using m that by (simp add: logMarker_def record_output_def milestone_def)
    moreover have "backed uc (pb_trace ?q)"
      using b acked [OF that(2)] by (simp add: logMarker_def backed_record evidence_def)
    moreover have "pb_cid ?q \<noteq> ''''" "announced (pb_cid ?q) (pb_kid ?q) (pb_trace ?q)"
      using ok(2) an that by (auto simp: logMarker_def record_output_def)
    ultimately show "post uc (enter_status waitAfterAuthStatus (record_output (Send ''status 3'') ?q))"
      by (auto intro!: probe_ok_request simp: status_phase_def)
  qed
  have kill: "probe_ok uc ((logMarker ''PROBE_ASSERT client_kill_ack'' [pb_cid p] ?p)\<lparr>pb_phase := waitDisconnect\<rparr>)"
    if "pb_phase p = waitKillAck" "HasPrefix line ''SUCCESS:''"
  proof -
    have "backed uc (pb_trace (logMarker ''PROBE_ASSERT client_kill_ack'' [pb_cid p] ?p))"
      using b acked [OF that(2)] by (simp add: logMarker_def backed_record evidence_def)
    then show ?thesis
      unfolding probe_ok_def using that m ok(2) an
      by (auto simp: record_output_def logMarker_def milestone_def status_phase_def)
  qed
  have over: "post uc (check_status werr found virtualAddress ?p)"
    if "status_phase (pb_phase p)" "line = ''END''" "findStatusClient uc (pb_statusLines p) (pb_cid p) = Ok (found, virtualAddress)"
    for found virtualAddress
    using check_status_ok [OF assms(1) that(1,3)] that(2) by simp
  note plain = plain_react [OF assms(2)]
  show ?thesis
    unfolding probe_line_def probe_react_def r
    using plain assms(2) quiet more auth kill over
    by (cases "pb_phase p") (auto simp: status_phase_def simp del: HasPrefix.simps split: sum.split)
qed

lemma probe_line_ok: "probe_ok uc p \<Longrightarrow> post uc (probe_line uc werr line p)"
  using post_notification post_plain by blast

lemma run_probe_ok: "probe_ok uc p \<Longrightarrow> run_probe uc werr scan_err lines p = (q, Complete) \<Longrightarrow> complete_ok uc q"
proof (induction lines arbitrary: p)
  case (Cons line lines)
  from probe_line_ok [OF Cons.prems(1), of werr line] Cons show ?case
    by (auto simp: post_def split: prod.splits option.splits)
qed simp

lemma probe_ok_new: "probe_ok uc new_probe"
  by (simp add: probe_ok_def new_probe_def backed_def evidence_def status_phase_def milestone_def)


definition sample_run :: "string list" where
  "sample_run =
     (let header = ''HEADER,CLIENT_LIST,Client ID,Virtual Address'' in
      [''>HOLD:Waiting'', ''>CLIENT:CONNECT,3,1'', ''>CLIENT:ENV,common_name=alice'', ''>CLIENT:ENV,END'',
       header, ''CLIENT_LIST,3,'', ''END'', ''SUCCESS: client-auth command succeeded'',
       header, ''CLIENT_LIST,3,'', ''END'', ''>CLIENT:ESTABLISHED,3'', ''>CLIENT:ENV,END'',
       header, ''CLIENT_LIST,3,10.8.0.2'', ''END'', ''SUCCESS: client-kill command succeeded'',
       ''>CLIENT:DISCONNECT,3'', ''>CLIENT:ENV,END'', header, ''END''])"


text \<open>The client is recognised by a prefix: the disconnect of client 10 is taken for that of client 1.\<close>

lemma disconnect_of_another_client:
  "pb_phase (fst (probe_line id (\<lambda>_. None) ''>CLIENT:DISCONNECT,10''
     (new_probe\<lparr>pb_phase := waitDisconnect, pb_cid := ''1''\<rparr>))) = waitAfterKillStatus"
  by code_simp

section \<open>The probe and the daemon\<close>

lemma probe_header_index: "probe_normalizeHeader = normalizeHeader" "probe_header = header_index"
proof -
  show n: "probe_normalizeHeader = normalizeHeader"
    by (intro ext) (simp only: probe_normalizeHeader_def normalizeHeader_def)
  show "probe_header = header_index" by (intro ext) (simp only: probe_header_def header_index_def n)
qed

lemma probe_split_join:
  assumes "2 \<le> length ps" and "\<And>p. p \<in> set ps \<Longrightarrow> CHR 0x09 \<notin> set p"
  shows "probe_splitStatusLine (join [CHR 0x09] ps) = Ok ps"
proof -
  have "ps \<noteq> []" using assms(1) by auto
  then show ?thesis using assms by (simp add: probe_splitStatusLine_def Contains_join Split_join)
qed

lemma find_client_row:
  assumes "row_ok r"
  shows "find_client uc cid (Some (header_index uc client_header)) (row_line r # lines) =
    (if row_cid r = cid then Ok (True, row_virtual r)
     else find_client uc cid (Some (header_index uc client_header)) lines)"
proof -
  have "probe_splitStatusLine (row_line r) = Ok (row_cols r)"
    unfolding row_line_def using assms by (intro probe_split_join) (auto simp: row_ok_def row_cols_def)
  moreover have "header_index uc client_header = column_index client_header"
    by (simp add: header_index_names client_header_names)
  moreover have "''Client ID'' \<in> set header_names" "''Virtual Address'' \<in> set header_names"
    by (simp_all add: header_names_def client_header_def)
  then have "normalizeHeader uc ''Client ID'' = column_name ''Client ID''"
    "normalizeHeader uc ''Virtual Address'' = column_name ''Virtual Address''"
    by (simp_all add: normalizeHeader_names)
  moreover have "fmlookup (column_index client_header) (column_name ''Client ID'') = Some 10"
    "fmlookup (column_index client_header) (column_name ''Virtual Address'') = Some 3"
    using client_index by simp_all
  moreover have "row_cols r ! 0 = ''CLIENT_LIST''" "11 \<le> length (row_cols r)" by (simp_all add: row_cols_def)
  ultimately show ?thesis by (simp add: probe_header_index row_cols_nth)
qed

lemma find_client_rows:
  assumes "list_all row_ok rows"
  shows "find_client uc cid (Some (header_index uc client_header)) (map row_line rows) =
    Ok (case find (\<lambda>c. sc_cid c = cid) (map row_client rows) of None \<Rightarrow> (False, '''') | Some c \<Rightarrow> (True, sc_virtualAddress c))"
  using assms by (induction rows) (simp_all add: find_client_row row_client_def del: find_client.simps(2))

text \<open>
  The probe and the daemon read a listing alike. For the listing that OpenVPN prints with tabs,
  the probe finds a client exactly when the daemon's snapshot has it, with the same virtual address, and
  reports it as established exactly when the daemon counts it as established.
\<close>

theorem probe_reads_like_daemon:
  assumes "list_all row_ok rows"
  shows "\<exists>s. ParseStatusLines uc (header_line # map row_line rows @ [''END'']) = Ok s \<and>
    findStatusClient uc (header_line # map row_line rows) cid =
      Ok (case ClientByCID s cid of None \<Rightarrow> (False, '''') | Some c \<Rightarrow> (True, sc_virtualAddress c)) \<and>
    (\<forall>c. ClientByCID s cid = Some c \<longrightarrow> sc_established c = (sc_virtualAddress c \<noteq> ''''))"
proof -
  have "probe_splitStatusLine header_line = Ok (''HEADER'' # ''CLIENT_LIST'' # client_header)"
    unfolding header_line_def by (rule probe_split_join) (auto simp: client_header_def)
  then have "findStatusClient uc (header_line # map row_line rows) cid =
      find_client uc cid (Some (header_index uc client_header)) (map row_line rows)"
    by (simp add: findStatusClient_def probe_header_index)
  moreover have "ParseStatusLines uc (header_line # map row_line rows @ [''END'']) =
      Ok \<lparr>ss_clients = map row_client rows,
          ss_established = map session_of (filter sc_established (map row_client rows))\<rparr>"
    using parse_status_rows [of rows uc "[]"] assms by (simp add: list_all_iff)
  moreover have "find (\<lambda>c. sc_cid c = cid) (map row_client rows) = Some c \<Longrightarrow> sc_established c = (sc_virtualAddress c \<noteq> '''')" for c
    by (induction rows) (auto simp: row_client_def split: if_splits)
  ultimately show ?thesis
    using find_client_rows [OF assms, of uc cid] by (simp add: ClientByCID_def)
qed

theorem probe_reads_like_daemon_witness:
  "findStatusClient id [header_line, row_line sample_row] ''7'' = Ok (True, '''')"
proof -
  have ok: "list_all row_ok [sample_row]" using sample_row_ok by simp
  obtain s where s: "ParseStatusLines id [header_line, row_line sample_row, ''END''] = Ok s"
    "findStatusClient id [header_line, row_line sample_row] ''7'' =
      Ok (case ClientByCID s ''7'' of None \<Rightarrow> (False, '''') | Some c \<Rightarrow> (True, sc_virtualAddress c))"
    using probe_reads_like_daemon [OF ok, of id "''7''"] by auto
  have "s = \<lparr>ss_clients = [row_client sample_row], ss_established = []\<rparr>"
    using s(1) parse_status_rows [of "[sample_row]" id "[]"] sample_row_ok by (simp add: row_client_def sample_row_def)
  with s(2) show ?thesis by (simp add: ClientByCID_def row_client_def sample_row_def)
qed

end
