(* ===== verification/Spec2Isabelle.thy ===== *)
theory Spec2Isabelle
  imports LambdaRouter Startup MgmtMock Login Probe
begin

text \<open>
  A verification development for openvpn-auth-aws: a daemon beside an OpenVPN server that admits
  clients after a browser login at AWS Cognito behind an application load balancer (ALB).

  \<^bold>\<open>The program.\<close> OpenVPN reports client events on its management socket and takes commands from it.
  The daemon (\<open>src/internal/app\<close>) reads the socket, hands the events to the handler
  (\<open>src/internal/auth\<close>) and passes the handler's decisions to OpenVPN as commands. For a new
  connection the handler stores a pending session and sends the client a URL with a signed state
  parameter. The browser logs in; the ALB forwards it, through the Lambda router
  (\<open>src/lambda-router\<close>), to the callback server (\<open>src/internal/callback\<close>), which verifies the state
  and the ALB's token, checks the certificate name and the group (\<open>src/internal/cognito\<close>), and
  grants or denies. The handler then tracks the connection: it replaces older sessions of the same
  identity, ends sessions after the maximum duration, answers re-authentications, and rebuilds its
  tracking from the status listing after the management connection was lost.

  \<^bold>\<open>How the parts are modelled.\<close>
  \<^item> \<open>Prelude\<close>, \<open>GoStrings\<close>, \<open>Base64\<close>, \<open>Json\<close>, \<open>JsonText\<close>, \<open>GoFlags\<close>: what the code uses of the Go
    language and its standard library: maps with zero values, wrapping and saturating 64-bit
    integers, byte strings with prefix, split, trim and case operations on UTF-8, decimal numbers,
    URL-safe base64, \<open>encoding/json\<close> in both directions (tokens, values, strings, structs, raw
    members), the parsers of durations, integers and booleans, and the \<open>flag\<close> package. \<open>Prelude\<close> has
    the locale of transition systems with an invariant.
  \<^item> \<open>Hmac\<close>, \<open>State\<close> (\<open>secrets/hmac.go\<close>, \<open>secrets/manager.go\<close>, \<open>auth/state.go\<close>): SHA-256 on 32-bit words,
    HMAC, the static signer, the secret's checks, and the state blob. The locale \<open>state_signer\<close> is the
    contract of a signer and is interpreted on the static signer.
  \<^item> \<open>Config\<close>, \<open>Settings\<close> (\<open>config/config.go\<close>): the settings and their validation; flags, environment
    variables and the startup notices.
  \<^item> \<open>Identity\<close> (\<open>auth/identity.go\<close>, \<open>auth/cache.go\<close>): normalised names, the re-authentication cache.
  \<^item> \<open>Mgmt\<close>, \<open>Status\<close>, \<open>MgmtClient\<close> (\<open>internal/mgmt\<close>): events and their blocks, commands, the status
    listing, the line scanner with its limit of 64 KB, dialling and the password exchange.
  \<^item> \<open>Sessions\<close> (\<open>auth/sessions.go\<close>): the store of pending sessions. The locale \<open>claimable\<close> is the
    contract of the parties that compete for a session.
  \<^item> \<open>Handler\<close>, \<open>Rebuild\<close> (\<open>auth/handler.go\<close>): the handler's state (\<open>cidState\<close>, the index of active
    sessions and the index of attempts) and every operation. A goroutine that is started is recorded
    in the state; its body is an operation of its own. What the handler does to the outside
    (decisions, metrics, queries) is a trace, and the outside's answers are a function of the trace.
  \<^item> \<open>Ownership\<close>: the critical sections as a step relation; the ownership invariant holds in every
    interleaving of them, and the operations are sequences of them. The rebuild after a reconnect is a
    step under a side condition (\<open>snapshot_keeps\<close>): a live connection that the snapshot still lists is
    listed as established, which fails when OpenVPN was restarted and uses an id again.
  \<^item> \<open>Decisions\<close>, \<open>Lifecycle\<close>: what the operations decide and what they do to sessions.
  \<^item> \<open>GroupsParser\<close>, \<open>Callback\<close>, \<open>Cognito\<close> (\<open>callback/groupsparser.go\<close>, \<open>callback/server.go\<close>,
    \<open>internal/cognito\<close>): the groups claim, the callback endpoint and the health endpoint, the check
    of a user, the fetch of public keys.
  \<^item> \<open>Outcomes\<close>, \<open>Login\<close>, \<open>System\<close>: a callback by its status code; the specification
    \<open>login_acceptable\<close> of a login and that the callback grants exactly these logins; and callbacks,
    events, timers and the reaper interleaved on the shared store.
  \<^item> \<open>Broker\<close>, \<open>Reader\<close>, \<open>RawLog\<close>, \<open>Daemon\<close> (\<open>internal/app\<close>): commands and responses, the separation of
    notifications and responses, the redaction of logged lines, sinks, the bootstrap of a
    connection, the main loop as the list of the states it passes through, heartbeat and shutdown.
  \<^item> \<open>Wire\<close>: the commands as bytes on the management socket and the lines that are read from them.
  \<^item> \<open>LambdaRouter\<close> (\<open>lambda-router/main.go\<close>): paths, addresses, headers and the proxying of a callback,
    with the list of the servers contacted, redirects included.
  \<^item> \<open>OidcDebug\<close>, \<open>Pages\<close>, \<open>Emf\<close> (\<open>callback/oidcdebug.go\<close>, \<open>callback/render.go\<close>, \<open>metrics/emf.go\<close>): the
    diagnostics of tokens, the pages and the metric records, as the values handed to the logger, to
    the browser and to the writer.
  \<^item> \<open>Startup\<close> (\<open>cmd/openvpn-auth-daemon\<close>): from the command line to the running parts.
  \<^item> \<open>MgmtMock\<close>, \<open>AlbMock\<close>, \<open>Probe\<close> (\<open>cmd/mgmt-mock\<close>, \<open>cmd/alb-mock\<close>,
    \<open>lab/cmd/pending-status-probe\<close>): the stand-ins for OpenVPN and the ALB, and the tool that checks
    a real server, composed with the daemon's own readers.

  \<^bold>\<open>What is shown.\<close> Security: a state is accepted exactly when it carries the daemon's MAC and is not
  expired; access is granted by a callback exactly to the acceptable logins, and a legitimate login
  ends with success; otherwise it is granted by a re-authentication only by its specification, and
  by nothing else; a session is settled at most once in every interleaving;
  groups, tokens and keys are what the identity provider says; the router first contacts the server
  of its path, inside the VPC, and further servers only as far as it is redirected; the raw log hides
  a secret up to its first break character; no secret reaches the claim diagnostics; a daemon that
  starts has everything these guarantees rest on. Sessions: at most one live session and one attempt per
  identity; new sessions replace old ones; the sweep after a reconnect kills exactly the surplus and
  the expired sessions; neither a duplicate event nor a reconnect extends a
  session; disconnects leave nothing behind. Protocol: blocks, listings and commands are read and
  written so that nothing is lost, mixed up, split or left without an answer. Ends and bounds: the connect
  loop ends, every request to the broker is answered, URLs fit the client's buffer, delays are
  capped. Operation: the health endpoint tells the truth in every state of the main loop; every outcome of reading the settings is accounted for and flags win over the
  environment; metric lines are well-formed records; diagnostics report the bytes of each claim and
  both formats alike; pages are complete. Tools: the daemon reads the mocks' events, listings and
  tokens as intended, and what a completed probe reports was received. Some theorems record
  defects, or where the code and the documents differ: \<open>timeout_during_callback_loses_expiry\<close>,
  \<open>password_tail_is_logged\<close>, \<open>unacknowledged_grant_stays_queued\<close> (a grant reported as failed may
  still be sent), \<open>redirect_carries_token\<close> (a redirect takes the user's token anywhere),
  \<open>state_issue_time_unchecked\<close>, \<open>port_variable_lenient\<close>, \<open>mock_answers_grant\<close>,
  \<open>mock_status_read\<close> and \<open>disconnect_of_another_client\<close>.

  \<^bold>\<open>Bounds and fuel.\<close> No definition uses fuel: loops are structural recursions or have a termination
  proof (the connect loop by the number of promoted connections, the JSON scanner and the socket
  reader by the input left). Durations and times are integers of nanoseconds; where the code relies
  on the range of \<open>int64\<close>, wrap-around and saturation are written out.

  \<^bold>\<open>Parameters.\<close> Code outside the repository is a parameter with nothing assumed unless stated: the
  JWT library's verification (a function of the token, the key function and the options that the
  code passes), AWS SDK answers (functions of the user pool and the user), HTTP transports (a proxy
  of the environment is part of them), the syntax of URLs, PEM parsing, the Unicode case tables beyond ASCII, random bytes, the clock, the operating system's
  errors. Runs of the whole daemon assume that random session ids do not repeat.

  \<^bold>\<open>Not modelled.\<close> The HTTP servers' routing, listening and shutdown; the goroutines that only wait
  for signals, timers or contexts (their bodies are operations, run in any order); HTML text and the
  execution of templates; the text of log messages outside the diagnostics; the help text and the
  listening sockets of the mocks; Terraform, scripts and packaging.
\<close>

end
